(* ===== verification/Prelude.thy ===== *)
theory Prelude
  imports Main "HOL-Library.Word" "HOL-Library.AList"
begin

text \<open>
  What every component of the development shares: the names of Go's types, the parts of
  Go's standard library the code calls (\<open>encoding/hex\<close>, the \<open>%d\<close> verb of \<open>fmt\<close>,
  \<open>encoding/binary\<close> for big-endian words, conversions between strings and byte slices),
  association lists for the maps the code iterates over, sums over finite maps, and the
  theorem collections the component theories extend.
\<close>

section \<open>Theorem collections\<close>

named_theorems model_defs \<open>definitions of the model's straight-line operations\<close>
named_theorems frame \<open>what an operation leaves unchanged\<close>

section \<open>Go's types\<close>

text \<open>
  \<open>uint64\<close> and \<open>int64\<close> are 64-bit words whose arithmetic wraps; a value of type \<open>int64\<close>
  is read with \<open>sint\<close>. A Go string is a sequence of bytes, as is Isabelle's \<open>string\<close>
  (a \<open>char\<close> is eight bits); \<open>[]byte\<close> is a list of 8-bit words.
\<close>

type_synonym u64 = "64 word"
type_synonym i64 = "64 word"
type_synonym u32 = "32 word"
type_synonym byte = "8 word"
type_synonym bytes = "byte list"

definition bytes_of_string :: "string \<Rightarrow> bytes" where
  "bytes_of_string s = map of_char s"

definition string_of_bytes :: "bytes \<Rightarrow> string" where
  "string_of_bytes b = map (\<lambda>w. char_of (unat w)) b"

lemma unat_byte_less [simp]: "unat (w :: byte) < 256"
  using unsigned_less [of w, where ?'a = nat] by simp

lemma of_char_char_of_byte [simp]: "of_char (char_of (unat (w :: byte))) = w"
  by (simp flip: of_nat_of_char [of "char_of (unat w)", where ?'a = byte])

lemma char_of_of_char_byte [simp]: "char_of (unat (of_char c :: byte)) = c"
proof -
  have "of_char c mod (256 :: nat) = of_char c" by (rule of_char_mod_256)
  moreover have "unat (of_nat (of_char c) :: byte) = of_char c mod (256 :: nat)"
    by (simp add: unsigned_of_nat take_bit_eq_mod)
  ultimately have "unat (of_char c :: byte) = of_char c"
    by (simp add: of_nat_of_char)
  then show ?thesis by simp
qed

lemma string_of_bytes_of_string [simp]: "string_of_bytes (bytes_of_string s) = s"
  by (simp add: string_of_bytes_def bytes_of_string_def comp_def)

lemma bytes_of_string_of_bytes [simp]: "bytes_of_string (string_of_bytes b) = b"
  by (simp add: string_of_bytes_def bytes_of_string_def comp_def)

lemma bytes_of_string_inject [simp]: "bytes_of_string s = bytes_of_string t \<longleftrightarrow> s = t"
  by (metis string_of_bytes_of_string)

lemma string_of_bytes_inject [simp]: "string_of_bytes s = string_of_bytes t \<longleftrightarrow> s = t"
  by (metis bytes_of_string_of_bytes)

lemma bytes_of_string_append [simp]:
  "bytes_of_string (s @ t) = bytes_of_string s @ bytes_of_string t"
  by (simp add: bytes_of_string_def)

lemma length_bytes_of_string [simp]: "length (bytes_of_string s) = length s"
  by (simp add: bytes_of_string_def)

text \<open>A call that may panic: the value it returns, or the panic with its message.\<close>

datatype 'a outcome = Ret 'a | Panic string

text \<open>\<open>errors.Wrap\<close>: the message, a colon, the cause.\<close>

definition wrap :: "string \<Rightarrow> string \<Rightarrow> string" where
  "wrap msg err = msg @ '': '' @ err"

fun bind_outcome :: "'a outcome \<Rightarrow> ('a \<Rightarrow> 'b outcome) \<Rightarrow> 'b outcome" where
  "bind_outcome (Ret x) f = f x"
| "bind_outcome (Panic m) f = Panic m"

lemma bind_outcome_Ret: "bind_outcome m f = Ret y \<longleftrightarrow> (\<exists>x. m = Ret x \<and> f x = Ret y)"
  by (cases m) simp_all

section \<open>The standard library\<close>

subsection \<open>fmt: the verb %d on unsigned integers\<close>

fun digits :: "nat \<Rightarrow> string" where
  "digits n = (if n < 10 then [char_of (48 + n)] else digits (n div 10) @ [char_of (48 + n mod 10)])"

declare digits.simps [simp del]

definition fmt_u64 :: "u64 \<Rightarrow> string" where
  "fmt_u64 w = digits (unat w)"

definition fmt_i64 :: "i64 \<Rightarrow> string" where
  "fmt_i64 w = (if sint w < 0 then ''-'' @ digits (nat (- sint w)) else digits (nat (sint w)))"

lemma digits_nonempty [simp]: "digits n \<noteq> []"
  by (subst digits.simps) simp

subsection \<open>encoding/hex\<close>

definition hex_digit :: "nat \<Rightarrow> char" where
  "hex_digit n = char_of (if n < 10 then 48 + n else 87 + n)"

definition hex_value :: "char \<Rightarrow> nat option" where
  "hex_value c =
     (let n = (of_char c :: nat) in
      if 48 \<le> n \<and> n \<le> 57 then Some (n - 48)
      else if 97 \<le> n \<and> n \<le> 102 then Some (n - 87)
      else if 65 \<le> n \<and> n \<le> 70 then Some (n - 55)
      else None)"

fun hex_encode :: "bytes \<Rightarrow> string" where
  "hex_encode [] = []"
| "hex_encode (b # bs) = hex_digit (unat b div 16) # hex_digit (unat b mod 16) # hex_encode bs"

text \<open>\<open>hex.DecodeString\<close>: \<open>None\<close> is \<open>ErrLength\<close> or \<open>InvalidByteError\<close>.\<close>

fun hex_decode :: "string \<Rightarrow> bytes option" where
  "hex_decode [] = Some []"
| "hex_decode [c] = None"
| "hex_decode (c # d # cs) =
     (case (hex_value c, hex_value d) of
        (Some h, Some l) \<Rightarrow> map_option (\<lambda>bs. word_of_nat (16 * h + l) # bs) (hex_decode cs)
      | _ \<Rightarrow> None)"

lemma hex_value_digit: "n < 16 \<Longrightarrow> hex_value (hex_digit n) = Some n"
  by (auto simp: hex_value_def hex_digit_def Let_def of_char_of)

lemma length_hex_encode [simp]: "length (hex_encode bs) = 2 * length bs"
  by (induction bs) auto

lemma hex_decode_encode [simp]: "hex_decode (hex_encode bs) = Some bs"
proof (induction bs)
  case Nil
  show ?case by simp
next
  case (Cons b bs)
  have "unat b div 16 < 16"
    using unat_byte_less [of b] by (simp add: less_mult_imp_div_less)
  moreover have "unat b mod 16 < 16" by simp
  moreover have "16 * (unat b div 16) + unat b mod 16 = unat b" by simp
  ultimately show ?case
    using Cons.IH by (simp add: hex_value_digit del: mult_div_mod_eq)
qed

lemma hex_encode_inject [simp]: "hex_encode a = hex_encode b \<longleftrightarrow> a = b"
  by (metis hex_decode_encode option.inject)

lemma length_hex_decode: "hex_decode s = Some bs \<Longrightarrow> length s = 2 * length bs"
  by (induction s arbitrary: bs rule: hex_decode.induct) (auto split: option.splits)

section \<open>Go's maps as association lists\<close>

text \<open>
  A Go map the code ranges over is an association list; \<open>m[k] = v\<close> is \<open>AList.update\<close>,
  \<open>delete(m, k)\<close> is \<open>AList.delete\<close>, a read is \<open>map_of\<close>. \<open>range m\<close> visits the
  keys in an order Go leaves open: a loop over a map takes that order as an argument, and
  \<open>range_order\<close> says it is a possible one.
\<close>

definition keys :: "('k \<times> 'v) list \<Rightarrow> 'k list" where
  "keys m = map fst m"

definition range_order :: "'k list \<Rightarrow> ('k \<times> 'v) list \<Rightarrow> bool" where
  "range_order ks m \<longleftrightarrow> distinct ks \<and> set ks = set (keys m)"

text \<open>The values a loop over the map sees, in the order \<open>ks\<close> of its keys.\<close>

definition range_values :: "'k list \<Rightarrow> ('k \<times> 'v) list \<Rightarrow> 'v list" where
  "range_values ks m = List.map_filter (map_of m) ks"

text \<open>\<open>m[k] = append(m[k], x)\<close> on a map of slices; a missing key reads as the nil slice.\<close>

definition slice_at :: "('k \<times> 'v list) list \<Rightarrow> 'k \<Rightarrow> 'v list" where
  "slice_at m k = (case map_of m k of None \<Rightarrow> [] | Some xs \<Rightarrow> xs)"

definition append_at :: "'k \<Rightarrow> 'v \<Rightarrow> ('k \<times> 'v list) list \<Rightarrow> ('k \<times> 'v list) list" where
  "append_at k x m = AList.update k (slice_at m k @ [x]) m"

lemma slice_at_append_at [simp]:
  "slice_at (append_at k x m) k' = (if k = k' then slice_at m k' @ [x] else slice_at m k')"
  by (simp add: slice_at_def append_at_def update_conv)

lemma keys_update [simp]: "set (keys (AList.update k v m)) = insert k (set (keys m))"
  by (simp add: keys_def dom_update [unfolded image_set [symmetric]] flip: image_set)

lemma keys_delete [simp]: "set (keys (AList.delete k m)) = set (keys m) - {k}"
  using delete_keys [of k m] by (auto simp: keys_def)

lemma distinct_keys_update [simp]:
  "distinct (keys m) \<Longrightarrow> distinct (keys (AList.update k v m))"
  by (simp add: keys_def distinct_update)

lemma distinct_keys_delete [simp]:
  "distinct (keys m) \<Longrightarrow> distinct (keys (AList.delete k m))"
  by (simp add: keys_def distinct_delete)

lemma map_of_None_keys: "map_of m k = None \<longleftrightarrow> k \<notin> set (keys m)"
  by (simp add: keys_def map_of_eq_None_iff)

lemma map_of_Some_keys: "map_of m k = Some v \<Longrightarrow> k \<in> set (keys m)"
  by (metis map_of_None_keys option.distinct(1))

lemma keys_map_of: "k \<in> set (keys m) \<Longrightarrow> \<exists>v. map_of m k = Some v"
  by (metis map_of_None_keys not_None_eq)

lemma map_of_update [simp]: "map_of (AList.update k v m) = (map_of m)(k \<mapsto> v)"
  by (simp add: update_conv')

lemma map_of_delete [simp]: "map_of (AList.delete k m) = (map_of m)(k := None)"
  by (simp add: delete_conv')

lemma update_new: "k \<notin> set (keys m) \<Longrightarrow> AList.update k v m = m @ [(k, v)]"
  by (induction m) (auto simp: keys_def)

lemma length_update: "length (AList.update k v m) = (if k \<in> set (keys m) then length m else Suc (length m))"
  by (induction m) (auto simp: keys_def)

lemma set_range_values:
  "range_order ks m \<Longrightarrow> set (range_values ks m) = ran (map_of m)"
  by (auto simp: range_values_def range_order_def map_filter_def ran_def
      map_of_Some_keys image_def split: option.splits) (metis map_of_Some_keys option.sel option.distinct(1))

lemma keys_range_order [simp]: "distinct (keys m) \<Longrightarrow> range_order (keys m) m"
  by (simp add: range_order_def)

section \<open>Arithmetic on 64-bit words\<close>

lemma unat_u64_less [simp]: "unat (w :: u64) < 18446744073709551616"
  using unsigned_less [of w, where ?'a = nat] by simp

lemma unat_add_u64:
  "unat (a + b :: u64) = (unat a + unat b) mod 18446744073709551616"
  by (simp add: unat_word_ariths)

lemma unat_add_no_overflow [simp]:
  "unat a + unat b < 18446744073709551616 \<Longrightarrow> unat (a + b :: u64) = unat a + unat b"
  by (simp add: unat_add_u64)

lemma unat_add_overflow:
  assumes "18446744073709551616 \<le> unat a + unat (b :: u64)"
  shows "unat (a + b) + 18446744073709551616 = unat a + unat b"
proof -
  have "unat a + unat b - 18446744073709551616 < 18446744073709551616"
    using unat_u64_less [of a] unat_u64_less [of b] by linarith
  then have "(unat a + unat b) mod 18446744073709551616 = unat a + unat b - 18446744073709551616"
    using le_mod_geq [OF assms] by simp
  with assms show ?thesis unfolding unat_add_u64 by linarith
qed

lemma unat_sub_no_underflow [simp]:
  "unat b \<le> unat a \<Longrightarrow> unat (a - b :: u64) = unat a - unat b"
  by (simp add: unat_sub word_le_nat_alt)

text \<open>A loop \<open>for r <= e; r++\<close> on 64-bit words comes closer to its end as long as \<open>e\<close> is not the
  greatest word.\<close>

lemma unat_next_word:
  assumes "(r :: u64) < 18446744073709551615" shows "unat (r + 1) = unat r + 1"
proof -
  have "unat r + unat (1 :: u64) < 18446744073709551616" using assms by (simp add: word_less_nat_alt)
  then show ?thesis by (simp only: unat_add_no_overflow unsigned_1)
qed

lemma word_loop_progress:
  assumes "(r :: u64) \<le> e" and "e < 18446744073709551615"
  shows "unat e + 1 - unat (r + 1) < unat e + 1 - unat r"
proof -
  have "r < 18446744073709551615" using assms by simp
  moreover have "unat r \<le> unat e" using assms(1) by (simp add: word_le_nat_alt)
  ultimately show ?thesis by (simp add: unat_next_word)
qed

lemma word_le_max [simp]: "(r :: u64) \<le> 18446744073709551615"
  by (simp add: word_le_nat_alt less_Suc_eq_le [symmetric])

section \<open>Contracts that several components share\<close>

text \<open>Steps that keep a property keep it along every run.\<close>

locale keeping_steps =
  fixes step :: "'s \<Rightarrow> 's \<Rightarrow> bool" and good :: "'s \<Rightarrow> bool"
  assumes kept: "step s s' \<Longrightarrow> good s \<Longrightarrow> good s'"
begin

lemma run: "step\<^sup>*\<^sup>* s s' \<Longrightarrow> good s \<Longrightarrow> good s'"
  by (induction rule: rtranclp_induct) (auto intro: kept)

end

text \<open>
  A system that refines another: seen through \<open>absn\<close>, each step from a good state is some
  number of steps of the specification.
\<close>

locale refinement = keeping_steps step good
  for step :: "'s \<Rightarrow> 's \<Rightarrow> bool" and good :: "'s \<Rightarrow> bool" +
  fixes spec :: "'a \<Rightarrow> 'a \<Rightarrow> bool" and absn :: "'s \<Rightarrow> 'a"
  assumes simulated: "step s s' \<Longrightarrow> good s \<Longrightarrow> spec\<^sup>*\<^sup>* (absn s) (absn s')"
begin

lemma simulated_run: "step\<^sup>*\<^sup>* s s' \<Longrightarrow> good s \<Longrightarrow> spec\<^sup>*\<^sup>* (absn s) (absn s')"
proof (induction rule: rtranclp_induct)
  case (step y z)
  then show ?case using run simulated by (meson rtranclp_trans)
qed simp

end

text \<open>
  A loop \<open>for r := first; r <= last; r++\<close> over 64-bit rounds. A turn goes on with a new state or
  leaves the loop with a result; \<open>None\<close> is not returning. It returns when the last round is
  not the greatest word, and turns that change nothing leave the state as it was.
\<close>

locale round_loop =
  fixes rounds :: "u64 \<Rightarrow> 's \<Rightarrow> 'r option" and last_round :: u64
    and turn :: "u64 \<Rightarrow> 's \<Rightarrow> 's + 'r" and ready :: "'s \<Rightarrow> 'r"
  assumes unfold: "rounds r s =
    (if r \<le> last_round then (case turn r s of Inl s' \<Rightarrow> rounds (r + 1) s' | Inr x \<Rightarrow> Some x) else Some (ready s))"
begin

lemma returns:
  assumes "last_round < 18446744073709551615"
  shows "\<exists>x. rounds r s = Some x"
proof (induction "unat last_round + 1 - unat r" arbitrary: r s rule: less_induct)
  case less
  have "\<exists>x. rounds (r + 1) s' = Some x" if "r \<le> last_round" for s'
    using less word_loop_progress [OF that assms] by blast
  then show ?case by (subst unfold) (auto split: sum.split)
qed

lemma keeps:
  assumes "last_round < 18446744073709551615" and "\<And>r s. r \<le> last_round \<Longrightarrow> I r s \<Longrightarrow> \<exists>s'. turn r s = Inl s' \<and> I (r + 1) s'"
    and "r \<le> last_round + 1" and "I r s"
  shows "\<exists>s'. rounds r s = Some (ready s') \<and> I (last_round + 1) s'"
  using assms(3,4)
proof (induction "unat last_round + 1 - unat r" arbitrary: r s rule: less_induct)
  case less
  show ?case
  proof (cases "r \<le> last_round")
    case True
    obtain s' where s': "turn r s = Inl s'" "I (r + 1) s'" using assms(2) [OF True less(3)] by blast
    have "r < 18446744073709551615" using True assms(1) by (rule order.strict_trans1)
    then have "r + 1 \<le> last_round + 1"
      using True assms(1) unat_next_word [of r] unat_next_word [of last_round] by (simp add: word_le_nat_alt)
    with less(1) [OF word_loop_progress [OF True assms(1)] this s'(2)] show ?thesis
      using True s'(1) by (subst unfold) simp
  next
    case False
    then have "unat r = unat (last_round + 1)"
      using less(2) unat_next_word [OF assms(1)] by (simp add: word_le_nat_alt)
    then have "r = last_round + 1" by (simp only: word_unat_eq_iff)
    with less(3) False show ?thesis by (subst unfold) auto
  qed
qed

lemma idle_returns:
  assumes "last_round < 18446744073709551615" and "\<And>r. turn r s = Inl s"
  shows "rounds r s = Some (ready s)"
proof (induction "unat last_round + 1 - unat r" arbitrary: r rule: less_induct)
  case less
  have "rounds (r + 1) s = Some (ready s)" if "r \<le> last_round"
    using less word_loop_progress [OF that assms(1)] by blast
  then show ?case by (subst unfold) (simp add: assms(2))
qed

end

lemma unat_sum_list:
  "sum_list (map (\<lambda>x. unat (f x)) xs) < 18446744073709551616 \<Longrightarrow>
     unat (sum_list (map f xs) :: u64) = sum_list (map (\<lambda>x. unat (f x)) xs)"
  by (induction xs) (auto simp: unat_add_u64)

section \<open>Sums over finite maps\<close>

text \<open>The total of a measure over the values of a map, for statements on supplies.\<close>

definition map_total :: "('v \<Rightarrow> nat) \<Rightarrow> ('k \<rightharpoonup> 'v) \<Rightarrow> nat" where
  "map_total f m = (\<Sum>k \<in> dom m. f (the (m k)))"

lemma map_total_upd:
  assumes "finite (dom m)"
  shows "map_total f (m(k \<mapsto> v)) + (case m k of None \<Rightarrow> 0 | Some w \<Rightarrow> f w) = map_total f m + f v"
proof -
  have other: "(\<Sum>x \<in> dom m - {k}. f (the ((m(k \<mapsto> v)) x))) = (\<Sum>x \<in> dom m - {k}. f (the (m x)))"
    by (rule sum.cong) auto
  have new: "map_total f (m(k \<mapsto> v)) = f v + (\<Sum>x \<in> dom m - {k}. f (the (m x)))"
    using assms other by (simp add: map_total_def sum.insert_remove)
  show ?thesis
  proof (cases "m k")
    case None
    then have "dom m - {k} = dom m" by auto
    with new None show ?thesis by (simp add: map_total_def)
  next
    case (Some w)
    then have "map_total f m = f w + (\<Sum>x \<in> dom m - {k}. f (the (m x)))"
      using assms sum.remove [of "dom m" k "\<lambda>x. f (the (m x))"] by (simp add: map_total_def domI)
    with new Some show ?thesis by simp
  qed
qed

lemma map_total_new:
  "finite (dom m) \<Longrightarrow> m k = None \<Longrightarrow> map_total f (m(k \<mapsto> v)) = map_total f m + f v"
  using map_total_upd [of m f k v] by simp

lemma map_total_old:
  "finite (dom m) \<Longrightarrow> m k = Some w \<Longrightarrow> map_total f (m(k \<mapsto> v)) + f w = map_total f m + f v"
  using map_total_upd [of m f k v] by simp

lemma map_total_ge: "finite (dom m) \<Longrightarrow> m k = Some w \<Longrightarrow> f w \<le> map_total f m"
  using member_le_sum [of k "dom m" "\<lambda>k. f (the (m k))"] by (simp add: map_total_def domI)

section \<open>Counting\<close>

text \<open>Two selections that together outnumber a list share an element of it.\<close>

lemma filters_meet:
  assumes "length (filter P xs) + length (filter Q xs) > length xs"
  shows "\<exists>x \<in> set xs. P x \<and> Q x"
proof (rule ccontr)
  assume none: "\<not> (\<exists>x \<in> set xs. P x \<and> Q x)"
  then have "length (filter P xs) + length (filter Q xs) \<le> length xs"
    by (induction xs) auto
  with assms show False by simp
qed

lemma fold_max_bounds:
  fixes f :: "'a \<Rightarrow> 'b :: linorder"
  shows "fold (\<lambda>x m. if f x > m then f x else m) xs z = Max (insert z (f ` set xs))"
proof (induction xs arbitrary: z)
  case (Cons x xs)
  have "insert (max z (f x)) (f ` set xs) \<noteq> {}" by simp
  moreover have "(if f x > z then f x else z) = max z (f x)" by auto
  ultimately show ?case
    using Cons.IH [of "max z (f x)"]
    by (cases xs) (auto simp: Max_insert max.assoc max.left_commute)
qed simp

end
