(* ===== verification/Proto.thy ===== *)
theory Proto
  imports Prelude
begin

text \<open>
  The messages of \<open>proto/event.proto\<close> and \<open>proto/consensus.proto\<close> as the Go code under
  \<open>pkg/\<close> sees them: one record per message with the source's fields in the source's order,
  the \<open>oneof\<close> of a transaction as a datatype with one constructor per case. A scalar field
  has no absent value in proto3; a pointer to a message may be nil and is an \<open>option\<close>.
  The bodies of the slashing evidence, which no code reads and which would make events and
  transactions mutually recursive, are kept as their serialised bytes.
\<close>

section \<open>Native state\<close>

record Validator =
  va_Address :: string
  va_PublicKey :: bytes
  va_Stake :: u64
  va_CommissionRate :: u64
  va_MaxCommissionRate :: u64
  va_CommissionChangeRate :: u64
  va_Moniker :: string
  va_Identity :: string
  va_Website :: string
  va_Details :: string
  va_Jailed :: bool
  va_VotingPower :: u64

record ValidatorSet =
  vs_Validators :: "Validator list"
  vs_TotalStake :: u64
  vs_QuorumThreshold :: u64

text \<open>
  \<open>pkg/state/executor.go\<close> reads and writes a field \<open>Tokens\<close> of an account, which the
  message of the .proto file does not declare; it is part of the record here. A Go map that
  is nil reads as empty and panics on a write, so the field is an \<open>option\<close>.
\<close>

type_synonym balances = "(string \<times> u64) list option"

record Account =
  ac_Address :: string
  ac_Balance :: u64
  ac_Nonce :: u64
  ac_PublicKey :: bytes
  ac_DelegatedStake :: u64
  ac_Validator :: string
  ac_Tokens :: balances

record AccountStates =
  as_Accounts :: "Account list"

record Token =
  tk_TokenId :: string
  tk_Name :: string
  tk_Symbol :: string
  tk_Decimals :: u64
  tk_TotalSupply :: u64
  tk_AdminAddress :: string
  tk_MetadataUri :: string
  tk_Mintable :: bool
  tk_Burnable :: bool
  tk_Pausable :: bool
  tk_Blacklistable :: bool
  tk_Paused :: bool
  tk_BlacklistedAddresses :: "string list"

record NFTCollection =
  co_CollectionId :: string
  co_Name :: string
  co_Symbol :: string
  co_AdminAddress :: string
  co_MetadataUri :: string
  co_IsMutable :: bool
  co_TotalSupply :: u64

record NFT =
  nf_CollectionId :: string
  nf_NftId :: string
  nf_Owner :: string
  nf_MetadataUri :: string
  nf_Attributes :: "string list"
  nf_MetadataHash :: bytes
  nf_IsBurned :: bool
  nf_MintHeight :: u64

section \<open>Payloads\<close>

record TransferPayload =
  tp_To :: string
  tp_Amount :: u64
  tp_Memo :: "string option"

record CreateValidatorPayload =
  cv_ValidatorAddress :: string
  cv_PublicKey :: bytes
  cv_CommissionRate :: u64
  cv_MaxCommissionRate :: u64
  cv_CommissionChangeRate :: u64
  cv_Moniker :: string
  cv_Identity :: string
  cv_Website :: string
  cv_Details :: string

record StakePayload =
  sp_ValidatorAddress :: string
  sp_Amount :: u64

record CreateTokenPayload =
  ct_TokenId :: string
  ct_Name :: string
  ct_Symbol :: string
  ct_Decimals :: u64
  ct_InitialSupply :: u64
  ct_AdminAddress :: string
  ct_MetadataUri :: string
  ct_Mintable :: bool
  ct_Burnable :: bool
  ct_Pausable :: bool
  ct_Blacklistable :: bool

record MintTokenPayload =
  mt_TokenId :: string
  mt_To :: string
  mt_Amount :: u64

record BurnTokenPayload =
  bt_TokenId :: string
  bt_Amount :: u64

record TransferTokenPayload =
  tt_TokenId :: string
  tt_To :: string
  tt_Amount :: u64
  tt_Memo :: "string option"

record CreateCollectionPayload =
  cc_CollectionId :: string
  cc_Name :: string
  cc_Symbol :: string
  cc_AdminAddress :: string
  cc_MetadataUri :: string
  cc_IsMutable :: bool

record MintNFTPayload =
  mn_CollectionId :: string
  mn_NftId :: string
  mn_Owner :: string
  mn_MetadataUri :: string
  mn_Attributes :: "string list"
  mn_MetadataHash :: bytes

record TransferNFTPayload =
  tn_CollectionId :: string
  tn_NftId :: string
  tn_To :: string

record GenesisPayload =
  gp_Treasury :: string
  gp_InitialSupply :: u64
  gp_ValidatorSet :: "ValidatorSet option"
  gp_AccountStates :: "AccountStates option"
  gp_TokenRegistry :: "(string \<times> Token) list option"
  gp_StateHash :: bytes

text \<open>
  The cases of the oneof. The liquidity-pool, reward and slashing payloads, which the code
  never looks into, carry their serialised bytes. \<open>NoPayload\<close> is the nil interface.
\<close>

datatype payload =
    Transfer TransferPayload
  | CreateValidator CreateValidatorPayload
  | DelegateStake StakePayload
  | UndelegateStake StakePayload
  | CreateToken CreateTokenPayload
  | MintToken MintTokenPayload
  | BurnToken BurnTokenPayload
  | TransferToken TransferTokenPayload
  | CreateCollection CreateCollectionPayload
  | MintNft MintNFTPayload
  | TransferNft TransferNFTPayload
  | CreatePool bytes
  | AddLiquidity bytes
  | RemoveLiquidity bytes
  | Swap bytes
  | ClaimRewards string
  | SlashingEvidence bytes
  | Genesis_Payload GenesisPayload
  | NoPayload

section \<open>Transactions and events\<close>

record Transaction =
  tx_Id :: string
  tx_ChainId :: string
  tx_NetworkId :: string
  tx_Nonce :: u64
  tx_Fee :: u64
  tx_GasLimit :: u64
  tx_Payload :: payload
  tx_Signature :: bytes
  tx_Timestamp :: i64
  tx_PublicKey :: bytes

record EventMetadata =
  md_IsWitness :: bool
  md_IsFamous :: bool
  md_IsFinalized :: bool
  md_RoundReceived :: u64

record RewardClaim =
  rc_Validator :: string
  rc_Amount :: u64
  rc_Epoch :: u64
  rc_Proof :: bytes

record Event =
  ev_Id :: string
  ev_Creator :: string
  ev_Parents :: "string list"
  ev_Timestamp :: i64
  ev_Round :: u64
  ev_Signature :: bytes
  ev_Transactions :: "Transaction list"
  ev_VrfProof :: bytes
  ev_RewardClaim :: "RewardClaim option"
  ev_StateHash :: bytes
  ev_Metadata :: "EventMetadata option"

text \<open>The zero values Go gives the fields a composite literal leaves out.\<close>

definition zero_metadata :: EventMetadata where
  "zero_metadata = \<lparr>md_IsWitness = False, md_IsFamous = False, md_IsFinalized = False,
     md_RoundReceived = 0\<rparr>"

definition zero_transaction :: Transaction where
  "zero_transaction = \<lparr>tx_Id = [], tx_ChainId = [], tx_NetworkId = [], tx_Nonce = 0, tx_Fee = 0,
     tx_GasLimit = 0, tx_Payload = NoPayload, tx_Signature = [], tx_Timestamp = 0,
     tx_PublicKey = []\<rparr>"

definition zero_event :: Event where
  "zero_event = \<lparr>ev_Id = [], ev_Creator = [], ev_Parents = [], ev_Timestamp = 0, ev_Round = 0,
     ev_Signature = [], ev_Transactions = [], ev_VrfProof = [], ev_RewardClaim = None,
     ev_StateHash = [], ev_Metadata = None\<rparr>"

text \<open>
  The witnesses of the properties build events by id, creator, parents and round.
\<close>

definition mk_event :: "string \<Rightarrow> string \<Rightarrow> string list \<Rightarrow> u64 \<Rightarrow> Event" where
  "mk_event i c ps r = zero_event\<lparr>ev_Id := i, ev_Creator := c, ev_Parents := ps, ev_Round := r\<rparr>"

lemma mk_event_simps [simp]:
  "ev_Id (mk_event i c ps r) = i"
  "ev_Creator (mk_event i c ps r) = c"
  "ev_Parents (mk_event i c ps r) = ps"
  "ev_Round (mk_event i c ps r) = r"
  "ev_Transactions (mk_event i c ps r) = []"
  "ev_Metadata (mk_event i c ps r) = None"
  by (simp_all add: mk_event_def zero_event_def)

end
