(* ===== verification/Dag.thy ===== *)
theory Dag
  imports Proto
begin

text \<open>
  The event graph of \<open>pkg/consensus/types.go\<close>: the type \<open>DAG\<close>, its insertion, its ancestor
  and descendant searches, witness detection and round numbers. An operation that takes the
  lock runs atomically here. The pointers to events in the graph are the values of
  \<open>dg_events\<close>; the code mutates an event only through its id, so an update of the map at
  that id is what every holder of the pointer sees.
\<close>

section \<open>State\<close>

datatype dag_error = ErrInvalidEvent | ErrMissingEventID | ErrEventExists | ErrNoWitnesses

text \<open>A key missing from a \<open>map[string]bool\<close> reads as false.\<close>

record DAG =
  dg_events :: "(string \<times> Event) list"
  dg_parents :: "(string \<times> string list) list"
  dg_children :: "(string \<times> string list) list"
  dg_witnesses :: "(u64 \<times> string list) list"
  dg_famous :: "string \<Rightarrow> bool"
  dg_finalized :: "string \<Rightarrow> bool"

definition NewDAG :: DAG where
  "NewDAG = \<lparr>dg_events = [], dg_parents = [], dg_children = [], dg_witnesses = [],
     dg_famous = (\<lambda>_. False), dg_finalized = (\<lambda>_. False)\<rparr>"

abbreviation event_of :: "DAG \<Rightarrow> string \<Rightarrow> Event option" where
  "event_of d \<equiv> map_of (dg_events d)"

section \<open>Insertion\<close>

text \<open>The loop over \<open>event.Parents\<close> returns false at the first known parent of the same round.\<close>

fun same_round_parent :: "DAG \<Rightarrow> u64 \<Rightarrow> string list \<Rightarrow> bool" where
  "same_round_parent d r [] = False"
| "same_round_parent d r (p # ps) =
     (case event_of d p of
        Some parent \<Rightarrow> if ev_Round parent = r then True else same_round_parent d r ps
      | None \<Rightarrow> same_round_parent d r ps)"

definition isWitness :: "DAG \<Rightarrow> Event \<Rightarrow> bool" where
  "isWitness d e = (\<not> same_round_parent d (ev_Round e) (ev_Parents e))"

fun link_parents :: "string \<Rightarrow> string list \<Rightarrow> DAG \<Rightarrow> DAG" where
  "link_parents i [] d = d"
| "link_parents i (p # ps) d =
     link_parents i ps (d\<lparr>dg_parents := append_at i p (dg_parents d),
                          dg_children := append_at p i (dg_children d)\<rparr>)"

definition set_event :: "DAG \<Rightarrow> Event \<Rightarrow> DAG" where
  "set_event d e = d\<lparr>dg_events := AList.update (ev_Id e) e (dg_events d)\<rparr>"

text \<open>
  \<open>AddEvent\<close>: the event is stored before its parents are looked at, so an event that names
  itself as a parent finds itself. A witness gets fresh metadata.
\<close>

definition AddEvent :: "DAG \<Rightarrow> Event option \<Rightarrow> DAG \<times> dag_error option" where
  "AddEvent d ev =
     (case ev of
        None \<Rightarrow> (d, Some ErrInvalidEvent)
      | Some e \<Rightarrow>
          if ev_Id e = [] then (d, Some ErrMissingEventID)
          else if event_of d (ev_Id e) \<noteq> None then (d, Some ErrEventExists)
          else
            let d1 = link_parents (ev_Id e) (ev_Parents e) (set_event d e)
            in if isWitness d1 e
               then (set_event
                       (d1\<lparr>dg_witnesses := append_at (ev_Round e) (ev_Id e) (dg_witnesses d1)\<rparr>)
                       (e\<lparr>ev_Metadata := Some (zero_metadata\<lparr>md_IsWitness := True\<rparr>)\<rparr>), None)
               else (d1, None))"

section \<open>Lookups\<close>

definition GetEvent :: "DAG \<Rightarrow> string \<Rightarrow> Event option" where
  "GetEvent d i = event_of d i"

definition GetEventsByRound :: "string list \<Rightarrow> DAG \<Rightarrow> u64 \<Rightarrow> Event list" where
  "GetEventsByRound ks d r = filter (\<lambda>e. ev_Round e = r) (range_values ks (dg_events d))"

definition GetWitnesses :: "DAG \<Rightarrow> u64 \<Rightarrow> Event list" where
  "GetWitnesses d r = List.map_filter (event_of d) (slice_at (dg_witnesses d) r)"

definition EventsCount :: "DAG \<Rightarrow> nat" where
  "EventsCount d = length (dg_events d)"

definition LatestRound :: "string list \<Rightarrow> DAG \<Rightarrow> u64" where
  "LatestRound ks d =
     fold (\<lambda>e m. if ev_Round e > m then ev_Round e else m) (range_values ks (dg_events d)) 0"

section \<open>Ancestors and descendants\<close>

text \<open>
  Both searches are the same recursion over lists of neighbours with the set of ids found so
  far: an id not yet found is added and its own neighbours are searched before the loop goes
  on. The neighbours are the parents of the stored events in one search, the \<open>children\<close> map
  in the other.
\<close>

definition graph_nodes :: "(string \<times> string list) list \<Rightarrow> string set" where
  "graph_nodes g = set (keys g) \<union> \<Union> (set ` set (map snd g))"

lemma finite_graph_nodes [simp]: "finite (graph_nodes g)"
  by (simp add: graph_nodes_def)

lemma slice_at_nodes: "x \<notin> graph_nodes g \<Longrightarrow> slice_at g x = []"
  by (auto simp: graph_nodes_def slice_at_def map_of_None_keys split: option.splits
      dest: map_of_Some_keys)

function (domintros) visit :: "(string \<times> string list) list \<Rightarrow> string list \<Rightarrow> string set \<Rightarrow> string set" where
  "visit g [] A = A"
| "visit g (x # xs) A =
     (if x \<in> A then visit g xs A else visit g xs (visit g (slice_at g x) (insert x A)))"
  by pat_completeness auto

lemma visit_grows: "visit_dom (g, xs, A) \<Longrightarrow> A \<subseteq> visit g xs A"
  by (induction g xs A rule: visit.pinduct) (fastforce simp: visit.psimps)+

lemma unvisited_mono:
  "A \<subseteq> B \<Longrightarrow> card (graph_nodes g - B) \<le> card (graph_nodes g - A)"
  by (rule card_mono) auto

lemma unvisited_less:
  "x \<in> graph_nodes g \<Longrightarrow> x \<notin> A \<Longrightarrow> card (graph_nodes g - insert x A) < card (graph_nodes g - A)"
  by (rule psubset_card_mono) auto

termination visit
proof (relation "inv_image (less_than <*lex*> less_than)
    (\<lambda>(g, xs, A). (card (graph_nodes g - A), length xs))", goal_cases)
  case (3 g x xs A)
  then show ?case
    using unvisited_mono [of A "insert x A" g] unvisited_less [of x g A]
    by (cases "x \<in> graph_nodes g") (auto simp: slice_at_nodes le_less)
next
  case (4 g x xs A)
  then have "insert x A \<subseteq> visit g (slice_at g x) (insert x A)" by (blast dest: visit_grows)
  then show ?case
    using unvisited_mono [of A "visit g (slice_at g x) (insert x A)" g] by (auto simp: le_less)
qed auto

definition parent_lists :: "DAG \<Rightarrow> (string \<times> string list) list" where
  "parent_lists d = map (\<lambda>(i, e). (i, ev_Parents e)) (dg_events d)"

definition getAncestorsRecursive :: "DAG \<Rightarrow> string \<Rightarrow> string set \<Rightarrow> string set" where
  "getAncestorsRecursive d i A = visit (parent_lists d) (slice_at (parent_lists d) i) A"

definition GetAncestors :: "DAG \<Rightarrow> string \<Rightarrow> string set" where
  "GetAncestors d i = getAncestorsRecursive d i {}"

definition getDescendantsRecursive :: "DAG \<Rightarrow> string \<Rightarrow> string set \<Rightarrow> string set" where
  "getDescendantsRecursive d i A = visit (dg_children d) (slice_at (dg_children d) i) A"

definition GetDescendants :: "DAG \<Rightarrow> string \<Rightarrow> string set" where
  "GetDescendants d i = getDescendantsRecursive d i {}"

section \<open>Seeing and rounds\<close>

definition StronglySee :: "DAG \<Rightarrow> Event \<Rightarrow> Event \<Rightarrow> bool" where
  "StronglySee d a b \<longleftrightarrow> ev_Id b \<in> GetAncestors d (ev_Id a)"

text \<open>\<open>(len(witnesses) * 2 / 3) + 1\<close>, of \<open>canCreateNewRound\<close> and of \<open>voteOnFame\<close>.\<close>

definition required_quorum :: "nat \<Rightarrow> nat" where
  "required_quorum n = n * 2 div 3 + 1"

definition canCreateNewRound :: "DAG \<Rightarrow> Event \<Rightarrow> u64 \<Rightarrow> bool" where
  "canCreateNewRound d e r =
     (let witnesses = GetWitnesses d r in
      if length witnesses = 0 then False
      else length (filter (StronglySee d e) witnesses) \<ge> required_quorum (length witnesses))"

definition maxParentRound :: "DAG \<Rightarrow> string list \<Rightarrow> u64" where
  "maxParentRound d ps =
     fold (\<lambda>p m. case event_of d p of
                   Some parent \<Rightarrow> if ev_Round parent > m then ev_Round parent else m
                 | None \<Rightarrow> m) ps 0"

definition RoundNumber :: "DAG \<Rightarrow> Event \<Rightarrow> u64" where
  "RoundNumber d e =
     (let m = maxParentRound d (ev_Parents e)
      in if canCreateNewRound d e m then m + 1 else m)"

section \<open>Correctness of the searches\<close>

definition edges :: "(string \<times> string list) list \<Rightarrow> (string \<times> string) set" where
  "edges g = {(a, b). b \<in> set (slice_at g a)}"

lemma edges_iff [simp]: "(a, b) \<in> edges g \<longleftrightarrow> b \<in> set (slice_at g a)"
  by (simp add: edges_def)

lemma visit_mono: "A \<subseteq> visit g xs A"
  by (induction g xs A rule: visit.induct) auto

lemma visit_includes: "set xs \<subseteq> visit g xs A"
proof (induction g xs A rule: visit.induct)
  case (1 g A)
  show ?case by simp
next
  case (2 g x xs A)
  have "x \<in> visit g xs (visit g (slice_at g x) (insert x A))"
    using visit_mono [of "insert x A" g "slice_at g x"]
      visit_mono [of "visit g (slice_at g x) (insert x A)" g xs] by blast
  moreover have "x \<in> A \<Longrightarrow> x \<in> visit g xs A" using visit_mono [of A g xs] by blast
  ultimately show ?case using 2 by auto
qed

lemma visit_sound: "visit g xs A \<subseteq> A \<union> (edges g)\<^sup>* `` set xs"
proof (induction g xs A rule: visit.induct)
  case (1 g A)
  show ?case by simp
next
  case (2 g x xs A)
  have "(edges g)\<^sup>* `` set (slice_at g x) \<subseteq> (edges g)\<^sup>* `` {x}"
    by (auto intro: converse_rtrancl_into_rtrancl)
  with 2 show ?case by (cases "x \<in> A") (auto 0 3)
qed

text \<open>Everything a search adds has its own neighbours in the result.\<close>

lemma visit_closed: "edges g `` (visit g xs A - A) \<subseteq> visit g xs A"
proof (induction g xs A rule: visit.induct)
  case (1 g A)
  show ?case by simp
next
  case (2 g x xs A)
  show ?case
  proof (cases "x \<in> A")
    case True
    with 2 show ?thesis by simp
  next
    case False
    let ?B = "visit g (slice_at g x) (insert x A)"
    have "edges g `` (?B - insert x A) \<subseteq> ?B" using "2.IH" False by blast
    moreover have "edges g `` {x} \<subseteq> ?B"
      using visit_includes [of "slice_at g x" g "insert x A"] by auto
    ultimately have "edges g `` (?B - A) \<subseteq> ?B" by blast
    moreover have "edges g `` (visit g xs ?B - ?B) \<subseteq> visit g xs ?B" using "2.IH" False by blast
    moreover have "?B \<subseteq> visit g xs ?B" by (rule visit_mono)
    ultimately have "edges g `` (visit g xs ?B - A) \<subseteq> visit g xs ?B" by blast
    with False show ?thesis by simp
  qed
qed

lemma closed_under_trancl:
  assumes "(a, b) \<in> r\<^sup>+" and "\<And>y. (a, y) \<in> r \<Longrightarrow> y \<in> S" and "r `` S \<subseteq> S"
  shows "b \<in> S"
  using assms by (induction rule: trancl.induct) blast+

lemma visit_trancl: "visit g (slice_at g x) {} = (edges g)\<^sup>+ `` {x}"
proof
  show "visit g (slice_at g x) {} \<subseteq> (edges g)\<^sup>+ `` {x}"
  proof
    fix y assume "y \<in> visit g (slice_at g x) {}"
    then obtain z where "z \<in> set (slice_at g x)" "(z, y) \<in> (edges g)\<^sup>*"
      using visit_sound [of g "slice_at g x" "{}"] by auto
    then show "y \<in> (edges g)\<^sup>+ `` {x}" by (auto intro: rtrancl_into_trancl2)
  qed
  show "(edges g)\<^sup>+ `` {x} \<subseteq> visit g (slice_at g x) {}"
    using closed_under_trancl [of x _ "edges g" "visit g (slice_at g x) {}"]
      visit_includes [of "slice_at g x" g "{}"] visit_closed [of g "slice_at g x" "{}"]
    by auto
qed

text \<open>The relation the stored events describe: an event and one of its parents.\<close>

definition parent_rel :: "DAG \<Rightarrow> (string \<times> string) set" where
  "parent_rel d = {(i, p). \<exists>e. event_of d i = Some e \<and> p \<in> set (ev_Parents e)}"

definition child_rel :: "DAG \<Rightarrow> (string \<times> string) set" where
  "child_rel d = {(p, i). i \<in> set (slice_at (dg_children d) p)}"

lemma map_of_parent_lists: "map_of (parent_lists d) i = map_option ev_Parents (event_of d i)"
  by (simp add: parent_lists_def map_of_map)

lemma edges_parent_lists: "edges (parent_lists d) = parent_rel d"
  by (force simp: edges_def parent_rel_def slice_at_def map_of_parent_lists split: option.splits)

lemma GetAncestors_eq: "GetAncestors d a = (parent_rel d)\<^sup>+ `` {a}"
  by (simp add: GetAncestors_def getAncestorsRecursive_def visit_trancl edges_parent_lists)

lemma GetDescendants_eq: "GetDescendants d a = (child_rel d)\<^sup>+ `` {a}"
proof -
  have "edges (dg_children d) = child_rel d" by (simp add: edges_def child_rel_def)
  then show ?thesis
    by (simp add: GetDescendants_def getDescendantsRecursive_def visit_trancl)
qed

lemma GetAncestors_absent [simp]: "event_of d a = None \<Longrightarrow> GetAncestors d a = {}"
  by (auto simp: GetAncestors_eq parent_rel_def elim: converse_tranclE)

lemma GetAncestors_trans:
  "b \<in> GetAncestors d a \<Longrightarrow> c \<in> GetAncestors d b \<Longrightarrow> c \<in> GetAncestors d a"
  by (auto simp: GetAncestors_eq)

section \<open>What insertion does\<close>

lemma same_round_parent_iff:
  "same_round_parent d r ps \<longleftrightarrow> (\<exists>p \<in> set ps. \<exists>e. event_of d p = Some e \<and> ev_Round e = r)"
  by (induction ps) (auto split: option.splits)

lemma link_parents_frame [simp]:
  "dg_events (link_parents i ps d) = dg_events d"
  "dg_witnesses (link_parents i ps d) = dg_witnesses d"
  "dg_famous (link_parents i ps d) = dg_famous d"
  "dg_finalized (link_parents i ps d) = dg_finalized d"
  by (induction ps arbitrary: d) auto

lemma link_parents_parents [simp]:
  "slice_at (dg_parents (link_parents i ps d)) j =
     slice_at (dg_parents d) j @ (if j = i then ps else [])"
  by (induction ps arbitrary: d) auto

lemma link_parents_children [simp]:
  "set (slice_at (dg_children (link_parents i ps d)) p) =
     set (slice_at (dg_children d) p) \<union> (if p \<in> set ps then {i} else {})"
  by (induction ps arbitrary: d) auto

lemma set_event_frame [simp]:
  "dg_parents (set_event d e) = dg_parents d"
  "dg_children (set_event d e) = dg_children d"
  "dg_witnesses (set_event d e) = dg_witnesses d"
  "dg_famous (set_event d e) = dg_famous d"
  "dg_finalized (set_event d e) = dg_finalized d"
  by (simp_all add: set_event_def)

lemma event_of_set_event [simp]: "event_of (set_event d e) = (event_of d)(ev_Id e \<mapsto> e)"
  by (simp add: set_event_def)

text \<open>The test \<open>AddEvent\<close> makes: no known parent, the event itself counted, has its round.\<close>

definition fresh_witness :: "DAG \<Rightarrow> Event \<Rightarrow> bool" where
  "fresh_witness d e \<longleftrightarrow>
     ev_Id e \<notin> set (ev_Parents e) \<and>
     (\<forall>p \<in> set (ev_Parents e). \<forall>pe. event_of d p = Some pe \<longrightarrow> ev_Round pe \<noteq> ev_Round e)"

definition stored :: "DAG \<Rightarrow> Event \<Rightarrow> Event" where
  "stored d e = (if fresh_witness d e
     then e\<lparr>ev_Metadata := Some (zero_metadata\<lparr>md_IsWitness := True\<rparr>)\<rparr> else e)"

definition accepts :: "DAG \<Rightarrow> Event \<Rightarrow> bool" where
  "accepts d e \<longleftrightarrow> ev_Id e \<noteq> [] \<and> event_of d (ev_Id e) = None"

lemma stored_simps [simp]:
  "ev_Id (stored d e) = ev_Id e" "ev_Parents (stored d e) = ev_Parents e"
  "ev_Round (stored d e) = ev_Round e" "ev_Transactions (stored d e) = ev_Transactions e"
  by (simp_all add: stored_def)

lemma isWitness_fresh:
  "isWitness (link_parents i ps (set_event d e)) e = fresh_witness d e"
  by (auto simp: isWitness_def same_round_parent_iff fresh_witness_def split: if_splits)

lemma AddEvent_rejected: "\<not> accepts d e \<Longrightarrow> fst (AddEvent d (Some e)) = d"
  by (auto simp: AddEvent_def accepts_def)

lemma AddEvent_nil: "AddEvent d None = (d, Some ErrInvalidEvent)"
  by (simp add: AddEvent_def)

lemma AddEvent_error: "snd (AddEvent d (Some e)) =
   (if ev_Id e = [] then Some ErrMissingEventID
    else if event_of d (ev_Id e) \<noteq> None then Some ErrEventExists else None)"
  by (auto simp: AddEvent_def Let_def)

lemma AddEvent_accepts_iff: "snd (AddEvent d (Some e)) = None \<longleftrightarrow> accepts d e"
  by (auto simp: AddEvent_error accepts_def)

lemma AddEvent_events:
  "accepts d e \<Longrightarrow> event_of (fst (AddEvent d (Some e))) = (event_of d)(ev_Id e \<mapsto> stored d e)"
  by (auto simp: AddEvent_def Let_def isWitness_fresh stored_def accepts_def)

lemma AddEvent_distinct:
  "distinct (keys (dg_events d)) \<Longrightarrow> distinct (keys (dg_events (fst (AddEvent d ev))))"
  by (auto simp: AddEvent_def Let_def set_event_def split: option.splits)

lemma AddEvent_parents:
  "accepts d e \<Longrightarrow> slice_at (dg_parents (fst (AddEvent d (Some e)))) j =
     slice_at (dg_parents d) j @ (if j = ev_Id e then ev_Parents e else [])"
  by (auto simp: AddEvent_def Let_def accepts_def)

lemma AddEvent_children:
  "accepts d e \<Longrightarrow> set (slice_at (dg_children (fst (AddEvent d (Some e)))) p) =
     set (slice_at (dg_children d) p) \<union> (if p \<in> set (ev_Parents e) then {ev_Id e} else {})"
  by (auto simp: AddEvent_def Let_def accepts_def)

lemma AddEvent_witnesses:
  "accepts d e \<Longrightarrow> slice_at (dg_witnesses (fst (AddEvent d (Some e)))) r =
     slice_at (dg_witnesses d) r @ (if fresh_witness d e \<and> r = ev_Round e then [ev_Id e] else [])"
  by (auto simp: AddEvent_def Let_def isWitness_fresh accepts_def)

lemma AddEvent_frame [frame]:
  "dg_famous (fst (AddEvent d ev)) = dg_famous d"
  "dg_finalized (fst (AddEvent d ev)) = dg_finalized d"
  by (auto simp: AddEvent_def Let_def split: option.splits)

lemmas AddEvent_effect = AddEvent_events AddEvent_parents AddEvent_children AddEvent_witnesses

section \<open>The invariant of the graph\<close>

text \<open>
  The five maps of the graph agree: an event is stored under its own id, \<open>parents\<close> repeats the
  events' own lists, \<open>children\<close> is the converse, and the witness lists name stored events of
  their round, once each.
\<close>

definition dag_inv :: "DAG \<Rightarrow> bool" where
  "dag_inv d \<longleftrightarrow>
     distinct (keys (dg_events d)) \<and>
     (\<forall>i e. event_of d i = Some e \<longrightarrow> ev_Id e = i \<and> i \<noteq> []) \<and>
     (\<forall>i. slice_at (dg_parents d) i =
            (case event_of d i of None \<Rightarrow> [] | Some e \<Rightarrow> ev_Parents e)) \<and>
     (\<forall>p i. i \<in> set (slice_at (dg_children d) p) \<longleftrightarrow>
            (\<exists>e. event_of d i = Some e \<and> p \<in> set (ev_Parents e))) \<and>
     (\<forall>r i. i \<in> set (slice_at (dg_witnesses d) r) \<longrightarrow>
            (\<exists>e m. event_of d i = Some e \<and> ev_Round e = r \<and>
                   ev_Metadata e = Some m \<and> md_IsWitness m)) \<and>
     (\<forall>r. distinct (slice_at (dg_witnesses d) r))"

lemma NewDAG_simps [simp]:
  "dg_events NewDAG = []" "dg_parents NewDAG = []" "dg_children NewDAG = []"
  "dg_witnesses NewDAG = []" "dg_famous NewDAG i = False" "dg_finalized NewDAG i = False"
  by (simp_all add: NewDAG_def)

lemma slice_at_Nil [simp]: "slice_at [] k = []"
  by (simp add: slice_at_def)

lemma dag_inv_NewDAG [intro, simp]: "dag_inv NewDAG"
  by (simp add: dag_inv_def keys_def)

lemma dag_inv_distinct: "dag_inv d \<Longrightarrow> distinct (keys (dg_events d))"
  by (simp add: dag_inv_def)

lemma dag_inv_id: "dag_inv d \<Longrightarrow> event_of d i = Some e \<Longrightarrow> ev_Id e = i"
  by (simp add: dag_inv_def)

lemma dag_inv_children:
  "dag_inv d \<Longrightarrow> i \<in> set (slice_at (dg_children d) p) \<longleftrightarrow>
     (\<exists>e. event_of d i = Some e \<and> p \<in> set (ev_Parents e))"
  by (simp add: dag_inv_def)

lemma dag_inv_witness:
  "dag_inv d \<Longrightarrow> i \<in> set (slice_at (dg_witnesses d) r) \<Longrightarrow>
     \<exists>e m. event_of d i = Some e \<and> ev_Round e = r \<and> ev_Metadata e = Some m \<and> md_IsWitness m"
  by (simp add: dag_inv_def)

lemma dag_inv_witness_distinct: "dag_inv d \<Longrightarrow> distinct (slice_at (dg_witnesses d) r)"
  by (simp add: dag_inv_def)

lemma fresh_stored_metadata:
  "fresh_witness d e \<Longrightarrow> \<exists>m. ev_Metadata (stored d e) = Some m \<and> md_IsWitness m"
  by (simp add: stored_def)

lemma dag_inv_AddEvent:
  assumes "dag_inv d"
  shows "dag_inv (fst (AddEvent d ev))"
proof (cases ev)
  case None
  with assms show ?thesis by (simp add: AddEvent_nil)
next
  case (Some e)
  show ?thesis
  proof (cases "accepts d e")
    case False
    with Some assms show ?thesis by (simp add: AddEvent_rejected)
  next
    case acc: True
    then have new: "event_of d (ev_Id e) = None" and "ev_Id e \<noteq> []"
      by (simp_all add: accepts_def)
    have "ev_Id e \<notin> set (slice_at (dg_witnesses d) r)" for r
      using dag_inv_witness [OF assms] new by fastforce
    then show ?thesis
      unfolding dag_inv_def Some AddEvent_effect [OF acc]
      using assms new \<open>ev_Id e \<noteq> []\<close> fresh_stored_metadata [of d e]
      by (auto simp: dag_inv_def AddEvent_distinct split: if_splits option.splits)
  qed
qed

text \<open>A graph built by inserting the events of a list one after the other.\<close>

fun add_all :: "DAG \<Rightarrow> Event list \<Rightarrow> DAG" where
  "add_all d [] = d"
| "add_all d (e # es) = add_all (fst (AddEvent d (Some e))) es"

lemma dag_inv_add_all: "dag_inv d \<Longrightarrow> dag_inv (add_all d es)"
  by (induction es arbitrary: d) (auto intro: dag_inv_AddEvent)

lemma child_parent_converse: "dag_inv d \<Longrightarrow> child_rel d = (parent_rel d)\<inverse>"
  by (auto simp: child_rel_def parent_rel_def dag_inv_children)

lemma descendants_dual: "dag_inv d \<Longrightarrow> b \<in> GetDescendants d a \<longleftrightarrow> a \<in> GetAncestors d b"
  by (simp add: GetDescendants_eq GetAncestors_eq child_parent_converse trancl_converse)

lemma GetWitnesses_ids: "dag_inv d \<Longrightarrow> map ev_Id (GetWitnesses d r) = slice_at (dg_witnesses d) r"
proof -
  assume inv: "dag_inv d"
  have "map ev_Id (List.map_filter (event_of d) ws) = ws"
    if "set ws \<subseteq> set (slice_at (dg_witnesses d) r)" for ws
    using that
  proof (induction ws)
    case (Cons w ws)
    then obtain e where "event_of d w = Some e" using dag_inv_witness [OF inv, of w r] by auto
    with Cons inv show ?case by (auto simp: map_filter_simps dest: dag_inv_id)
  qed (simp add: map_filter_simps)
  then show ?thesis by (simp add: GetWitnesses_def)
qed

lemma GetWitnesses_event:
  assumes "dag_inv d" "w \<in> set (GetWitnesses d r)"
  shows "event_of d (ev_Id w) = Some w \<and> ev_Round w = r"
proof -
  from assms(2) obtain i where i: "i \<in> set (slice_at (dg_witnesses d) r)" "event_of d i = Some w"
    by (auto simp: GetWitnesses_def map_filter_def)
  with dag_inv_witness [OF assms(1) i(1)] dag_inv_id [OF assms(1) i(2)] show ?thesis by auto
qed

section \<open>Causal insertion\<close>

text \<open>
  The order in which parents come before their children. \<open>AddEvent\<close> does not ask for it.
\<close>

definition causal_step :: "DAG \<Rightarrow> Event \<Rightarrow> bool" where
  "causal_step d e \<longleftrightarrow> accepts d e \<and> (\<forall>p \<in> set (ev_Parents e). event_of d p \<noteq> None)"

fun causal :: "DAG \<Rightarrow> Event list \<Rightarrow> bool" where
  "causal d [] = True"
| "causal d (e # es) = (causal_step d e \<and> causal (fst (AddEvent d (Some e))) es)"

text \<open>What causal insertion keeps: no event is its own ancestor, ancestors are stored.\<close>

definition closed_acyclic :: "DAG \<Rightarrow> bool" where
  "closed_acyclic d \<longleftrightarrow>
     acyclic (parent_rel d) \<and>
     (\<forall>i e. event_of d i = Some e \<longrightarrow> (\<forall>p \<in> set (ev_Parents e). event_of d p \<noteq> None))"

lemma closed_acyclic_parent:
  "closed_acyclic d \<Longrightarrow> event_of d i = Some e \<Longrightarrow> p \<in> set (ev_Parents e) \<Longrightarrow>
     event_of d p \<noteq> None"
  by (auto simp: closed_acyclic_def)

lemma trancl_without:
  assumes "(a, b) \<in> (r \<union> s)\<^sup>+" and "a \<notin> Domain s"
    and "\<And>y. (a, y) \<in> r\<^sup>+ \<Longrightarrow> y \<notin> Domain s"
  shows "(a, b) \<in> r\<^sup>+"
  using assms(1)
proof (induction rule: trancl_induct)
  case (base y)
  with assms(2) show ?case by auto
next
  case (step y z)
  with assms(3) show ?case by (fastforce intro: trancl_into_trancl)
qed

lemma parent_rel_AddEvent:
  "accepts d e \<Longrightarrow> parent_rel (fst (AddEvent d (Some e))) =
     parent_rel d \<union> {ev_Id e} \<times> set (ev_Parents e)"
  by (auto simp: parent_rel_def AddEvent_events accepts_def split: if_splits)

lemma causal_step_closed_acyclic:
  assumes "closed_acyclic d" and "causal_step d e"
  shows "closed_acyclic (fst (AddEvent d (Some e)))"
proof -
  let ?i = "ev_Id e"
  have acc: "accepts d e" using assms(2) by (simp add: causal_step_def)
  then have new: "event_of d ?i = None" by (simp add: accepts_def)
  have unreached: "(x, ?i) \<notin> parent_rel d" for x
    using closed_acyclic_parent [OF assms(1)] new by (fastforce simp: parent_rel_def)
  have out: "?i \<notin> set (ev_Parents e)" using assms(2) new by (auto simp: causal_step_def)
  have no: "(x, ?i) \<notin> parent_rel d \<union> {?i} \<times> set (ev_Parents e)" for x
    using unreached out by auto
  have "acyclic (parent_rel d \<union> {?i} \<times> set (ev_Parents e))"
  proof (rule acyclicI, intro allI notI)
    fix x assume cyc: "(x, x) \<in> (parent_rel d \<union> {?i} \<times> set (ev_Parents e))\<^sup>+"
    show False
    proof (cases "x = ?i")
      case True
      with cyc obtain y where "(y, ?i) \<in> parent_rel d \<union> {?i} \<times> set (ev_Parents e)"
        by (auto elim: tranclE)
      with no show False by blast
    next
      case False
      moreover have "y \<noteq> ?i" if "(x, y) \<in> (parent_rel d)\<^sup>+" for y
        using that unreached by (auto elim: tranclE)
      ultimately have "(x, x) \<in> (parent_rel d)\<^sup>+" using trancl_without [OF cyc] by auto
      with assms(1) show False by (simp add: closed_acyclic_def acyclic_def)
    qed
  qed
  then show ?thesis
    using assms acc
    by (auto simp: closed_acyclic_def parent_rel_AddEvent AddEvent_events causal_step_def split: if_splits)
qed

lemma closed_acyclic_NewDAG [simp]: "closed_acyclic NewDAG"
  by (simp add: closed_acyclic_def parent_rel_def acyclic_def)

lemma causal_closed_acyclic: "closed_acyclic d \<Longrightarrow> causal d es \<Longrightarrow> closed_acyclic (add_all d es)"
  by (induction es arbitrary: d) (auto intro: causal_step_closed_acyclic)

lemma causal_step_fresh:
  "causal_step d e \<Longrightarrow> fresh_witness d e \<longleftrightarrow>
     (\<forall>p \<in> set (ev_Parents e). \<forall>pe. event_of d p = Some pe \<longrightarrow> ev_Round pe \<noteq> ev_Round e)"
  by (auto simp: causal_step_def fresh_witness_def accepts_def)

text \<open>
  In a causal build the witnesses of a round are a function of the stored events alone.
\<close>

definition witness_closed :: "DAG \<Rightarrow> bool" where
  "witness_closed d \<longleftrightarrow> closed_acyclic d \<and>
     (\<forall>r i. i \<in> set (slice_at (dg_witnesses d) r) \<longleftrightarrow>
        (\<exists>e. event_of d i = Some e \<and> ev_Round e = r \<and>
             (\<forall>p \<in> set (ev_Parents e). \<forall>pe. event_of d p = Some pe \<longrightarrow> ev_Round pe \<noteq> r)))"

lemma witness_closed_step:
  assumes "witness_closed d" and "causal_step d e"
  shows "witness_closed (fst (AddEvent d (Some e)))"
proof -
  have acc: "accepts d e" using assms(2) by (simp add: causal_step_def)
  then have new: "event_of d (ev_Id e) = None" by (simp add: accepts_def)
  have old: "p \<noteq> ev_Id e" if "event_of d i = Some f" "p \<in> set (ev_Parents f)" for i f p
    using assms(1) that new closed_acyclic_parent [of d i f p] by (auto simp: witness_closed_def)
  have self: "p \<noteq> ev_Id e" if "p \<in> set (ev_Parents e)" for p
    using assms(2) that new by (auto simp: causal_step_def)
  have wit: "i \<in> set (slice_at (dg_witnesses d) r) \<longleftrightarrow>
        (\<exists>f. event_of d i = Some f \<and> ev_Round f = r \<and>
             (\<forall>p \<in> set (ev_Parents f). \<forall>pe. event_of d p = Some pe \<longrightarrow> ev_Round pe \<noteq> r))" for i r
    using assms(1) by (simp add: witness_closed_def)
  have "closed_acyclic (fst (AddEvent d (Some e)))"
    using assms by (auto simp: witness_closed_def intro: causal_step_closed_acyclic)
  then show ?thesis
    unfolding witness_closed_def AddEvent_effect [OF acc]
    using new old self
    by (auto simp: wit causal_step_fresh [OF assms(2)] split: if_splits; blast?)
qed

lemma causal_witness_closed: "witness_closed d \<Longrightarrow> causal d es \<Longrightarrow> witness_closed (add_all d es)"
  by (induction es arbitrary: d) (auto intro: witness_closed_step)

lemma witness_closed_NewDAG [simp]: "witness_closed NewDAG"
  by (simp add: witness_closed_def)

section \<open>Rounds and quorums\<close>

lemma LatestRound_Max:
  "range_order ks (dg_events d) \<Longrightarrow>
     LatestRound ks d = Max (insert 0 (ev_Round ` ran (event_of d)))"
  by (simp add: LatestRound_def fold_max_bounds set_range_values)

lemma quorums_meet: "required_quorum n \<le> a \<Longrightarrow> required_quorum n \<le> b \<Longrightarrow> a + b > n"
  unfolding required_quorum_def by linarith

lemma canCreateNewRound_iff:
  "canCreateNewRound d e r \<longleftrightarrow> GetWitnesses d r \<noteq> [] \<and>
     required_quorum (length (GetWitnesses d r)) \<le>
       length (filter (StronglySee d e) (GetWitnesses d r))"
  by (auto simp: canCreateNewRound_def Let_def)

section \<open>The interface to the consensus engine\<close>

text \<open>
  What the engine relies on: a graph with a lookup and an ancestor search, an insertion that
  forgets nothing and leaves alone the ancestors of an event whose ancestors are all stored,
  and a relabelling (the writes to an event's metadata) that leaves the shape of the graph
  alone. A set of ids is settled when its members are stored and it holds their ancestors.
\<close>

definition settled :: "('d \<Rightarrow> string \<Rightarrow> Event option) \<Rightarrow> ('d \<Rightarrow> string \<Rightarrow> string set) \<Rightarrow>
    'd \<Rightarrow> string set \<Rightarrow> bool" where
  "settled lookup ancestors d F \<longleftrightarrow> (\<forall>i \<in> F. lookup d i \<noteq> None \<and> ancestors d i \<subseteq> F)"

locale event_graph =
  fixes lookup :: "'d \<Rightarrow> string \<Rightarrow> Event option"
    and ancestors :: "'d \<Rightarrow> string \<Rightarrow> string set"
    and insert_event :: "'d \<Rightarrow> Event option \<Rightarrow> 'd"
    and relabel :: "'d \<Rightarrow> string \<Rightarrow> EventMetadata \<Rightarrow> 'd"
  assumes insert_keeps: "lookup d i \<noteq> None \<Longrightarrow> lookup (insert_event d ev) i \<noteq> None"
    and insert_ancestors:
      "lookup d i \<noteq> None \<Longrightarrow> (\<forall>j \<in> ancestors d i. lookup d j \<noteq> None) \<Longrightarrow>
         ancestors (insert_event d ev) i = ancestors d i"
    and relabel_lookup: "lookup (relabel d k m) i = None \<longleftrightarrow> lookup d i = None"
    and relabel_ancestors: "ancestors (relabel d k m) i = ancestors d i"
begin

lemma settled_insert:
  assumes "settled lookup ancestors d F"
  shows "settled lookup ancestors (insert_event d ev) F"
  unfolding settled_def
proof
  fix i assume i: "i \<in> F"
  with assms have "lookup d i \<noteq> None" "ancestors d i \<subseteq> F" by (auto simp: settled_def)
  moreover from assms i have "\<forall>j \<in> ancestors d i. lookup d j \<noteq> None"
    unfolding settled_def by (meson subsetD)
  ultimately show "lookup (insert_event d ev) i \<noteq> None \<and> ancestors (insert_event d ev) i \<subseteq> F"
    using insert_keeps insert_ancestors by simp
qed

lemma settled_relabel:
  "settled lookup ancestors (relabel d k m) F \<longleftrightarrow> settled lookup ancestors d F"
  by (simp add: settled_def relabel_lookup relabel_ancestors)

lemma settled_add:
  "settled lookup ancestors d F \<Longrightarrow> lookup d i \<noteq> None \<Longrightarrow> ancestors d i \<subseteq> F \<Longrightarrow>
     settled lookup ancestors d (insert i F)"
  by (auto simp: settled_def)

lemma settled_ancestors_fixed:
  assumes "settled lookup ancestors d F" and "i \<in> F"
  shows "ancestors (insert_event d ev) i = ancestors d i"
  using assms unfolding settled_def by (intro insert_ancestors) (meson subsetD)+

end

text \<open>The writes \<open>event.Metadata = ...\<close> through a pointer into the graph.\<close>

definition set_metadata :: "DAG \<Rightarrow> string \<Rightarrow> EventMetadata \<Rightarrow> DAG" where
  "set_metadata d i m =
     (case event_of d i of
        None \<Rightarrow> d
      | Some e \<Rightarrow> d\<lparr>dg_events := AList.update i (e\<lparr>ev_Metadata := Some m\<rparr>) (dg_events d)\<rparr>)"

lemma event_of_set_metadata:
  "event_of (set_metadata d k m) i =
     (if i = k then map_option (\<lambda>e. e\<lparr>ev_Metadata := Some m\<rparr>) (event_of d i) else event_of d i)"
  by (auto simp: set_metadata_def split: option.splits)

lemma set_metadata_frame [simp]:
  "dg_parents (set_metadata d i m) = dg_parents d"
  "dg_children (set_metadata d i m) = dg_children d"
  "dg_witnesses (set_metadata d i m) = dg_witnesses d"
  "dg_famous (set_metadata d i m) = dg_famous d"
  "dg_finalized (set_metadata d i m) = dg_finalized d"
  by (simp_all add: set_metadata_def split: option.splits)

lemma parent_rel_set_metadata [simp]: "parent_rel (set_metadata d k m) = parent_rel d"
  by (auto simp: parent_rel_def event_of_set_metadata split: if_splits)

lemma GetAncestors_set_metadata [simp]: "GetAncestors (set_metadata d k m) i = GetAncestors d i"
  by (simp add: GetAncestors_eq)

lemma GetAncestors_AddEvent:
  assumes "event_of d i \<noteq> None" and "\<forall>j \<in> GetAncestors d i. event_of d j \<noteq> None"
  shows "GetAncestors (fst (AddEvent d ev)) i = GetAncestors d i"
proof (cases "\<exists>e. ev = Some e \<and> accepts d e")
  case False
  then have "fst (AddEvent d ev) = d"
    by (cases ev) (auto simp: AddEvent_nil AddEvent_rejected)
  then show ?thesis by simp
next
  case True
  then obtain e where ev: "ev = Some e" and acc: "accepts d e" by blast
  let ?R = "parent_rel d \<union> {ev_Id e} \<times> set (ev_Parents e)"
  have new: "event_of d (ev_Id e) = None" using acc by (simp add: accepts_def)
  have "j \<noteq> ev_Id e" if "(i, j) \<in> (parent_rel d)\<^sup>+" for j
    using assms(2) new that by (metis GetAncestors_eq Image_singleton_iff)
  moreover have "i \<noteq> ev_Id e" using assms(1) new by auto
  ultimately have "(i, b) \<in> (parent_rel d)\<^sup>+" if "(i, b) \<in> ?R\<^sup>+" for b
    using trancl_without [OF that] by auto
  moreover have "(parent_rel d)\<^sup>+ \<subseteq> ?R\<^sup>+" by (auto elim: trancl_mono)
  ultimately show ?thesis
    by (auto simp: ev GetAncestors_eq parent_rel_AddEvent [OF acc])
qed

interpretation graph: event_graph event_of GetAncestors "\<lambda>d ev. fst (AddEvent d ev)" set_metadata
proof
  fix d i ev
  show "event_of d i \<noteq> None \<Longrightarrow> event_of (fst (AddEvent d ev)) i \<noteq> None"
    by (cases ev; cases "accepts d (the ev)") (auto simp: AddEvent_nil AddEvent_rejected AddEvent_events)
qed (auto simp: GetAncestors_AddEvent event_of_set_metadata)

section \<open>Properties\<close>

text \<open>
  The id, the parents and the round of a stored event: what insertion takes over unchanged.
\<close>

definition has_event :: "DAG \<Rightarrow> string \<Rightarrow> string list \<Rightarrow> u64 \<Rightarrow> bool" where
  "has_event d i ps r \<longleftrightarrow> (\<exists>e. event_of d i = Some e \<and> ev_Parents e = ps \<and> ev_Round e = r)"

lemma has_event_causal:
  "causal d es \<Longrightarrow> has_event (add_all d es) i ps r \<longleftrightarrow>
     has_event d i ps r \<or> (\<exists>e \<in> set es. ev_Id e = i \<and> ev_Parents e = ps \<and> ev_Round e = r)"
proof (induction es arbitrary: d)
  case (Cons e es)
  then have acc: "accepts d e" and "causal (fst (AddEvent d (Some e))) es"
    by (simp_all add: causal_step_def)
  with Cons.IH [of "fst (AddEvent d (Some e))"]
  show ?case
    by (auto simp: has_event_def AddEvent_events accepts_def)
qed simp

lemma witness_has_event:
  "witness_closed d \<Longrightarrow> i \<in> set (slice_at (dg_witnesses d) r) \<longleftrightarrow>
     (\<exists>ps. has_event d i ps r \<and> (\<forall>p \<in> set ps. \<forall>qs. \<not> has_event d p qs r))"
  by (auto simp: witness_closed_def has_event_def)

text \<open>C4: \<open>GetAncestors\<close> returns, on every graph and for every id, exactly the ids that a
  non-empty chain of parent links leads to; the search ends also on a cyclic graph.\<close>

theorem GetAncestors_correct: "b \<in> GetAncestors d a \<longleftrightarrow> (a, b) \<in> (parent_rel d)\<^sup>+"
  by (simp add: GetAncestors_eq)

text \<open>In a graph built by any sequence of insertions, accepted or rejected, in any order,
  \<open>GetDescendants\<close> is the converse of \<open>GetAncestors\<close>.\<close>

theorem descendants_are_converse:
  "b \<in> GetDescendants (add_all NewDAG es) a \<longleftrightarrow> a \<in> GetAncestors (add_all NewDAG es) b"
  by (rule descendants_dual) (rule dag_inv_add_all, simp)

text \<open>C21: \<open>AddEvent\<close> keeps the agreement of the graph's maps, whatever it is given, and a
  rejected event leaves the graph as it was.\<close>

theorem AddEvent_inv:
  assumes "dag_inv d"
  shows "dag_inv (fst (AddEvent d ev)) \<and>
         (snd (AddEvent d ev) \<noteq> None \<longrightarrow> fst (AddEvent d ev) = d)"
proof -
  have "snd (AddEvent d ev) \<noteq> None \<longrightarrow> fst (AddEvent d ev) = d"
    by (cases ev) (auto simp: AddEvent_nil AddEvent_accepts_iff AddEvent_rejected)
  with dag_inv_AddEvent [OF assms] show ?thesis by simp
qed

theorem AddEvent_inv_witness:
  "dag_inv (fst (AddEvent NewDAG (Some (mk_event ''a'' ''v1'' [''p''] 1))))"
  using AddEvent_inv [OF dag_inv_NewDAG] by blast

text \<open>When every event is inserted after its parents, no event is an ancestor of
  itself: the graph is acyclic.\<close>

theorem causal_acyclic:
  assumes "causal NewDAG es"
  shows "a \<notin> GetAncestors (add_all NewDAG es) a"
  using causal_closed_acyclic [OF closed_acyclic_NewDAG assms]
  by (auto simp: closed_acyclic_def GetAncestors_eq acyclic_def)

definition diamond :: "Event list" where
  "diamond = [mk_event ''a'' ''v1'' [] 0, mk_event ''b'' ''v1'' [''a''] 0,
     mk_event ''c'' ''v2'' [''a''] 1, mk_event ''d'' ''v1'' [''b'', ''c''] 1]"

lemma causal_diamond [simp]: "causal NewDAG diamond"
  by (simp add: diamond_def causal_step_def accepts_def AddEvent_events)

theorem causal_acyclic_witness: "''d'' \<notin> GetAncestors (add_all NewDAG diamond) ''d''"
  by (rule causal_acyclic [OF causal_diamond])

text \<open>\<open>AddEvent\<close> itself does not keep the graph acyclic: it accepts an event that lists
  its own id among its parents, which is then its own ancestor.\<close>

theorem self_parent_accepted:
  assumes "ev_Id e \<noteq> []" and "event_of d (ev_Id e) = None" and "ev_Id e \<in> set (ev_Parents e)"
  shows "snd (AddEvent d (Some e)) = None \<and>
         ev_Id e \<in> GetAncestors (fst (AddEvent d (Some e))) (ev_Id e)"
proof -
  have "accepts d e" using assms by (simp add: accepts_def)
  then have "(ev_Id e, ev_Id e) \<in> parent_rel (fst (AddEvent d (Some e)))"
    using assms(3) by (simp add: parent_rel_AddEvent)
  then show ?thesis
    using \<open>accepts d e\<close> by (auto simp: AddEvent_accepts_iff GetAncestors_eq)
qed

theorem self_parent_accepted_witness:
  "''x'' \<in> GetAncestors (fst (AddEvent NewDAG (Some (mk_event ''x'' ''v'' [''x''] 3)))) ''x''"
  using self_parent_accepted [of "mk_event ''x'' ''v'' [''x''] 3" NewDAG] by simp

text \<open>C7: two causal insertion orders of the same events give every round the same set of
  witnesses.\<close>

theorem causal_order_independent:
  assumes "causal NewDAG xs" and "causal NewDAG ys" and "set xs = set ys"
  shows "set (slice_at (dg_witnesses (add_all NewDAG xs)) r) =
         set (slice_at (dg_witnesses (add_all NewDAG ys)) r)"
proof -
  have "has_event (add_all NewDAG xs) i ps r = has_event (add_all NewDAG ys) i ps r" for i ps r
    using assms by (simp add: has_event_causal)
  then show ?thesis
    by (simp add: set_eq_iff witness_has_event causal_witness_closed assms(1,2))
qed

theorem causal_order_independent_witness:
  "set (slice_at (dg_witnesses (add_all NewDAG
      [mk_event ''a'' ''v'' [] 0, mk_event ''b'' ''v'' [] 0])) 0) =
   set (slice_at (dg_witnesses (add_all NewDAG
      [mk_event ''b'' ''v'' [] 0, mk_event ''a'' ''v'' [] 0])) 0)"
  by (rule causal_order_independent)
    (auto simp: causal_step_def accepts_def AddEvent_events)

text \<open>Without that order the witnesses depend on the arrival: a child inserted before
  its same-round parent is a witness for good, inserted after it it is none. Two nodes that
  hold the same events can disagree.\<close>

theorem witnesses_depend_on_arrival:
  "slice_at (dg_witnesses (add_all NewDAG
      [mk_event ''p'' ''v1'' [] 1, mk_event ''c'' ''v2'' [''p''] 1])) 1 = [''p''] \<and>
   slice_at (dg_witnesses (add_all NewDAG
      [mk_event ''c'' ''v2'' [''p''] 1, mk_event ''p'' ''v1'' [] 1])) 1 = [''c'', ''p'']"
  by (simp_all add: AddEvent_witnesses AddEvent_events accepts_def fresh_witness_def)

text \<open>C23: two events that may open a new round both strongly see one and the same witness of
  the parent round.\<close>

theorem new_round_quorums_intersect:
  assumes "canCreateNewRound d a r" and "canCreateNewRound d b r"
  shows "\<exists>w \<in> set (GetWitnesses d r). StronglySee d a w \<and> StronglySee d b w"
  using assms unfolding canCreateNewRound_iff by (intro filters_meet quorums_meet) auto

definition two_rounds :: DAG where
  "two_rounds = add_all NewDAG
     [mk_event ''a'' ''v1'' [] 0, mk_event ''b'' ''v2'' [] 0,
      mk_event ''c'' ''v1'' [''a'', ''b''] 0, mk_event ''d'' ''v2'' [''c''] 0]"

lemma two_rounds_seen:
  "canCreateNewRound two_rounds (mk_event ''c'' ''v1'' [''a'', ''b''] 0) 0"
  "canCreateNewRound two_rounds (mk_event ''d'' ''v2'' [''c''] 0) 0"
  by code_simp+

theorem new_round_quorums_intersect_witness:
  "\<exists>w \<in> set (GetWitnesses two_rounds 0).
     StronglySee two_rounds (mk_event ''c'' ''v1'' [''a'', ''b''] 0) w \<and>
     StronglySee two_rounds (mk_event ''d'' ''v2'' [''c''] 0) w"
  by (rule new_round_quorums_intersect [OF two_rounds_seen])

text \<open>\<open>RoundNumber\<close> of an event that is not yet in the graph is the highest round of its
  known parents, never the next one: the search for the event's ancestors starts at its id.\<close>

theorem RoundNumber_before_insertion:
  assumes "event_of d (ev_Id e) = None"
  shows "RoundNumber d e = maxParentRound d (ev_Parents e)"
  using assms
  by (simp add: RoundNumber_def canCreateNewRound_iff StronglySee_def required_quorum_def Let_def)

theorem RoundNumber_before_insertion_witness:
  "RoundNumber two_rounds (mk_event ''e'' ''v1'' [''c'', ''d''] 0) = 0 \<and>
   canCreateNewRound two_rounds (mk_event ''d'' ''v2'' [''c''] 0) 0"
proof -
  have "event_of two_rounds (ev_Id (mk_event ''e'' ''v1'' [''c'', ''d''] 0)) = None"
    by code_simp
  from RoundNumber_before_insertion [OF this]
  have "RoundNumber two_rounds (mk_event ''e'' ''v1'' [''c'', ''d''] 0) =
      maxParentRound two_rounds [''c'', ''d'']" by simp
  also have "\<dots> = 0" by code_simp
  finally show ?thesis by (simp add: two_rounds_seen)
qed

text \<open>\<open>LatestRound\<close> is the greatest round of a stored event, and 0 on the empty graph,
  in whatever order Go visits the map.\<close>

theorem LatestRound_greatest:
  assumes "range_order ks (dg_events d)"
  shows "LatestRound ks d = Max (insert 0 (ev_Round ` ran (event_of d)))"
  using assms by (rule LatestRound_Max)

theorem LatestRound_greatest_witness:
  "LatestRound [''d'', ''c'', ''b'', ''a''] (add_all NewDAG diamond) =
     Max (insert 0 (ev_Round ` ran (event_of (add_all NewDAG diamond))))"
  by (rule LatestRound_greatest) code_simp

end
