(* ===== verification/Consensus.thy ===== *)
theory Consensus
  imports Dag
begin

text \<open>
  The consensus engine of \<open>pkg/consensus/types.go\<close>: validators, the current round, virtual
  voting on fame, finality, and the two channels. A channel is the list of its buffered
  values; sending on a full one blocks, closing a closed one panics. The loop of \<open>Start\<close>
  is \<open>process_event\<close>, one received event.
\<close>

section \<open>State\<close>

record ConsensusValidator =
  vl_Address :: string
  vl_PublicKey :: bytes
  vl_Stake :: u64
  vl_Commissions :: u64
  vl_IsActive :: bool

record FinalityEvent =
  fe_EventID :: string
  fe_Round :: u64
  fe_Timestamp :: int
  fe_Famous :: bool

record Engine =
  en_dag :: DAG
  en_validators :: "string \<rightharpoonup> ConsensusValidator"
  en_currentRound :: u64
  en_finality :: "FinalityEvent list"
  en_finalityClosed :: bool
  en_eventChan :: "Event option list"

definition NewConsensusEngine :: "DAG \<Rightarrow> Engine" where
  "NewConsensusEngine d = \<lparr>en_dag = d, en_validators = Map.empty, en_currentRound = 0,
     en_finality = [], en_finalityClosed = False, en_eventChan = []\<rparr>"

definition finality_cap :: nat where "finality_cap = 100"
definition eventChan_cap :: nat where "eventChan_cap = 1000"

section \<open>Validators and rounds\<close>

definition AddValidator :: "Engine \<Rightarrow> ConsensusValidator \<Rightarrow> Engine" where
  "AddValidator e v = e\<lparr>en_validators := (en_validators e)(vl_Address v \<mapsto> v)\<rparr>"

definition GetValidator :: "Engine \<Rightarrow> string \<Rightarrow> ConsensusValidator option" where
  "GetValidator e a = en_validators e a"

definition CurrentRound :: "string list \<Rightarrow> Engine \<Rightarrow> Engine \<times> u64" where
  "CurrentRound ks e =
     (let latestRound = LatestRound ks (en_dag e);
          e1 = (if latestRound > en_currentRound e then e\<lparr>en_currentRound := latestRound\<rparr> else e)
      in (e1, en_currentRound e1))"

section \<open>Fame\<close>

definition voteOnFame :: "Engine \<Rightarrow> Event \<Rightarrow> u64 \<Rightarrow> bool" where
  "voteOnFame e witness r =
     (let nextRound = r + 1;
          nextWitnesses = GetWitnesses (en_dag e) nextRound in
      if length nextWitnesses = 0 then False
      else length (filter (\<lambda>w. StronglySee (en_dag e) w witness) nextWitnesses)
             \<ge> required_quorum (length nextWitnesses))"

definition metadata_of :: "Event \<Rightarrow> EventMetadata" where
  "metadata_of e = (case ev_Metadata e of None \<Rightarrow> zero_metadata | Some m \<Rightarrow> m)"

text \<open>The write under the graph's lock; the witness is reached through the pointer.\<close>

definition mark_famous :: "DAG \<Rightarrow> Event \<Rightarrow> bool \<Rightarrow> DAG" where
  "mark_famous d witness b =
     (let d1 = d\<lparr>dg_famous := (dg_famous d)(ev_Id witness := b)\<rparr> in
      set_metadata d1 (ev_Id witness)
        ((metadata_of (case event_of d (ev_Id witness) of None \<Rightarrow> witness | Some w \<Rightarrow> w))
           \<lparr>md_IsFamous := b\<rparr>))"

datatype fame_result = FameError dag_error | FameDone | FameBlocked | FamePanic

fun determine_loop :: "(string \<Rightarrow> int) \<Rightarrow> u64 \<Rightarrow> Event list \<Rightarrow> Engine \<Rightarrow> Engine \<times> fame_result" where
  "determine_loop now r [] e = (e, FameDone)"
| "determine_loop now r (w # ws) e =
     (let isFamous = voteOnFame e w r;
          e1 = e\<lparr>en_dag := mark_famous (en_dag e) w isFamous\<rparr> in
      if en_finalityClosed e1 then (e1, FamePanic)
      else if length (en_finality e1) \<ge> finality_cap then (e1, FameBlocked)
      else determine_loop now r ws
             (e1\<lparr>en_finality := en_finality e1 @
                 [\<lparr>fe_EventID = ev_Id w, fe_Round = r, fe_Timestamp = now (ev_Id w),
                   fe_Famous = isFamous\<rparr>]\<rparr>))"

definition DetermineFame :: "(string \<Rightarrow> int) \<Rightarrow> Engine \<Rightarrow> u64 \<Rightarrow> Engine \<times> fame_result" where
  "DetermineFame now e r =
     (let witnesses = GetWitnesses (en_dag e) r in
      if length witnesses = 0 then (e, FameError ErrNoWitnesses)
      else determine_loop now r witnesses e)"

section \<open>Finality\<close>

definition CheckFinality :: "Engine \<Rightarrow> string \<Rightarrow> Engine \<times> bool" where
  "CheckFinality e i =
     (let d = en_dag e in
      if dg_finalized d i then (e, True)
      else case event_of d i of
        None \<Rightarrow> (e, False)
      | Some event \<Rightarrow>
          if \<not> dg_famous d i then (e, False)
          else if \<exists>a \<in> GetAncestors d i. \<not> dg_finalized d a then (e, False)
          else
            (e\<lparr>en_dag := set_metadata (d\<lparr>dg_finalized := (dg_finalized d)(i := True)\<rparr>) i
                 ((metadata_of event)\<lparr>md_IsFinalized := True\<rparr>)\<rparr>, True))"

section \<open>Channels and the event loop\<close>

definition ReceiveEvent :: "Engine \<Rightarrow> Event option \<Rightarrow> Engine \<times> string option" where
  "ReceiveEvent e ev =
     (if length (en_eventChan e) < eventChan_cap
      then (e\<lparr>en_eventChan := en_eventChan e @ [ev]\<rparr>, None)
      else (e, Some ''event channel full''))"

text \<open>
  One event taken from the channel. A nil event is refused by \<open>AddEvent\<close>, and the warning
  that follows reads \<open>event.Id\<close>: a nil dereference.
\<close>

definition process_event :: "Engine \<Rightarrow> Event option \<Rightarrow> Engine outcome" where
  "process_event e ev =
     (case AddEvent (en_dag e) ev of
        (d, None) \<Rightarrow>
          (case ev of
             None \<Rightarrow> Panic ''nil pointer dereference''
           | Some event \<Rightarrow> Ret (fst (CheckFinality (e\<lparr>en_dag := d\<rparr>) (ev_Id event))))
      | (d, Some err) \<Rightarrow>
          (case ev of None \<Rightarrow> Panic ''nil pointer dereference'' | Some event \<Rightarrow> Ret e))"

definition engine_loop :: "Engine \<Rightarrow> Engine outcome" where
  "engine_loop e =
     (case en_eventChan e of
        [] \<Rightarrow> Ret e
      | ev # evs \<Rightarrow> process_event (e\<lparr>en_eventChan := evs\<rparr>) ev)"

definition StopEngine :: "Engine \<Rightarrow> Engine outcome" where
  "StopEngine e =
     (if en_finalityClosed e then Panic ''close of closed channel''
      else Ret (e\<lparr>en_finalityClosed := True\<rparr>))"

lemma StopEngine_twice: "StopEngine e = Ret e' \<Longrightarrow> StopEngine e' = Panic ''close of closed channel''"
  by (auto simp: StopEngine_def split: if_splits)

section \<open>The engine's steps\<close>

definition is_witness :: "DAG \<Rightarrow> string \<Rightarrow> bool" where
  "is_witness d i \<longleftrightarrow> (\<exists>r. i \<in> set (slice_at (dg_witnesses d) r))"

text \<open>
  Any interleaving of the engine's operations: the network and the node insert events, ask for
  finality, \<open>DetermineFame\<close> may run for any round, a reader may take a finality
  event off the channel. \<open>DetermineFame\<close> holds no lock between its reads, the write of a
  verdict and the send, so other operations can come between them: the steps \<open>verdict\<close> (any
  verdict on a witness, whatever graph the votes were read from) and \<open>announce\<close> are its parts
  on their own.
\<close>

inductive engine_step :: "Engine \<Rightarrow> Engine \<Rightarrow> bool" where
  insert: "engine_step e (e\<lparr>en_dag := fst (AddEvent (en_dag e) ev)\<rparr>)"
| check: "engine_step e (fst (CheckFinality e i))"
| fame: "engine_step e (fst (DetermineFame now e r))"
| verdict: "is_witness (en_dag e) (ev_Id w) \<Longrightarrow>
    engine_step e (e\<lparr>en_dag := mark_famous (en_dag e) w b\<rparr>)"
| announce: "length (en_finality e) < finality_cap \<Longrightarrow> \<not> en_finalityClosed e \<Longrightarrow>
    engine_step e (e\<lparr>en_finality := en_finality e @ [f]\<rparr>)"
| round: "engine_step e (fst (CurrentRound ks e))"
| validator: "engine_step e (AddValidator e v)"
| receive: "engine_step e (fst (ReceiveEvent e ev))"
| loop: "engine_loop e = Ret e' \<Longrightarrow> engine_step e e'"
| drain: "en_finality e = f # fs \<Longrightarrow> engine_step e (e\<lparr>en_finality := fs\<rparr>)"
| stop: "StopEngine e = Ret e' \<Longrightarrow> engine_step e e'"

inductive engine_reachable :: "Engine \<Rightarrow> bool" where
  start: "engine_reachable (NewConsensusEngine NewDAG)"
| step: "engine_reachable e \<Longrightarrow> engine_step e e' \<Longrightarrow> engine_reachable e'"

inductive_cases engine_stepE: "engine_step e e'"

section \<open>What the operations do to the graph\<close>

definition finalized_set :: "DAG \<Rightarrow> string set" where
  "finalized_set d = {i. dg_finalized d i}"

lemma mark_famous_frame [simp]:
  "dg_parents (mark_famous d w b) = dg_parents d"
  "dg_children (mark_famous d w b) = dg_children d"
  "dg_witnesses (mark_famous d w b) = dg_witnesses d"
  "dg_finalized (mark_famous d w b) = dg_finalized d"
  "dg_famous (mark_famous d w b) = (dg_famous d)(ev_Id w := b)"
  by (simp_all add: mark_famous_def Let_def)

lemma famous_field_frame [simp]:
  "GetAncestors (d\<lparr>dg_famous := f\<rparr>) i = GetAncestors d i"
  "GetAncestors (d\<lparr>dg_finalized := f\<rparr>) i = GetAncestors d i"
  by (simp_all add: GetAncestors_eq parent_rel_def)

lemma GetAncestors_mark_famous [simp]: "GetAncestors (mark_famous d w b) i = GetAncestors d i"
  by (simp add: mark_famous_def Let_def)

lemma event_of_mark_famous_core:
  "map_option (\<lambda>e. (ev_Id e, ev_Parents e, ev_Round e, ev_Transactions e)) (event_of (mark_famous d w b) i) =
   map_option (\<lambda>e. (ev_Id e, ev_Parents e, ev_Round e, ev_Transactions e)) (event_of d i)"
  by (auto simp: mark_famous_def Let_def event_of_set_metadata option.map_comp comp_def)

lemma event_of_mark_famous_None [simp]:
  "event_of (mark_famous d w b) i = None \<longleftrightarrow> event_of d i = None"
  by (simp add: mark_famous_def Let_def event_of_set_metadata)

lemma dag_inv_fields:
  "dag_inv (d\<lparr>dg_famous := f\<rparr>) = dag_inv d" "dag_inv (d\<lparr>dg_finalized := f\<rparr>) = dag_inv d"
  by (simp_all add: dag_inv_def)

text \<open>Metadata may change at will as long as a witness stays marked as one.\<close>

lemma dag_inv_set_metadata:
  assumes "dag_inv d"
    and "\<And>e m0. event_of d i = Some e \<Longrightarrow> ev_Metadata e = Some m0 \<Longrightarrow> md_IsWitness m0 \<Longrightarrow>
           md_IsWitness m"
  shows "dag_inv (set_metadata d i m)"
proof -
  have "distinct (keys (dg_events (set_metadata d i m)))"
    using assms(1) by (simp add: set_metadata_def dag_inv_def split: option.splits)
  moreover have "\<exists>e m'. event_of (set_metadata d i m) j = Some e \<and> ev_Round e = r \<and>
      ev_Metadata e = Some m' \<and> md_IsWitness m'"
    if "j \<in> set (slice_at (dg_witnesses d) r)" for j r
    using dag_inv_witness [OF assms(1) that] assms(2)
    by (cases "j = i") (auto simp: event_of_set_metadata)
  ultimately show ?thesis
    using assms(1)
    by (auto simp: dag_inv_def event_of_set_metadata split: option.splits)
qed

lemma dag_inv_mark_famous: "dag_inv d \<Longrightarrow> dag_inv (mark_famous d w b)"
  by (auto simp: mark_famous_def Let_def dag_inv_fields metadata_of_def
      intro!: dag_inv_set_metadata split: option.splits)

lemma dag_inv_finalize:
  "dag_inv d \<Longrightarrow> event_of d i = Some e \<Longrightarrow>
     dag_inv (set_metadata (d\<lparr>dg_finalized := f\<rparr>) i ((metadata_of e)\<lparr>md_IsFinalized := True\<rparr>))"
  by (auto simp: dag_inv_fields metadata_of_def intro!: dag_inv_set_metadata split: option.splits)

text \<open>
  Later graphs extend earlier ones: stored events keep their parents, round and transactions,
  verdicts of finality stay, and a stored event stays the witness, or no witness, it was.
\<close>

definition extends :: "DAG \<Rightarrow> DAG \<Rightarrow> bool" where
  "extends d d' \<longleftrightarrow>
     (\<forall>i e. event_of d i = Some e \<longrightarrow>
        (\<exists>e'. event_of d' i = Some e' \<and> ev_Parents e' = ev_Parents e \<and> ev_Round e' = ev_Round e \<and>
              ev_Transactions e' = ev_Transactions e)) \<and>
     finalized_set d \<subseteq> finalized_set d' \<and>
     (\<forall>i. event_of d i \<noteq> None \<longrightarrow> is_witness d' i = is_witness d i)"

lemma extends_refl [simp, intro]: "extends d d"
  by (auto simp: extends_def)

lemma extends_trans:
  assumes "extends d d'" and "extends d' d''"
  shows "extends d d''"
  unfolding extends_def
proof (intro conjI allI impI)
  fix i e assume "event_of d i = Some e"
  with assms show "\<exists>e'. event_of d'' i = Some e' \<and> ev_Parents e' = ev_Parents e \<and>
      ev_Round e' = ev_Round e \<and> ev_Transactions e' = ev_Transactions e"
    unfolding extends_def by metis
next
  from assms show "finalized_set d \<subseteq> finalized_set d''" by (auto simp: extends_def)
next
  fix i assume "event_of d i \<noteq> None"
  with assms show "is_witness d'' i = is_witness d i"
    unfolding extends_def by (metis not_None_eq)
qed

lemma extends_AddEvent: "extends d (fst (AddEvent d ev))"
proof (cases "\<exists>e. ev = Some e \<and> accepts d e")
  case False
  then show ?thesis by (cases ev) (auto simp: AddEvent_nil AddEvent_rejected)
next
  case True
  then show ?thesis
    by (auto simp: extends_def AddEvent_effect AddEvent_frame finalized_set_def is_witness_def
        accepts_def split: if_splits)
qed

lemma extends_set_metadata: "extends d (set_metadata d i m)"
  by (auto simp: extends_def event_of_set_metadata finalized_set_def is_witness_def)

lemma extends_mark_famous: "extends d (mark_famous d w b)"
proof -
  have "extends d (d\<lparr>dg_famous := f\<rparr>)" for f
    by (simp add: extends_def finalized_set_def is_witness_def)
  then show ?thesis
    unfolding mark_famous_def Let_def by (rule extends_trans) (rule extends_set_metadata)
qed

lemma extends_finalize:
  "extends d (set_metadata (d\<lparr>dg_finalized := (dg_finalized d)(i := True)\<rparr>) i m)"
proof -
  have "extends d (d\<lparr>dg_finalized := (dg_finalized d)(i := True)\<rparr>)"
    by (auto simp: extends_def finalized_set_def is_witness_def)
  then show ?thesis by (rule extends_trans) (rule extends_set_metadata)
qed

lemma CheckFinality_cases:
  "fst (CheckFinality e i) = e \<or>
   (\<exists>event. event_of (en_dag e) i = Some event \<and> dg_famous (en_dag e) i \<and>
      GetAncestors (en_dag e) i \<subseteq> finalized_set (en_dag e) \<and>
      fst (CheckFinality e i) = e\<lparr>en_dag :=
        set_metadata ((en_dag e)\<lparr>dg_finalized := (dg_finalized (en_dag e))(i := True)\<rparr>) i
          ((metadata_of event)\<lparr>md_IsFinalized := True\<rparr>)\<rparr>)"
  by (auto simp: CheckFinality_def Let_def finalized_set_def split: option.splits)

lemma extends_CheckFinality: "extends (en_dag e) (en_dag (fst (CheckFinality e i)))"
  using CheckFinality_cases [of e i] by (auto intro: extends_finalize)

lemma extends_determine_loop: "extends (en_dag e) (en_dag (fst (determine_loop now r ws e)))"
proof (induction ws arbitrary: e)
  case (Cons w ws)
  have "extends (en_dag e) (mark_famous (en_dag e) w (voteOnFame e w r))"
    by (rule extends_mark_famous)
  then show ?case
    by (auto simp: Let_def intro: extends_trans [OF _ extends_trans [OF _ Cons.IH]])
qed simp

section \<open>The invariant of finality\<close>

text \<open>
  The graph is consistent, the finalized events are stored together with all their ancestors,
  which are finalized too, and only witnesses are famous or finalized.
\<close>

definition finality_inv :: "DAG \<Rightarrow> bool" where
  "finality_inv d \<longleftrightarrow> dag_inv d \<and> settled event_of GetAncestors d (finalized_set d) \<and>
     (\<forall>i. dg_famous d i \<or> dg_finalized d i \<longrightarrow> is_witness d i)"

lemma finality_inv_NewDAG [simp]: "finality_inv NewDAG"
  by (simp add: finality_inv_def settled_def finalized_set_def)

lemma finality_inv_AddEvent: "finality_inv d \<Longrightarrow> finality_inv (fst (AddEvent d ev))"
proof -
  assume inv: "finality_inv d"
  then have "settled event_of GetAncestors (fst (AddEvent d ev)) (finalized_set d)"
    by (intro graph.settled_insert) (simp add: finality_inv_def)
  moreover have "is_witness d i \<Longrightarrow> is_witness (fst (AddEvent d ev)) i" for i
  proof -
    assume w: "is_witness d i"
    with inv have "event_of d i \<noteq> None"
      unfolding finality_inv_def is_witness_def by (fastforce dest: dag_inv_witness)
    with w show "is_witness (fst (AddEvent d ev)) i"
      using extends_AddEvent [of d ev] by (auto simp: extends_def)
  qed
  ultimately show ?thesis
    using inv by (auto simp: finality_inv_def finalized_set_def AddEvent_frame intro: dag_inv_AddEvent)
qed

lemma finality_inv_mark_famous:
  "finality_inv d \<Longrightarrow> is_witness d (ev_Id w) \<Longrightarrow> finality_inv (mark_famous d w b)"
  by (auto simp: finality_inv_def dag_inv_mark_famous settled_def finalized_set_def is_witness_def
      split: if_splits)

lemma settled_famous_irrelevant [simp]:
  "settled event_of GetAncestors (d\<lparr>dg_finalized := f\<rparr>) F = settled event_of GetAncestors d F"
  by (simp add: settled_def)

lemma finality_inv_CheckFinality:
  assumes "finality_inv (en_dag e)"
  shows "finality_inv (en_dag (fst (CheckFinality e i)))"
  using CheckFinality_cases [of e i]
proof (elim disjE exE conjE)
  fix event
  let ?d = "en_dag e"
  let ?f = "(dg_finalized ?d)(i := True)"
  let ?d' = "set_metadata (?d\<lparr>dg_finalized := ?f\<rparr>) i ((metadata_of event)\<lparr>md_IsFinalized := True\<rparr>)"
  assume ev: "event_of ?d i = Some event" and famous: "dg_famous ?d i"
    and anc: "GetAncestors ?d i \<subseteq> finalized_set ?d"
    and result: "fst (CheckFinality e i) = e\<lparr>en_dag := ?d'\<rparr>"
  have "settled event_of GetAncestors ?d (insert i (finalized_set ?d))"
    using assms ev anc by (intro graph.settled_add) (auto simp: finality_inv_def)
  then have "settled event_of GetAncestors ?d' (insert i (finalized_set ?d))"
    by (simp add: graph.settled_relabel)
  moreover have "finalized_set ?d' = insert i (finalized_set ?d)"
    by (auto simp: finalized_set_def)
  moreover have "dag_inv ?d'"
    using assms ev by (intro dag_inv_finalize) (auto simp: finality_inv_def)
  ultimately show ?thesis
    using assms famous by (auto simp: result finality_inv_def is_witness_def)
qed (use assms in simp)

lemma finality_inv_determine_loop:
  "finality_inv (en_dag e) \<Longrightarrow> (\<And>w. w \<in> set ws \<Longrightarrow> is_witness (en_dag e) (ev_Id w)) \<Longrightarrow>
     finality_inv (en_dag (fst (determine_loop now r ws e)))"
proof (induction ws arbitrary: e)
  case (Cons w ws)
  let ?d = "mark_famous (en_dag e) w (voteOnFame e w r)"
  have "finality_inv ?d"
    using Cons.prems by (intro finality_inv_mark_famous) auto
  moreover have "is_witness ?d (ev_Id v)" if "v \<in> set ws" for v
    using Cons.prems(2) [of v] that by (simp add: is_witness_def)
  ultimately show ?case by (auto simp: Let_def intro!: Cons.IH)
qed simp

lemma finality_inv_DetermineFame:
  assumes "finality_inv (en_dag e)"
  shows "finality_inv (en_dag (fst (DetermineFame now e r)))"
proof -
  have "is_witness (en_dag e) (ev_Id w)" if "w \<in> set (GetWitnesses (en_dag e) r)" for w
  proof -
    have "ev_Id w \<in> set (map ev_Id (GetWitnesses (en_dag e) r))" using that by simp
    also have "map ev_Id (GetWitnesses (en_dag e) r) = slice_at (dg_witnesses (en_dag e)) r"
      using assms by (intro GetWitnesses_ids) (simp add: finality_inv_def)
    finally show ?thesis by (auto simp: is_witness_def)
  qed
  with assms show ?thesis
    by (auto simp: DetermineFame_def Let_def intro!: finality_inv_determine_loop)
qed

section \<open>Runs\<close>

lemma CurrentRound_frame [simp]:
  "en_dag (fst (CurrentRound ks e)) = en_dag e"
  "en_validators (fst (CurrentRound ks e)) = en_validators e"
  "en_finality (fst (CurrentRound ks e)) = en_finality e"
  by (simp_all add: CurrentRound_def Let_def)

lemma ReceiveEvent_frame [simp]: "en_dag (fst (ReceiveEvent e ev)) = en_dag e"
  by (simp add: ReceiveEvent_def)

lemma StopEngine_frame: "StopEngine e = Ret e' \<Longrightarrow> en_dag e' = en_dag e"
  by (auto simp: StopEngine_def split: if_splits)

lemma process_event_dag:
  "process_event e ev = Ret e' \<Longrightarrow>
     e' = e \<or> (\<exists>event. ev = Some event \<and> accepts (en_dag e) event \<and>
       e' = fst (CheckFinality (e\<lparr>en_dag := fst (AddEvent (en_dag e) ev)\<rparr>) (ev_Id event)))"
  by (auto simp: process_event_def split: prod.splits option.splits dest: AddEvent_accepts_iff [THEN iffD1, rotated])
    (metis AddEvent_accepts_iff snd_conv fst_conv)+

text \<open>Every step is one of three moves on the graph, or leaves the graph alone.\<close>

lemma engine_step_graph:
  assumes "engine_step e e'"
    and insert: "\<And>d ev. P d \<Longrightarrow> P (fst (AddEvent d ev))"
    and check: "\<And>e i. P (en_dag e) \<Longrightarrow> P (en_dag (fst (CheckFinality e i)))"
    and fame: "\<And>e now r. P (en_dag e) \<Longrightarrow> P (en_dag (fst (DetermineFame now e r)))"
    and verdict: "\<And>d w b. P d \<Longrightarrow> is_witness d (ev_Id w) \<Longrightarrow> P (mark_famous d w b)"
    and start: "P (en_dag e)"
  shows "P (en_dag e')"
  using assms(1) start
proof (cases rule: engine_step.cases)
  case loop
  show ?thesis
  proof (cases "en_eventChan e")
    case Nil
    with loop start show ?thesis by (simp add: engine_loop_def)
  next
    case (Cons ev evs)
    with loop have "process_event (e\<lparr>en_eventChan := evs\<rparr>) ev = Ret e'"
      by (simp add: engine_loop_def)
    from process_event_dag [OF this] start insert check show ?thesis by auto
  qed
qed (auto simp: AddValidator_def dest: StopEngine_frame intro: insert check fame verdict)

lemma finality_inv_step:
  "engine_step e e' \<Longrightarrow> finality_inv (en_dag e) \<Longrightarrow> finality_inv (en_dag e')"
  by (erule engine_step_graph [where P = finality_inv])
    (auto intro: finality_inv_AddEvent finality_inv_CheckFinality finality_inv_DetermineFame
      finality_inv_mark_famous)

lemma reachable_finality_inv: "engine_reachable e \<Longrightarrow> finality_inv (en_dag e)"
  by (induction rule: engine_reachable.induct)
    (auto simp: NewConsensusEngine_def intro: finality_inv_step)

lemma extends_step: "engine_step e e' \<Longrightarrow> extends (en_dag e) (en_dag e')"
proof (erule engine_step_graph [where P = "extends (en_dag e)"])
  fix d ev assume "extends (en_dag e) d"
  then show "extends (en_dag e) (fst (AddEvent d ev))" by (rule extends_trans) (rule extends_AddEvent)
next
  fix f :: Engine and i assume "extends (en_dag e) (en_dag f)"
  then show "extends (en_dag e) (en_dag (fst (CheckFinality f i)))"
    by (rule extends_trans) (rule extends_CheckFinality)
next
  fix f :: Engine and now r assume "extends (en_dag e) (en_dag f)"
  then show "extends (en_dag e) (en_dag (fst (DetermineFame now f r)))"
    by (auto simp: DetermineFame_def Let_def intro: extends_trans extends_determine_loop)
next
  fix d w b assume "extends (en_dag e) d"
  then show "extends (en_dag e) (mark_famous d w b)" by (rule extends_trans) (rule extends_mark_famous)
qed simp

section \<open>Votes and verdicts\<close>

lemma GetAncestors_extends:
  assumes "extends d d'" and "event_of d i \<noteq> None" and "\<forall>a \<in> GetAncestors d i. event_of d a \<noteq> None"
  shows "GetAncestors d' i = GetAncestors d i"
proof -
  have old: "parent_rel d \<subseteq> parent_rel d'"
    using assms(1) unfolding extends_def parent_rel_def by fastforce
  have new: "x \<notin> Domain (parent_rel d' - parent_rel d)" if "event_of d x \<noteq> None" for x
    using assms(1) that unfolding extends_def parent_rel_def by fastforce
  have "(i, b) \<in> (parent_rel d)\<^sup>+" if "(i, b) \<in> (parent_rel d')\<^sup>+" for b
  proof (rule trancl_without)
    from old have "parent_rel d \<union> (parent_rel d' - parent_rel d) = parent_rel d'" by blast
    with that show "(i, b) \<in> (parent_rel d \<union> (parent_rel d' - parent_rel d))\<^sup>+" by simp
  qed (use new assms(2,3) in \<open>auto simp: GetAncestors_eq\<close>)
  moreover have "(i, b) \<in> (parent_rel d')\<^sup>+" if "(i, b) \<in> (parent_rel d)\<^sup>+" for b
    using that old by (rule trancl_mono)
  ultimately show ?thesis by (auto simp: GetAncestors_eq)
qed

lemma GetAncestors_grow: "extends d d' \<Longrightarrow> GetAncestors d i \<subseteq> GetAncestors d' i"
proof -
  assume "extends d d'"
  then have "parent_rel d \<subseteq> parent_rel d'" unfolding extends_def parent_rel_def by fastforce
  then show ?thesis by (auto simp: GetAncestors_eq intro: trancl_mono)
qed

lemma extends_steps: "engine_step\<^sup>*\<^sup>* e e' \<Longrightarrow> extends (en_dag e) (en_dag e')"
  by (induction rule: rtranclp_induct) (auto intro: extends_trans extends_step)

interpretation reachable_engines: keeping_steps engine_step engine_reachable
  by unfold_locales (rule engine_reachable.step)

lemma reachable_steps: "engine_step\<^sup>*\<^sup>* e e' \<Longrightarrow> engine_reachable e \<Longrightarrow> engine_reachable e'"
  by (rule reachable_engines.run)

lemma finalized_stored:
  "finality_inv d \<Longrightarrow> dg_finalized d i \<Longrightarrow>
     event_of d i \<noteq> None \<and> (\<forall>a \<in> GetAncestors d i. dg_finalized d a \<and> event_of d a \<noteq> None)"
  unfolding finality_inv_def settled_def finalized_set_def by blast

text \<open>A vote counts ids: the metadata of the voters plays no role.\<close>

definition vote :: "DAG \<Rightarrow> string \<Rightarrow> u64 \<Rightarrow> bool" where
  "vote d i r = (let ws = slice_at (dg_witnesses d) (r + 1) in
     ws \<noteq> [] \<and> required_quorum (length ws) \<le> length (filter (\<lambda>w. i \<in> GetAncestors d w) ws))"

lemma voteOnFame_vote:
  assumes "dag_inv (en_dag e)"
  shows "voteOnFame e w r = vote (en_dag e) (ev_Id w) r"
proof -
  let ?W = "GetWitnesses (en_dag e) (r + 1)"
  have ids: "map ev_Id ?W = slice_at (dg_witnesses (en_dag e)) (r + 1)"
    by (rule GetWitnesses_ids [OF assms])
  have "length (filter (\<lambda>v. ev_Id w \<in> GetAncestors (en_dag e) (ev_Id v)) ?W) =
        length (filter (\<lambda>v. ev_Id w \<in> GetAncestors (en_dag e) v) (map ev_Id ?W))"
    by (simp add: filter_map comp_def)
  then show ?thesis
    unfolding voteOnFame_def vote_def Let_def StronglySee_def ids [symmetric] by auto
qed

lemma vote_mark_famous [simp]: "vote (mark_famous d w b) i r = vote d i r"
  by (simp add: vote_def)

lemma determine_loop_verdicts:
  "dag_inv (en_dag e) \<Longrightarrow> determine_loop now r ws e = (e', FameDone) \<Longrightarrow>
     dg_famous (en_dag e') i =
       (if i \<in> ev_Id ` set ws then vote (en_dag e) i r else dg_famous (en_dag e) i)"
proof (induction ws arbitrary: e)
  case (Cons w ws)
  let ?v = "vote (en_dag e) (ev_Id w) r"
  let ?e = "e\<lparr>en_dag := mark_famous (en_dag e) w ?v, en_finality := en_finality e @
      [\<lparr>fe_EventID = ev_Id w, fe_Round = r, fe_Timestamp = now (ev_Id w), fe_Famous = ?v\<rparr>]\<rparr>"
  have rest: "determine_loop now r ws ?e = (e', FameDone)"
    using Cons.prems by (simp add: Let_def voteOnFame_vote split: if_splits)
  have "dag_inv (en_dag ?e)" using Cons.prems(1) by (simp add: dag_inv_mark_famous)
  from Cons.IH [OF this rest] show ?case by auto
qed simp

lemma determine_loop_finalized: "dg_finalized (en_dag (fst (determine_loop now r ws e))) = dg_finalized (en_dag e)"
  by (induction ws arbitrary: e) (simp_all add: Let_def)

lemma determine_loop_result:
  "\<not> en_finalityClosed e \<Longrightarrow> length (en_finality e) \<le> finality_cap \<Longrightarrow>
     snd (determine_loop now r ws e) =
       (if length (en_finality e) + length ws \<le> finality_cap then FameDone else FameBlocked)"
  by (induction ws arbitrary: e) (auto simp: Let_def)

section \<open>Concrete runs\<close>

text \<open>
  Three events in a row, one round apart, the fame of the first two decided and both
  finalized; a side branch \<open>x\<close>, \<open>y\<close> whose first event is no witness; and a late witness of
  round 1 that does not know \<open>a\<close>.
\<close>

definition insert_events :: "Event list \<Rightarrow> Engine \<Rightarrow> Engine" where
  "insert_events evs e = fold (\<lambda>ev e. e\<lparr>en_dag := fst (AddEvent (en_dag e) (Some ev))\<rparr>) evs e"

definition run_decided :: Engine where
  "run_decided =
     (let e0 = insert_events
            [mk_event ''a'' ''v1'' [] 0, mk_event ''b'' ''v2'' [''a''] 1,
             mk_event ''c'' ''v1'' [''b''] 2, mk_event ''x'' ''v3'' [''a''] 0,
             mk_event ''y'' ''v3'' [''x''] 1] (NewConsensusEngine NewDAG);
          e1 = fst (DetermineFame (\<lambda>_. 0) e0 0)
      in fst (DetermineFame (\<lambda>_. 0) e1 1))"

definition run_final :: Engine where
  "run_final = fst (CheckFinality (fst (CheckFinality run_decided ''a'')) ''b'')"

definition run_late :: Engine where
  "run_late = insert_events [mk_event ''w'' ''v4'' [] 1, mk_event ''z'' ''v5'' [] 1] run_final"

lemma insert_events_steps: "engine_step\<^sup>*\<^sup>* e (insert_events evs e)"
proof (induction evs arbitrary: e)
  case (Cons ev evs)
  have "engine_step e (e\<lparr>en_dag := fst (AddEvent (en_dag e) (Some ev))\<rparr>)"
    by (rule engine_step.insert)
  then show ?case
    using Cons.IH [of "e\<lparr>en_dag := fst (AddEvent (en_dag e) (Some ev))\<rparr>"]
    by (simp add: insert_events_def)
qed (simp add: insert_events_def)

lemma run_decided_reachable: "engine_reachable run_decided"
  unfolding run_decided_def Let_def
  by (intro engine_reachable.step [OF _ engine_step.fame]
      reachable_steps [OF insert_events_steps engine_reachable.start])

lemma run_final_reachable: "engine_reachable run_final"
  unfolding run_final_def
  by (intro engine_reachable.step [OF _ engine_step.check] run_decided_reachable)

lemma run_late_steps: "engine_step\<^sup>*\<^sup>* run_final run_late"
  unfolding run_late_def by (rule insert_events_steps)

lemma run_late_reachable: "engine_reachable run_late"
  by (rule reachable_steps [OF run_late_steps run_final_reachable])

lemma run_final_facts:
  "dg_finalized (en_dag run_final) ''a''" "dg_finalized (en_dag run_final) ''b''"
  "event_of (en_dag run_final) ''x'' \<noteq> None" "\<not> is_witness (en_dag run_final) ''x''"
  "''x'' \<in> GetAncestors (en_dag run_final) ''y''"
proof -
  have "dg_witnesses (en_dag run_final) = [(0, [''a'']), (1, [''b'', ''y'']), (2, [''c''])]"
    by code_simp
  then show "\<not> is_witness (en_dag run_final) ''x''"
    by (auto simp: is_witness_def slice_at_def split: if_splits)
qed (code_simp+)

section \<open>Properties\<close>

text \<open>C1: in every state the engine can reach, by any interleaving of insertions, fame
  decisions and finality checks, a finalized event is stored, is a witness, and so are all
  its ancestors, which are finalized as well.\<close>

theorem finalized_ancestors:
  assumes "engine_reachable e" and "dg_finalized (en_dag e) i"
  shows "event_of (en_dag e) i \<noteq> None \<and> is_witness (en_dag e) i \<and>
    (\<forall>a \<in> GetAncestors (en_dag e) i. dg_finalized (en_dag e) a \<and> is_witness (en_dag e) a)"
proof -
  have inv: "finality_inv (en_dag e)" by (rule reachable_finality_inv [OF assms(1)])
  then have "is_witness (en_dag e) j" if "dg_finalized (en_dag e) j" for j
    using that by (simp add: finality_inv_def)
  with finalized_stored [OF inv assms(2)] assms(2) show ?thesis by blast
qed

theorem finalized_ancestors_witness:
  "event_of (en_dag run_final) ''b'' \<noteq> None \<and>
   dg_finalized (en_dag run_final) ''a'' \<and> is_witness (en_dag run_final) ''a''"
proof -
  have "''a'' \<in> GetAncestors (en_dag run_final) ''b''" by code_simp
  then show ?thesis
    using finalized_ancestors [OF run_final_reachable run_final_facts(2)] by blast
qed

text \<open>C2: finality is permanent: whatever steps follow, a finalized event stays finalized,
  keeps its transactions, and its set of ancestors never changes again.\<close>

theorem finality_permanent:
  assumes "engine_reachable e" and "dg_finalized (en_dag e) i" and "engine_step\<^sup>*\<^sup>* e e'"
  shows "dg_finalized (en_dag e') i \<and>
    GetAncestors (en_dag e') i = GetAncestors (en_dag e) i \<and>
    map_option ev_Transactions (event_of (en_dag e') i) =
      map_option ev_Transactions (event_of (en_dag e) i)"
proof -
  have ext: "extends (en_dag e) (en_dag e')" by (rule extends_steps [OF assms(3)])
  have st: "event_of (en_dag e) i \<noteq> None" "\<forall>a \<in> GetAncestors (en_dag e) i. event_of (en_dag e) a \<noteq> None"
    using finalized_stored [OF reachable_finality_inv [OF assms(1)] assms(2)] by auto
  from ext assms(2) st(1) show ?thesis
    using GetAncestors_extends [OF ext st]
    by (auto simp: extends_def finalized_set_def subset_iff) fastforce
qed

theorem finality_permanent_witness:
  "dg_finalized (en_dag run_late) ''b'' \<and>
   GetAncestors (en_dag run_late) ''b'' = GetAncestors (en_dag run_final) ''b''"
  using finality_permanent [OF run_final_reachable run_final_facts(2) run_late_steps] by blast

lemma non_witness_blocked:
  assumes "engine_reachable e" and "event_of (en_dag e) a \<noteq> None" and "\<not> is_witness (en_dag e) a"
    and "a = i \<or> a \<in> GetAncestors (en_dag e) i" and "engine_step\<^sup>*\<^sup>* e e'"
  shows "\<not> dg_finalized (en_dag e') i"
proof
  assume fin: "dg_finalized (en_dag e') i"
  have ext: "extends (en_dag e) (en_dag e')" by (rule extends_steps [OF assms(5)])
  then have "\<not> is_witness (en_dag e') a" using assms(2,3) by (simp add: extends_def)
  moreover have "a = i \<or> a \<in> GetAncestors (en_dag e') i"
    using assms(4) GetAncestors_grow [OF ext, of i] by blast
  moreover have inv: "finality_inv (en_dag e')"
    by (rule reachable_finality_inv [OF reachable_steps [OF assms(5,1)]])
  ultimately have "dg_finalized (en_dag e') a"
    using finalized_stored [OF inv fin] fin by blast
  then have "is_witness (en_dag e') a" using inv by (simp add: finality_inv_def)
  with \<open>\<not> is_witness (en_dag e') a\<close> show False ..
qed

text \<open>C22: a stored event that is no witness bars every descendant from finality for ever:
  neither the event itself nor anything built on it is finalized in any later state. The README
  (line 158) promises the contrary, that events are finalized when they are ancestors of famous
  witnesses: \<open>CheckFinality\<close> wants every event to be famous itself and after its ancestors, so
  a famous witness with an ancestor that is no witness finalizes nothing, itself included, as
  \<open>famous_witness_blocked\<close> shows.\<close>

theorem non_witness_blocks:
  assumes "engine_reachable e" and "event_of (en_dag e) a \<noteq> None" and "\<not> is_witness (en_dag e) a"
    and "a = i \<or> a \<in> GetAncestors (en_dag e) i" and "engine_step\<^sup>*\<^sup>* e e'"
  shows "\<not> dg_finalized (en_dag e') i"
  by (rule non_witness_blocked [OF assms])

theorem non_witness_blocks_witness: "\<not> dg_finalized (en_dag run_late) ''y''"
  by (rule non_witness_blocks [OF run_final_reachable run_final_facts(3,4) _ run_late_steps])
    (use run_final_facts(5) in simp)

text \<open>An event and its child in one round, a famous witness of the next round upon them.\<close>

definition run_blocked :: Engine where
  "run_blocked = fst (DetermineFame (\<lambda>_. 0) (insert_events
     [mk_event ''p'' ''v'' [] 0, mk_event ''q'' ''v'' [''p''] 0, mk_event ''w'' ''v'' [''q''] 1, mk_event ''z'' ''v'' [''w''] 2]
     (NewConsensusEngine NewDAG)) 1)"

theorem famous_witness_blocked:
  "engine_reachable run_blocked \<and> dg_famous (en_dag run_blocked) ''w'' \<and>
   ''q'' \<in> GetAncestors (en_dag run_blocked) ''w'' \<and>
   (\<forall>e'. engine_step\<^sup>*\<^sup>* run_blocked e' \<longrightarrow> \<not> dg_finalized (en_dag e') ''q'' \<and> \<not> dg_finalized (en_dag e') ''w'')"
proof -
  have r: "engine_reachable run_blocked"
    unfolding run_blocked_def
    by (intro engine_reachable.step [OF _ engine_step.fame] reachable_steps [OF insert_events_steps engine_reachable.start])
  have q: "''q'' \<in> GetAncestors (en_dag run_blocked) ''w''" "dg_famous (en_dag run_blocked) ''w''" by code_simp+
  have "event_of (en_dag run_blocked) ''q'' \<noteq> None" by code_simp
  moreover have "\<not> is_witness (en_dag run_blocked) ''q''"
  proof -
    have "dg_witnesses (en_dag run_blocked) = [(0, [''p'']), (1, [''w'']), (2, [''z''])]" by code_simp
    then show ?thesis by (auto simp: is_witness_def slice_at_def split: if_splits)
  qed
  ultimately have "\<not> dg_finalized (en_dag e') i"
    if "engine_step\<^sup>*\<^sup>* run_blocked e'" "''q'' = i \<or> ''q'' \<in> GetAncestors (en_dag run_blocked) i" for e' i
    using non_witness_blocked [OF r _ _ that(2,1)] by blast
  with q r show ?thesis by blast
qed

text \<open>C5: when \<open>DetermineFame\<close> returns without error, each witness of the round is famous
  exactly when the witnesses of the next round reach the quorum with it among their
  ancestors, as they were before the call, and no other event's fame has changed. The vote
  counts witnesses, one each, and no stake, though \<open>PRODUCTION_READY.md\<close> (line 49) speaks of a
  threshold of 2/3 of the stake. In particular, while the next round has no witness no witness of
  the round is famous and none becomes final, though two of the tests (\<open>TestFinalityDetermination\<close>
  and \<open>full_system_test.go\<close>, line 266) expect just that.\<close>

theorem DetermineFame_verdicts:
  assumes "engine_reachable e" and "DetermineFame now e r = (e', FameDone)"
  shows "dg_famous (en_dag e') i =
      (if i \<in> set (slice_at (dg_witnesses (en_dag e)) r) then vote (en_dag e) i r
       else dg_famous (en_dag e) i) \<and>
    (GetWitnesses (en_dag e) (r + 1) = [] \<and> i \<in> set (slice_at (dg_witnesses (en_dag e)) r) \<and>
      \<not> dg_finalized (en_dag e) i \<longrightarrow> \<not> dg_famous (en_dag e') i \<and> \<not> snd (CheckFinality e' i))"
proof -
  have inv: "dag_inv (en_dag e)"
    using reachable_finality_inv [OF assms(1)] by (simp add: finality_inv_def)
  have ids: "ev_Id ` set (GetWitnesses (en_dag e) r) = set (slice_at (dg_witnesses (en_dag e)) r)" for r
    by (simp flip: GetWitnesses_ids [OF inv])
  have run: "determine_loop now r (GetWitnesses (en_dag e) r) e = (e', FameDone)"
    using assms(2) by (auto simp: DetermineFame_def Let_def split: if_splits)
  note verdict = determine_loop_verdicts [OF inv run, of i, unfolded ids]
  have "\<not> dg_famous (en_dag e') i \<and> \<not> snd (CheckFinality e' i)"
    if "GetWitnesses (en_dag e) (r + 1) = []" "i \<in> set (slice_at (dg_witnesses (en_dag e)) r)" "\<not> dg_finalized (en_dag e) i"
  proof
    have "slice_at (dg_witnesses (en_dag e)) (r + 1) = []" using that(1) ids [of "r + 1"] by simp
    then show f: "\<not> dg_famous (en_dag e') i" using verdict that(2) by (simp add: vote_def)
    have "\<not> dg_finalized (en_dag e') i"
      using that(3) determine_loop_finalized [of now r "GetWitnesses (en_dag e) r" e] by (simp add: run)
    with f show "\<not> snd (CheckFinality e' i)" by (simp add: CheckFinality_def Let_def split: option.split)
  qed
  with verdict show ?thesis by blast
qed

theorem DetermineFame_verdicts_witness:
  "dg_famous (en_dag (fst (DetermineFame (\<lambda>_. 0) run_late 0))) ''a'' \<longleftrightarrow>
     vote (en_dag run_late) ''a'' 0"
proof -
  have "snd (DetermineFame (\<lambda>_. 0) run_late 0) = FameDone"
    and "''a'' \<in> set (slice_at (dg_witnesses (en_dag run_late)) 0)" by code_simp+
  then show ?thesis
    using DetermineFame_verdicts [OF run_late_reachable, of "\<lambda>_. 0" 0
        "fst (DetermineFame (\<lambda>_. 0) run_late 0)" "''a''"]
    by (simp add: prod_eq_iff)
qed

text \<open>\<open>DetermineFame\<close> returns only while the finality channel has room for one verdict
  per witness; otherwise, with no reader, it blocks for ever.\<close>

theorem DetermineFame_returns:
  assumes "\<not> en_finalityClosed e" and "length (en_finality e) \<le> finality_cap"
  shows "snd (DetermineFame now e r) =
    (if GetWitnesses (en_dag e) r = [] then FameError ErrNoWitnesses
     else if length (en_finality e) + length (GetWitnesses (en_dag e) r) \<le> finality_cap
     then FameDone else FameBlocked)"
  using determine_loop_result [OF assms] by (auto simp: DetermineFame_def Let_def)

theorem DetermineFame_returns_witness:
  "snd (DetermineFame (\<lambda>_. 0) (insert_events [mk_event ''a'' ''v1'' [] 0]
      (NewConsensusEngine NewDAG)) 0) = FameDone"
proof -
  let ?e = "insert_events [mk_event ''a'' ''v1'' [] 0] (NewConsensusEngine NewDAG)"
  have "\<not> en_finalityClosed ?e" "length (en_finality ?e) \<le> finality_cap"
    "length (GetWitnesses (en_dag ?e) 0) = 1" "en_finality ?e = []" by code_simp+
  then show ?thesis
    using DetermineFame_returns [of ?e "\<lambda>_. 0" 0] by (auto simp: finality_cap_def)
qed

text \<open>Fame is not permanent: an event can be famous and finalized, and a second call of
  \<open>DetermineFame\<close> for its round, after two late witnesses of the next round, takes the fame
  back while the finality stays.\<close>

theorem fame_revoked:
  "\<exists>e e' i. engine_reachable e \<and> dg_famous (en_dag e) i \<and> dg_finalized (en_dag e) i \<and>
     DetermineFame (\<lambda>_. 0) e 0 = (e', FameDone) \<and>
     \<not> dg_famous (en_dag e') i \<and> dg_finalized (en_dag e') i"
proof (intro exI conjI)
  let ?r = "DetermineFame (\<lambda>_. 0) run_late 0"
  show "engine_reachable run_late" by (rule run_late_reachable)
  show "dg_famous (en_dag run_late) ''a''" "dg_finalized (en_dag run_late) ''a''" by code_simp+
  have "snd ?r = FameDone" by code_simp
  then show "?r = (fst ?r, FameDone)" by (simp add: prod_eq_iff)
  show "\<not> dg_famous (en_dag (fst ?r)) ''a''" "dg_finalized (en_dag (fst ?r)) ''a''" by code_simp+
qed

section \<open>Without fame there is no finality\<close>

text \<open>
  The steps other than \<open>DetermineFame\<close>: no code outside the tests calls it. A graph in which
  nothing is famous or finalized stays one.
\<close>

definition undecided :: "DAG \<Rightarrow> bool" where
  "undecided d \<longleftrightarrow> (\<forall>i. \<not> dg_famous d i \<and> \<not> dg_finalized d i)"

lemma undecided_NewDAG [simp]: "undecided NewDAG"
  by (simp add: undecided_def NewDAG_def)

lemma undecided_AddEvent: "undecided d \<Longrightarrow> undecided (fst (AddEvent d ev))"
  by (cases ev; cases "accepts d (the ev)")
    (auto simp: undecided_def AddEvent_nil AddEvent_rejected AddEvent_frame)

lemma undecided_CheckFinality: "undecided (en_dag e) \<Longrightarrow> CheckFinality e i = (e, False)"
  by (auto simp: undecided_def CheckFinality_def Let_def split: option.splits)

lemma undecided_process_event:
  "undecided (en_dag e) \<Longrightarrow> process_event e ev = Ret e' \<Longrightarrow> undecided (en_dag e')"
  using process_event_dag [of e ev e'] undecided_AddEvent [of "en_dag e" ev]
  by (auto simp: undecided_CheckFinality)

end
