(* ===== verification/LogSpec.thy ===== *)
theory LogSpec
  imports Consensus
begin

text \<open>
  What the consensus engine promises, as a specification: a log that learns events, each once and
  for ever with its parents and transactions, and decides on an event only after all its
  ancestors. The engine refines it.
\<close>

section \<open>The log\<close>

record log_state =
  lg_known :: "string \<rightharpoonup> string list \<times> Transaction list"
  lg_decided :: "string set"

definition lg_parents :: "log_state \<Rightarrow> (string \<times> string) set" where
  "lg_parents l = {(i, p). \<exists>ps txs. lg_known l i = Some (ps, txs) \<and> p \<in> set ps}"

definition empty_log :: log_state where
  "empty_log = \<lparr>lg_known = Map.empty, lg_decided = {}\<rparr>"

inductive log_step :: "log_state \<Rightarrow> log_state \<Rightarrow> bool" where
  learn: "lg_known l i = None \<Longrightarrow> log_step l (l\<lparr>lg_known := (lg_known l)(i \<mapsto> (ps, txs))\<rparr>)"
| decide: "i \<in> dom (lg_known l) \<Longrightarrow> (\<forall>a. (i, a) \<in> (lg_parents l)\<^sup>+ \<longrightarrow> a \<in> lg_decided l) \<Longrightarrow>
    log_step l (l\<lparr>lg_decided := insert i (lg_decided l)\<rparr>)"

text \<open>A decided event is known, its ancestors are decided, and none of this changes.\<close>

definition log_ok :: "log_state \<Rightarrow> bool" where
  "log_ok l \<longleftrightarrow> lg_decided l \<subseteq> dom (lg_known l) \<and>
     (\<forall>i \<in> lg_decided l. \<forall>a. (i, a) \<in> (lg_parents l)\<^sup>+ \<longrightarrow> a \<in> lg_decided l)"

lemma lg_parents_learn:
  "lg_known l i = None \<Longrightarrow> lg_parents (l\<lparr>lg_known := (lg_known l)(i \<mapsto> (ps, txs))\<rparr>) = lg_parents l \<union> {i} \<times> set ps"
  by (auto simp: lg_parents_def split: if_splits)

lemma log_ok_step: "log_step l l' \<Longrightarrow> log_ok l \<Longrightarrow> log_ok l'"
proof (induction rule: log_step.induct)
  case (learn l i ps txs)
  let ?l = "l\<lparr>lg_known := (lg_known l)(i \<mapsto> (ps, txs))\<rparr>"
  have "a \<in> lg_decided l" if "(j, a) \<in> (lg_parents ?l)\<^sup>+" "j \<in> lg_decided l" for j a
    using that
  proof (induction rule: trancl_induct)
    case (base a)
    then have "(j, a) \<in> lg_parents l" using learn by (auto simp: lg_parents_learn log_ok_def)
    with base learn show ?case by (auto simp: log_ok_def)
  next
    case (step a b)
    then have "(a, b) \<in> lg_parents l" using learn by (auto simp: lg_parents_learn log_ok_def)
    with step learn show ?case by (auto simp: log_ok_def)
  qed
  with learn show ?case by (auto simp: log_ok_def)
next
  case (decide i l)
  have "lg_parents (l\<lparr>lg_decided := D\<rparr>) = lg_parents l" for D by (simp add: lg_parents_def)
  with decide show ?case by (auto simp: log_ok_def)
qed

interpretation sound_logs: keeping_steps log_step log_ok
  by unfold_locales (rule log_ok_step)

text \<open>The log of an engine.\<close>

definition log_of :: "DAG \<Rightarrow> log_state" where
  "log_of d = \<lparr>lg_known = (\<lambda>i. map_option (\<lambda>e. (ev_Parents e, ev_Transactions e)) (event_of d i)),
     lg_decided = finalized_set d\<rparr>"

lemma lg_parents_log_of: "lg_parents (log_of d) = parent_rel d"
  by (auto simp: lg_parents_def log_of_def parent_rel_def)

lemma lg_decided_log_of [simp]: "lg_decided (log_of d) = finalized_set d"
  by (simp add: log_of_def)

lemma log_of_NewDAG: "log_of NewDAG = empty_log"
  by (simp add: log_of_def empty_log_def NewDAG_def finalized_set_def)

lemma log_AddEvent: "log_step\<^sup>*\<^sup>* (log_of d) (log_of (fst (AddEvent d ev)))"
proof (cases "\<exists>e. ev = Some e \<and> accepts d e")
  case False
  then show ?thesis by (cases ev) (auto simp: AddEvent_nil AddEvent_rejected)
next
  case True
  then obtain e where e: "ev = Some e" "accepts d e" by blast
  then have "log_of (fst (AddEvent d ev)) =
      (log_of d)\<lparr>lg_known := (lg_known (log_of d))(ev_Id e \<mapsto> (ev_Parents e, ev_Transactions e))\<rparr>"
    by (auto simp: log_of_def AddEvent_effect AddEvent_frame finalized_set_def fun_eq_iff)
  moreover have "lg_known (log_of d) (ev_Id e) = None" using e(2) by (simp add: log_of_def accepts_def)
  ultimately show ?thesis by (auto intro: log_step.learn)
qed

lemma log_set_metadata [simp]: "log_of (set_metadata d i m) = log_of d"
  by (auto simp: log_of_def event_of_set_metadata finalized_set_def option.map_comp comp_def)

lemma log_mark_famous [simp]: "log_of (mark_famous d w b) = log_of d"
  by (simp add: mark_famous_def Let_def) (simp add: log_of_def finalized_set_def)

lemma log_CheckFinality: "log_step\<^sup>*\<^sup>* (log_of (en_dag e)) (log_of (en_dag (fst (CheckFinality e i))))"
  using CheckFinality_cases [of e i]
proof (elim disjE exE conjE)
  fix event
  assume ev: "event_of (en_dag e) i = Some event" and anc: "GetAncestors (en_dag e) i \<subseteq> finalized_set (en_dag e)"
    and result: "fst (CheckFinality e i) = e\<lparr>en_dag :=
        set_metadata ((en_dag e)\<lparr>dg_finalized := (dg_finalized (en_dag e))(i := True)\<rparr>) i
          ((metadata_of event)\<lparr>md_IsFinalized := True\<rparr>)\<rparr>"
  let ?l = "log_of (en_dag e)"
  have "log_of (en_dag (fst (CheckFinality e i))) = ?l\<lparr>lg_decided := insert i (lg_decided ?l)\<rparr>"
    by (simp add: result) (auto simp: log_of_def finalized_set_def)
  moreover have "i \<in> dom (lg_known ?l)" using ev by (simp add: log_of_def domI)
  moreover have "\<forall>a. (i, a) \<in> (lg_parents ?l)\<^sup>+ \<longrightarrow> a \<in> lg_decided ?l"
    using anc by (auto simp: lg_parents_log_of GetAncestors_eq)
  ultimately show ?thesis using log_step.decide [of i ?l] by (simp only: r_into_rtranclp)
qed simp

lemma log_determine_loop [simp]: "log_of (en_dag (fst (determine_loop now r ws e))) = log_of (en_dag e)"
  by (induction ws arbitrary: e) (auto simp: Let_def)

lemma engine_step_log: "engine_step e e' \<Longrightarrow> log_step\<^sup>*\<^sup>* (log_of (en_dag e)) (log_of (en_dag e'))"
proof (erule engine_step_graph [where P = "\<lambda>d. log_step\<^sup>*\<^sup>* (log_of (en_dag e)) (log_of d)"])
  fix d ev assume "log_step\<^sup>*\<^sup>* (log_of (en_dag e)) (log_of d)"
  then show "log_step\<^sup>*\<^sup>* (log_of (en_dag e)) (log_of (fst (AddEvent d ev)))"
    using log_AddEvent by (rule rtranclp_trans)
next
  fix f :: Engine and i assume "log_step\<^sup>*\<^sup>* (log_of (en_dag e)) (log_of (en_dag f))"
  then show "log_step\<^sup>*\<^sup>* (log_of (en_dag e)) (log_of (en_dag (fst (CheckFinality f i))))"
    using log_CheckFinality by (rule rtranclp_trans)
qed (auto simp: DetermineFame_def Let_def)

interpretation engine_log: refinement engine_step "\<lambda>e. True" log_step "\<lambda>e. log_of (en_dag e)"
  by unfold_locales (simp_all add: engine_step_log)

lemma reachable_run: "engine_reachable e \<Longrightarrow> engine_step\<^sup>*\<^sup>* (NewConsensusEngine NewDAG) e"
  by (induction rule: engine_reachable.induct) (auto intro: rtranclp.rtrancl_into_rtrancl)

section \<open>Properties\<close>

text \<open>C3: the engine refines the log: whatever steps it takes, its events and verdicts of finality
  change only by learning a new event or by deciding on a known one whose ancestors are all
  decided.\<close>

theorem engine_refines_log:
  assumes "engine_step\<^sup>*\<^sup>* (NewConsensusEngine NewDAG) e"
  shows "log_step\<^sup>*\<^sup>* empty_log (log_of (en_dag e)) \<and> log_ok (log_of (en_dag e))"
proof -
  have run: "log_step\<^sup>*\<^sup>* empty_log (log_of (en_dag e))"
    using engine_log.simulated_run [OF assms] by (simp add: NewConsensusEngine_def log_of_NewDAG)
  moreover have "log_ok empty_log" by (simp add: log_ok_def empty_log_def)
  ultimately show ?thesis using sound_logs.run by blast
qed

theorem engine_refines_log_witness:
  "''a'' \<in> lg_decided (log_of (en_dag run_late)) \<and> log_ok (log_of (en_dag run_late))"
proof -
  have "engine_step\<^sup>*\<^sup>* (NewConsensusEngine NewDAG) run_late"
    by (rule reachable_run [OF run_late_reachable])
  moreover have "dg_finalized (en_dag run_late) ''a''" by code_simp
  ultimately show ?thesis
    using engine_refines_log by (auto simp: log_of_def finalized_set_def)
qed

end
