(* ===== verification/StateMachine.thy ===== *)
theory StateMachine
  imports Consensus
begin

text \<open>
  The state machine of \<open>pkg/state/state.go\<close>. An \<open>*AccountState\<close> is reached through the map
  \<open>accounts\<close> by its address, and each handler reads and writes through that map in the order
  of the code: a sender that is also the recipient is one account, as it is one object there.
  A handler returns the state also when it fails, for the code does not roll back.
\<close>

section \<open>State\<close>

record AccountState =
  ast_Address :: string
  ast_Balance :: u64
  ast_Nonce :: u64
  ast_PublicKey :: bytes
  ast_Tokens :: balances
  ast_NFTs :: "string list"
  ast_Delegated :: u64
  ast_Validator :: string

record StateMachine =
  sm_consensus :: Engine
  sm_accounts :: "string \<rightharpoonup> AccountState"
  sm_tokens :: "string \<rightharpoonup> Token"
  sm_nfts :: "(string \<times> NFT) list"

definition NewStateMachine :: "Engine \<Rightarrow> StateMachine" where
  "NewStateMachine e = \<lparr>sm_consensus = e, sm_accounts = Map.empty, sm_tokens = Map.empty,
     sm_nfts = []\<rparr>"

datatype verify_error = NonceZero | FeeTooLow | SenderNotFound | InvalidNonce | CannotPay

datatype sm_error =
    VerificationFailed verify_error
  | UnsupportedType
  | SenderMissing
  | InsufficientBalance
  | TokenExists
  | InsufficientTokens
  | InsufficientFee
  | CollectionExists
  | NFTExists
  | NFTNotFound
  | NotOwner
  | CommissionTooHigh

datatype sm_result = Done | Rejected sm_error | NilMapWrite

section \<open>Maps of balances\<close>

definition tokens_get :: "balances \<Rightarrow> string \<Rightarrow> u64" where
  "tokens_get b t = (case b of None \<Rightarrow> 0 | Some m \<Rightarrow> (case map_of m t of None \<Rightarrow> 0 | Some v \<Rightarrow> v))"

text \<open>A write to a nil map panics: \<open>None\<close>.\<close>

definition tokens_set :: "balances \<Rightarrow> string \<Rightarrow> u64 \<Rightarrow> balances option" where
  "tokens_set b t v = (case b of None \<Rightarrow> None | Some m \<Rightarrow> Some (Some (AList.update t v m)))"

section \<open>Accounts\<close>

definition fresh_account :: "string \<Rightarrow> AccountState" where
  "fresh_account a = \<lparr>ast_Address = a, ast_Balance = 0, ast_Nonce = 0, ast_PublicKey = [],
     ast_Tokens = Some [], ast_NFTs = [], ast_Delegated = 0, ast_Validator = []\<rparr>"

lemma fresh_account_simps [simp]:
  "ast_Address (fresh_account a) = a" "ast_Balance (fresh_account a) = 0"
  "ast_Nonce (fresh_account a) = 0" "ast_Tokens (fresh_account a) = Some []"
  "ast_NFTs (fresh_account a) = []" "ast_Delegated (fresh_account a) = 0"
  by (simp_all add: fresh_account_def)

definition sm_getOrCreateAccount :: "StateMachine \<Rightarrow> string \<Rightarrow> StateMachine" where
  "sm_getOrCreateAccount sm a =
     (case sm_accounts sm a of
        Some _ \<Rightarrow> sm
      | None \<Rightarrow> sm\<lparr>sm_accounts := (sm_accounts sm)(a \<mapsto> fresh_account a)\<rparr>)"

text \<open>The account a pointer leads to, and a write through that pointer.\<close>

definition sm_account :: "StateMachine \<Rightarrow> string \<Rightarrow> AccountState" where
  "sm_account sm a = (case sm_accounts sm a of None \<Rightarrow> fresh_account a | Some acc \<Rightarrow> acc)"

definition sm_write :: "string \<Rightarrow> (AccountState \<Rightarrow> AccountState) \<Rightarrow> StateMachine \<Rightarrow> StateMachine" where
  "sm_write a f sm = sm\<lparr>sm_accounts := (sm_accounts sm)(a \<mapsto> f (sm_account sm a))\<rparr>"

abbreviation debit :: "string \<Rightarrow> u64 \<Rightarrow> StateMachine \<Rightarrow> StateMachine" where
  "debit a v \<equiv> sm_write a (\<lambda>acc. acc\<lparr>ast_Balance := ast_Balance acc - v\<rparr>)"

definition sender_of :: "Transaction \<Rightarrow> string" where
  "sender_of tx = string_of_bytes (tx_PublicKey tx)"

fun sm_removeNFT :: "string \<Rightarrow> string list \<Rightarrow> string list" where
  "sm_removeNFT i [] = []"
| "sm_removeNFT i (x # xs) = (if x = i then xs else x # sm_removeNFT i xs)"

section \<open>Verification\<close>

definition getTransactionValue :: "Transaction \<Rightarrow> u64" where
  "getTransactionValue tx =
     (case tx_Payload tx of
        Transfer p \<Rightarrow> tp_Amount p
      | TransferToken p \<Rightarrow> tt_Amount p
      | _ \<Rightarrow> 0)"

definition verifyTransaction :: "StateMachine \<Rightarrow> Transaction \<Rightarrow> verify_error option" where
  "verifyTransaction sm tx =
     (if tx_Nonce tx = 0 then Some NonceZero
      else if tx_Fee tx < 1000 then Some FeeTooLow
      else case sm_accounts sm (sender_of tx) of
        None \<Rightarrow> Some SenderNotFound
      | Some account \<Rightarrow>
          if tx_Nonce tx \<le> ast_Nonce account then Some InvalidNonce
          else if ast_Balance account < tx_Fee tx + getTransactionValue tx then Some CannotPay
          else None)"

section \<open>Handlers\<close>

definition sm_executeTransfer :: "StateMachine \<Rightarrow> Transaction \<Rightarrow> TransferPayload \<Rightarrow>
    StateMachine \<times> sm_result" where
  "sm_executeTransfer sm tx transfer =
     (let sender = sender_of tx in
      if sm_accounts sm sender = None then (sm, Rejected SenderMissing)
      else
        let sm1 = sm_getOrCreateAccount sm (tp_To transfer) in
        if ast_Balance (sm_account sm1 sender) < tp_Amount transfer + tx_Fee tx
        then (sm1, Rejected InsufficientBalance)
        else
          let sm2 = debit sender (tp_Amount transfer + tx_Fee tx) sm1;
              sm3 = sm_write (tp_To transfer)
                      (\<lambda>acc. acc\<lparr>ast_Balance := ast_Balance acc + tp_Amount transfer\<rparr>) sm2
          in (sm_write sender (\<lambda>acc. acc\<lparr>ast_Nonce := tx_Nonce tx\<rparr>) sm3, Done))"

definition sm_new_token :: "CreateTokenPayload \<Rightarrow> Token" where
  "sm_new_token create = \<lparr>tk_TokenId = ct_TokenId create, tk_Name = ct_Name create,
     tk_Symbol = ct_Symbol create, tk_Decimals = ct_Decimals create,
     tk_TotalSupply = ct_InitialSupply create, tk_AdminAddress = ct_AdminAddress create,
     tk_MetadataUri = [], tk_Mintable = ct_Mintable create, tk_Burnable = ct_Burnable create,
     tk_Pausable = False, tk_Blacklistable = False, tk_Paused = False,
     tk_BlacklistedAddresses = []\<rparr>"

definition sm_executeCreateToken :: "StateMachine \<Rightarrow> Transaction \<Rightarrow> CreateTokenPayload \<Rightarrow>
    StateMachine \<times> sm_result" where
  "sm_executeCreateToken sm tx create =
     (if sm_tokens sm (ct_TokenId create) \<noteq> None then (sm, Rejected TokenExists)
      else
        let token = sm_new_token create;
            sm1 = sm\<lparr>sm_tokens := (sm_tokens sm)(ct_TokenId create \<mapsto> token)\<rparr>;
            sm2 = sm_getOrCreateAccount sm1 (ct_AdminAddress create)
        in case tokens_set (ast_Tokens (sm_account sm2 (ct_AdminAddress create)))
                  (ct_TokenId create) (ct_InitialSupply create) of
             None \<Rightarrow> (sm2, NilMapWrite)
           | Some b \<Rightarrow> (sm_write (ct_AdminAddress create) (\<lambda>acc. acc\<lparr>ast_Tokens := b\<rparr>) sm2, Done))"

text \<open>\<open>Tokens[t] += v\<close> of one account; \<open>None\<close> when its map is nil.\<close>

definition add_tokens :: "string \<Rightarrow> string \<Rightarrow> u64 \<Rightarrow> StateMachine \<Rightarrow> StateMachine option" where
  "add_tokens a t v sm =
     (let b = ast_Tokens (sm_account sm a) in
      case tokens_set b t (tokens_get b t + v) of
        None \<Rightarrow> None
      | Some b' \<Rightarrow> Some (sm_write a (\<lambda>acc. acc\<lparr>ast_Tokens := b'\<rparr>) sm))"

definition sm_executeTransferToken :: "StateMachine \<Rightarrow> Transaction \<Rightarrow> TransferTokenPayload \<Rightarrow>
    StateMachine \<times> sm_result" where
  "sm_executeTransferToken sm tx transfer =
     (let sender = sender_of tx;
          sm1 = sm_getOrCreateAccount sm sender;
          sm2 = sm_getOrCreateAccount sm1 (tt_To transfer) in
      if tokens_get (ast_Tokens (sm_account sm2 sender)) (tt_TokenId transfer) < tt_Amount transfer
      then (sm2, Rejected InsufficientTokens)
      else case add_tokens sender (tt_TokenId transfer) (- tt_Amount transfer) sm2 of
        None \<Rightarrow> (sm2, NilMapWrite)
      | Some sm3 \<Rightarrow>
          (case add_tokens (tt_To transfer) (tt_TokenId transfer) (tt_Amount transfer) sm3 of
             None \<Rightarrow> (sm3, NilMapWrite)
           | Some sm4 \<Rightarrow>
               if ast_Balance (sm_account sm4 sender) < tx_Fee tx
               then (sm4, Rejected InsufficientFee)
               else (debit sender (tx_Fee tx) sm4, Done)))"

definition sm_executeCreateCollection :: "StateMachine \<Rightarrow> Transaction \<Rightarrow> CreateCollectionPayload \<Rightarrow>
    StateMachine \<times> sm_result" where
  "sm_executeCreateCollection sm tx create =
     (if \<exists>nft \<in> snd ` set (sm_nfts sm). nf_CollectionId nft = cc_CollectionId create
      then (sm, Rejected CollectionExists) else (sm, Done))"

definition nft_id :: "string \<Rightarrow> string \<Rightarrow> string" where
  "nft_id collection nft = collection @ ''-'' @ nft"

definition sm_executeMintNFT :: "StateMachine \<Rightarrow> Transaction \<Rightarrow> MintNFTPayload \<Rightarrow>
    StateMachine \<times> sm_result" where
  "sm_executeMintNFT sm tx mint =
     (let i = nft_id (mn_CollectionId mint) (mn_NftId mint) in
      if map_of (sm_nfts sm) i \<noteq> None then (sm, Rejected NFTExists)
      else
        let nft = \<lparr>nf_CollectionId = mn_CollectionId mint, nf_NftId = mn_NftId mint,
              nf_Owner = mn_Owner mint, nf_MetadataUri = mn_MetadataUri mint,
              nf_Attributes = mn_Attributes mint, nf_MetadataHash = mn_MetadataHash mint,
              nf_IsBurned = False, nf_MintHeight = 1\<rparr>;
            sm1 = sm\<lparr>sm_nfts := AList.update i nft (sm_nfts sm)\<rparr>;
            sm2 = sm_getOrCreateAccount sm1 (mn_Owner mint);
            sm3 = sm_write (mn_Owner mint) (\<lambda>acc. acc\<lparr>ast_NFTs := ast_NFTs acc @ [i]\<rparr>) sm2;
            payer = sender_of tx;
            sm4 = sm_getOrCreateAccount sm3 payer
        in if ast_Balance (sm_account sm4 payer) < tx_Fee tx then (sm4, Rejected InsufficientFee)
           else (debit payer (tx_Fee tx) sm4, Done))"

definition sm_executeTransferNFT :: "StateMachine \<Rightarrow> Transaction \<Rightarrow> TransferNFTPayload \<Rightarrow>
    StateMachine \<times> sm_result" where
  "sm_executeTransferNFT sm tx transfer =
     (let i = nft_id (tn_CollectionId transfer) (tn_NftId transfer) in
      case map_of (sm_nfts sm) i of
        None \<Rightarrow> (sm, Rejected NFTNotFound)
      | Some nft \<Rightarrow>
          let sender = sender_of tx in
          if nf_Owner nft \<noteq> sender then (sm, Rejected NotOwner)
          else
            let sm1 = sm_getOrCreateAccount sm sender;
                sm2 = sm_getOrCreateAccount sm1 (tn_To transfer);
                sm3 = sm2\<lparr>sm_nfts := AList.update i (nft\<lparr>nf_Owner := tn_To transfer\<rparr>) (sm_nfts sm2)\<rparr>;
                sm4 = sm_write sender (\<lambda>acc. acc\<lparr>ast_NFTs := sm_removeNFT i (ast_NFTs acc)\<rparr>) sm3;
                sm5 = sm_write (tn_To transfer) (\<lambda>acc. acc\<lparr>ast_NFTs := ast_NFTs acc @ [i]\<rparr>) sm4
            in if ast_Balance (sm_account sm5 sender) < tx_Fee tx
               then (sm5, Rejected InsufficientFee)
               else (debit sender (tx_Fee tx) sm5, Done))"

definition sm_executeCreateValidator :: "StateMachine \<Rightarrow> Transaction \<Rightarrow> CreateValidatorPayload \<Rightarrow>
    StateMachine \<times> sm_result" where
  "sm_executeCreateValidator sm tx create =
     (if cv_CommissionRate create > 100000000 then (sm, Rejected CommissionTooHigh)
      else
        let v = \<lparr>vl_Address = cv_ValidatorAddress create, vl_PublicKey = cv_PublicKey create,
              vl_Stake = 100000000, vl_Commissions = 0, vl_IsActive = True\<rparr>;
            sm1 = sm\<lparr>sm_consensus := AddValidator (sm_consensus sm) v\<rparr>;
            creator = sender_of tx;
            sm2 = sm_getOrCreateAccount sm1 creator
        in if ast_Balance (sm_account sm2 creator) < tx_Fee tx then (sm2, Rejected InsufficientFee)
           else (debit creator (tx_Fee tx) sm2, Done))"

text \<open>\<open>validator.Stake += ...\<close> through the pointer \<open>GetValidator\<close> returns.\<close>

definition add_stake :: "string \<Rightarrow> u64 \<Rightarrow> Engine \<Rightarrow> Engine" where
  "add_stake a v e =
     (case GetValidator e a of
        None \<Rightarrow> e
      | Some w \<Rightarrow> e\<lparr>en_validators := (en_validators e)(a \<mapsto> w\<lparr>vl_Stake := vl_Stake w + v\<rparr>)\<rparr>)"

definition sm_executeDelegateStake :: "StateMachine \<Rightarrow> Transaction \<Rightarrow> StakePayload \<Rightarrow>
    StateMachine \<times> sm_result" where
  "sm_executeDelegateStake sm tx delegate =
     (let delegator = sender_of tx;
          sm1 = sm_getOrCreateAccount sm delegator in
      if ast_Balance (sm_account sm1 delegator) < sp_Amount delegate + tx_Fee tx
      then (sm1, Rejected InsufficientBalance)
      else
        let sm2 = sm_write delegator (\<lambda>acc. acc\<lparr>
              ast_Balance := ast_Balance acc - (sp_Amount delegate + tx_Fee tx),
              ast_Delegated := ast_Delegated acc + sp_Amount delegate,
              ast_Validator := sp_ValidatorAddress delegate\<rparr>) sm1
        in (sm2\<lparr>sm_consensus :=
              add_stake (sp_ValidatorAddress delegate) (sp_Amount delegate) (sm_consensus sm2)\<rparr>, Done))"

definition ExecuteTransaction :: "StateMachine \<Rightarrow> Transaction \<Rightarrow> StateMachine \<times> sm_result" where
  "ExecuteTransaction sm tx =
     (case verifyTransaction sm tx of
        Some err \<Rightarrow> (sm, Rejected (VerificationFailed err))
      | None \<Rightarrow>
          (case tx_Payload tx of
             Transfer p \<Rightarrow> sm_executeTransfer sm tx p
           | CreateToken p \<Rightarrow> sm_executeCreateToken sm tx p
           | TransferToken p \<Rightarrow> sm_executeTransferToken sm tx p
           | CreateCollection p \<Rightarrow> sm_executeCreateCollection sm tx p
           | MintNft p \<Rightarrow> sm_executeMintNFT sm tx p
           | TransferNft p \<Rightarrow> sm_executeTransferNFT sm tx p
           | CreateValidator p \<Rightarrow> sm_executeCreateValidator sm tx p
           | DelegateStake p \<Rightarrow> sm_executeDelegateStake sm tx p
           | _ \<Rightarrow> (sm, Rejected UnsupportedType)))"

section \<open>Reads after writes\<close>

lemma sm_account_simps [simp]:
  "sm_account (sm_getOrCreateAccount sm a) b = sm_account sm b"
  "sm_account (sm_write a f sm) b = (if a = b then f (sm_account sm b) else sm_account sm b)"
  "sm_account (sm\<lparr>sm_tokens := ts\<rparr>) b = sm_account sm b"
  "sm_account (sm\<lparr>sm_nfts := ns\<rparr>) b = sm_account sm b"
  "sm_account (sm\<lparr>sm_consensus := e\<rparr>) b = sm_account sm b"
  by (auto simp: sm_account_def sm_getOrCreateAccount_def sm_write_def split: option.splits)

lemma sm_write_frame [simp]:
  "sm_tokens (sm_write a f sm) = sm_tokens sm"
  "sm_nfts (sm_write a f sm) = sm_nfts sm"
  "sm_consensus (sm_write a f sm) = sm_consensus sm"
  "sm_tokens (sm_getOrCreateAccount sm a) = sm_tokens sm"
  "sm_nfts (sm_getOrCreateAccount sm a) = sm_nfts sm"
  "sm_consensus (sm_getOrCreateAccount sm a) = sm_consensus sm"
  by (simp_all add: sm_write_def sm_getOrCreateAccount_def split: option.splits)

lemma finite_accounts [simp]:
  "finite (dom (sm_accounts (sm_write a f sm))) = finite (dom (sm_accounts sm))"
  "finite (dom (sm_accounts (sm_getOrCreateAccount sm a))) = finite (dom (sm_accounts sm))"
  by (simp_all add: sm_write_def sm_getOrCreateAccount_def split: option.splits)

text \<open>The sum of a measure over all accounts; a fresh account counts nothing.\<close>

definition total_of :: "(AccountState \<Rightarrow> nat) \<Rightarrow> StateMachine \<Rightarrow> nat" where
  "total_of f sm = map_total f (sm_accounts sm)"

lemma total_frame [simp]:
  "total_of f (sm\<lparr>sm_tokens := ts\<rparr>) = total_of f sm"
  "total_of f (sm\<lparr>sm_nfts := ns\<rparr>) = total_of f sm"
  "total_of f (sm\<lparr>sm_consensus := e\<rparr>) = total_of f sm"
  by (simp_all add: total_of_def)

lemma total_create:
  "finite (dom (sm_accounts sm)) \<Longrightarrow> f (fresh_account a) = 0 \<Longrightarrow>
     total_of f (sm_getOrCreateAccount sm a) = total_of f sm"
  by (auto simp: total_of_def sm_getOrCreateAccount_def map_total_new split: option.splits)

lemma total_write:
  assumes "finite (dom (sm_accounts sm))" and "f (fresh_account a) = 0"
  shows "total_of f (sm_write a g sm) + f (sm_account sm a) = total_of f sm + f (g (sm_account sm a))"
  using map_total_upd [OF assms(1), of f a "g (sm_account sm a)"] assms(2)
  by (cases "sm_accounts sm a") (simp_all add: total_of_def sm_write_def sm_account_def)

lemma total_write_same:
  assumes "finite (dom (sm_accounts sm))" and "f (fresh_account a) = 0"
    and "f (g (sm_account sm a)) = f (sm_account sm a)"
  shows "total_of f (sm_write a g sm) = total_of f sm"
  using total_write [where f = f and a = a, OF assms(1,2), of g] assms(3) by simp

lemma total_ge:
  "finite (dom (sm_accounts sm)) \<Longrightarrow> f (fresh_account a) = 0 \<Longrightarrow> f (sm_account sm a) \<le> total_of f sm"
  by (cases "sm_accounts sm a") (auto simp: total_of_def sm_account_def intro: map_total_ge)

section \<open>Native coins\<close>

definition coins :: "AccountState \<Rightarrow> nat" where
  "coins acc = unat (ast_Balance acc) + unat (ast_Delegated acc)"

lemma coins_fresh [simp]: "coins (fresh_account a) = 0"
  by (simp add: coins_def)

lemma total_debit:
  assumes "finite (dom (sm_accounts sm))" and "v \<le> ast_Balance (sm_account sm a)"
  shows "total_of coins (debit a v sm) + unat v = total_of coins sm"
  using total_write [OF assms(1), of coins a "\<lambda>acc. acc\<lparr>ast_Balance := ast_Balance acc - v\<rparr>"] assms(2)
  by (simp add: coins_def word_le_nat_alt)

lemma total_credit:
  assumes "finite (dom (sm_accounts sm))" and "total_of coins sm + unat v < 18446744073709551616"
  shows "total_of coins (sm_write a (\<lambda>acc. acc\<lparr>ast_Balance := ast_Balance acc + v\<rparr>) sm) =
    total_of coins sm + unat v"
proof -
  have "coins (sm_account sm a) \<le> total_of coins sm" using assms(1) by (intro total_ge) simp_all
  with assms(2) have "unat (ast_Balance (sm_account sm a) + v) = unat (ast_Balance (sm_account sm a)) + unat v"
    by (intro unat_add_no_overflow) (simp add: coins_def)
  then show ?thesis
    using total_write [OF assms(1), of coins a "\<lambda>acc. acc\<lparr>ast_Balance := ast_Balance acc + v\<rparr>"]
    by (simp add: coins_def)
qed

lemma total_coins_same [simp]:
  "finite (dom (sm_accounts sm)) \<Longrightarrow> total_of coins (sm_getOrCreateAccount sm a) = total_of coins sm"
  "finite (dom (sm_accounts sm)) \<Longrightarrow>
     total_of coins (sm_write a (\<lambda>acc. acc\<lparr>ast_NFTs := n acc\<rparr>) sm) = total_of coins sm"
  "finite (dom (sm_accounts sm)) \<Longrightarrow>
     total_of coins (sm_write a (\<lambda>acc. acc\<lparr>ast_Nonce := k\<rparr>) sm) = total_of coins sm"
  "finite (dom (sm_accounts sm)) \<Longrightarrow>
     total_of coins (sm_write a (\<lambda>acc. acc\<lparr>ast_Tokens := b\<rparr>) sm) = total_of coins sm"
  by (auto intro!: total_create total_write_same simp: coins_def)

lemma add_tokens_Some:
  assumes "add_tokens a t v sm = Some sm'"
  obtains b where "sm' = sm_write a (\<lambda>acc. acc\<lparr>ast_Tokens := b\<rparr>) sm"
    "tokens_set (ast_Tokens (sm_account sm a)) t (tokens_get (ast_Tokens (sm_account sm a)) t + v) = Some b"
  using assms by (auto simp: add_tokens_def Let_def split: option.splits)

lemma add_tokens_coins:
  "add_tokens a t v sm = Some sm' \<Longrightarrow> finite (dom (sm_accounts sm)) \<Longrightarrow>
     finite (dom (sm_accounts sm')) \<and> total_of coins sm' = total_of coins sm"
  by (elim add_tokens_Some) simp

text \<open>What a successful transaction burns: its fee, where the handler charges it.\<close>

definition burned :: "Transaction \<Rightarrow> nat" where
  "burned tx = (case tx_Payload tx of
     CreateToken _ \<Rightarrow> 0 | CreateCollection _ \<Rightarrow> 0 | _ \<Rightarrow> unat (tx_Fee tx))"

text \<open>The amount that is added to the fee in 64 bits.\<close>

definition spent_with_fee :: "Transaction \<Rightarrow> u64" where
  "spent_with_fee tx = (case tx_Payload tx of
     Transfer p \<Rightarrow> tp_Amount p | DelegateStake p \<Rightarrow> sp_Amount p | _ \<Rightarrow> 0)"

definition charge :: "sm_result \<Rightarrow> nat \<Rightarrow> nat" where
  "charge r v = (if r = Done then v else 0)"

lemma charge_simps [simp]:
  "charge Done v = v" "charge (Rejected err) v = 0" "charge NilMapWrite v = 0" "r \<noteq> Done \<Longrightarrow> charge r v = 0"
  "charge r 0 = 0"
  by (simp_all add: charge_def)

lemma transfer_coins:
  assumes fin: "finite (dom (sm_accounts sm))" and total: "total_of coins sm < 18446744073709551616"
    and sum: "unat (tp_Amount p) + unat (tx_Fee tx) < 18446744073709551616"
    and result: "sm_executeTransfer sm tx p = (sm', r)"
  shows "total_of coins sm' + charge r (unat (tx_Fee tx)) = total_of coins sm"
proof (cases "r = Done")
  case False
  with result fin show ?thesis
    by (auto simp: sm_executeTransfer_def Let_def split: if_splits)
next
  case True
  let ?s = "sender_of tx" and ?v = "tp_Amount p + tx_Fee tx"
  let ?sm1 = "sm_getOrCreateAccount sm (tp_To p)"
  let ?sm2 = "debit ?s ?v ?sm1"
  let ?sm3 = "sm_write (tp_To p) (\<lambda>acc. acc\<lparr>ast_Balance := ast_Balance acc + tp_Amount p\<rparr>) ?sm2"
  from True result have ok: "?v \<le> ast_Balance (sm_account ?sm1 ?s)"
    and sm': "sm' = sm_write ?s (\<lambda>acc. acc\<lparr>ast_Nonce := tx_Nonce tx\<rparr>) ?sm3"
    by (auto simp: sm_executeTransfer_def Let_def not_less split: if_splits)
  have v: "unat ?v = unat (tp_Amount p) + unat (tx_Fee tx)" using sum by simp
  have "total_of coins ?sm2 + unat ?v = total_of coins sm"
    using total_debit [OF _ ok] fin by simp
  moreover from this have "total_of coins ?sm3 = total_of coins ?sm2 + unat (tp_Amount p)"
    using fin total v by (intro total_credit) simp_all
  ultimately show ?thesis using True fin v by (simp add: sm')
qed

lemma delegate_coins:
  assumes fin: "finite (dom (sm_accounts sm))" and total: "total_of coins sm < 18446744073709551616"
    and sum: "unat (sp_Amount p) + unat (tx_Fee tx) < 18446744073709551616"
    and result: "sm_executeDelegateStake sm tx p = (sm', r)"
  shows "total_of coins sm' + charge r (unat (tx_Fee tx)) = total_of coins sm"
proof (cases "r = Done")
  case False
  with result fin show ?thesis
    by (auto simp: sm_executeDelegateStake_def Let_def split: if_splits)
next
  case True
  let ?s = "sender_of tx" and ?v = "sp_Amount p + tx_Fee tx"
  let ?f = "\<lambda>acc. acc\<lparr>ast_Balance := ast_Balance acc - ?v,
      ast_Delegated := ast_Delegated acc + sp_Amount p, ast_Validator := sp_ValidatorAddress p\<rparr>"
  let ?acc = "sm_account sm ?s"
  let ?sm1 = "sm_getOrCreateAccount sm ?s"
  from True result have ok: "?v \<le> ast_Balance ?acc"
    and sm': "total_of coins sm' = total_of coins (sm_write ?s ?f ?sm1)"
    by (auto simp: sm_executeDelegateStake_def Let_def not_less split: if_splits)
  have v: "unat ?v = unat (sp_Amount p) + unat (tx_Fee tx)" using sum by simp
  have "coins ?acc \<le> total_of coins sm" using fin by (intro total_ge) simp_all
  then have "unat (ast_Delegated ?acc + sp_Amount p) = unat (ast_Delegated ?acc) + unat (sp_Amount p)"
    using total ok v by (intro unat_add_no_overflow) (simp add: coins_def word_le_nat_alt)
  then have "coins (?f ?acc) + unat (tx_Fee tx) = coins ?acc"
    using ok v by (simp add: coins_def word_le_nat_alt)
  then show ?thesis
    using total_write [of ?sm1 coins ?s ?f] fin True by (simp add: sm')
qed

lemma token_transfer_coins:
  assumes fin: "finite (dom (sm_accounts sm))"
    and result: "sm_executeTransferToken sm tx p = (sm', r)"
  shows "total_of coins sm' + charge r (unat (tx_Fee tx)) = total_of coins sm"
proof -
  let ?sm2 = "sm_getOrCreateAccount (sm_getOrCreateAccount sm (sender_of tx)) (tt_To p)"
  have fin2: "finite (dom (sm_accounts ?sm2))" "total_of coins ?sm2 = total_of coins sm"
    using fin by simp_all
  from result consider "sm' = ?sm2" "r \<noteq> Done"
    | a where "add_tokens (sender_of tx) (tt_TokenId p) (- tt_Amount p) ?sm2 = Some a" "sm' = a" "r \<noteq> Done"
    | a b where "add_tokens (sender_of tx) (tt_TokenId p) (- tt_Amount p) ?sm2 = Some a"
      "add_tokens (tt_To p) (tt_TokenId p) (tt_Amount p) a = Some b"
      "sm' = b \<and> r \<noteq> Done \<or> sm' = debit (sender_of tx) (tx_Fee tx) b \<and> r = Done \<and>
         tx_Fee tx \<le> ast_Balance (sm_account b (sender_of tx))"
    by (auto simp: sm_executeTransferToken_def Let_def split: if_splits option.splits)
  then show ?thesis
  proof cases
    case 2
    with add_tokens_coins [OF 2(1) fin2(1)] fin2(2) show ?thesis by simp
  next
    case 3
    from add_tokens_coins [OF 3(1) fin2(1)] add_tokens_coins [OF 3(2)] fin2(2)
    have "finite (dom (sm_accounts b))" "total_of coins b = total_of coins sm" by auto
    with 3(3) total_debit [of b "tx_Fee tx" "sender_of tx"] show ?thesis by auto
  qed (use fin2 in simp)
qed

lemma total_fee:
  assumes "finite (dom (sm_accounts sm))" and "\<not> ast_Balance (sm_account sm a) < v"
  shows "total_of coins (debit a v sm) + unat v = total_of coins sm"
  using assms by (intro total_debit) (simp_all add: not_less)

lemma handlers_coins:
  assumes fin: "finite (dom (sm_accounts sm))"
  shows
    "sm_executeCreateToken sm tx ct = (sm', r) \<Longrightarrow> total_of coins sm' = total_of coins sm"
    "sm_executeCreateCollection sm tx cc = (sm', r) \<Longrightarrow> total_of coins sm' = total_of coins sm"
    "sm_executeMintNFT sm tx mn = (sm', r) \<Longrightarrow>
       total_of coins sm' + charge r (unat (tx_Fee tx)) = total_of coins sm"
    "sm_executeTransferNFT sm tx tn = (sm', r) \<Longrightarrow>
       total_of coins sm' + charge r (unat (tx_Fee tx)) = total_of coins sm"
    "sm_executeCreateValidator sm tx cv = (sm', r) \<Longrightarrow>
       total_of coins sm' + charge r (unat (tx_Fee tx)) = total_of coins sm"
  using fin
  by (auto simp: sm_executeCreateToken_def sm_executeCreateCollection_def sm_executeMintNFT_def
      sm_executeTransferNFT_def sm_executeCreateValidator_def Let_def total_fee
      split: if_splits option.splits)

lemma ExecuteTransaction_coins:
  assumes fin: "finite (dom (sm_accounts sm))" and total: "total_of coins sm < 18446744073709551616"
    and sum: "unat (spent_with_fee tx) + unat (tx_Fee tx) < 18446744073709551616"
    and result: "ExecuteTransaction sm tx = (sm', r)"
  shows "total_of coins sm' + charge r (burned tx) = total_of coins sm"
proof (cases "verifyTransaction sm tx")
  case (Some err)
  with result show ?thesis by (auto simp: ExecuteTransaction_def)
next
  case None
  with result sum fin total show ?thesis
    by (auto simp: ExecuteTransaction_def burned_def spent_with_fee_def
        transfer_coins delegate_coins token_transfer_coins handlers_coins split: payload.splits)
qed

section \<open>Fungible tokens\<close>

definition holding :: "string \<Rightarrow> AccountState \<Rightarrow> nat" where
  "holding t acc = unat (tokens_get (ast_Tokens acc) t)"

lemma tokens_get_Nil [simp]: "tokens_get (Some []) t = 0"
  by (simp add: tokens_get_def)

lemma tokens_get_set:
  "tokens_set b t v = Some b' \<Longrightarrow> tokens_get b' u = (if u = t then v else tokens_get b u)"
  by (auto simp: tokens_set_def tokens_get_def split: option.splits)

lemma tokens_set_Some: "b \<noteq> None \<Longrightarrow> \<exists>b'. tokens_set b t v = Some b' \<and> b' \<noteq> None"
  by (auto simp: tokens_set_def)

lemma tokens_set_not_nil: "tokens_set b t v = Some b' \<Longrightarrow> b' \<noteq> None"
  by (auto simp: tokens_set_def split: option.splits)

lemma holding_fresh [simp]: "holding t (fresh_account a) = 0"
  by (simp add: holding_def)

text \<open>
  The supply recorded for a token is what the accounts hold of it, nobody holds a token that
  does not exist, and no account's map of balances is nil.
\<close>

definition token_inv :: "StateMachine \<Rightarrow> bool" where
  "token_inv sm \<longleftrightarrow> finite (dom (sm_accounts sm)) \<and>
     (\<forall>t. total_of (holding t) sm =
        (case sm_tokens sm t of None \<Rightarrow> 0 | Some tk \<Rightarrow> unat (tk_TotalSupply tk))) \<and>
     (\<forall>a. ast_Tokens (sm_account sm a) \<noteq> None)"

text \<open>Changes that touch no holdings keep the invariant.\<close>

lemma token_inv_frame:
  "token_inv sm \<Longrightarrow> token_inv (sm_getOrCreateAccount sm a)"
  "token_inv (sm\<lparr>sm_nfts := ns\<rparr>) = token_inv sm"
  "token_inv (sm\<lparr>sm_consensus := e\<rparr>) = token_inv sm"
  by (simp_all add: token_inv_def total_create)

lemma token_inv_write:
  "token_inv sm \<Longrightarrow> (\<And>acc. ast_Tokens (f acc) = ast_Tokens acc) \<Longrightarrow> token_inv (sm_write a f sm)"
  using total_write_same [where f = "holding _" and a = a and g = f and sm = sm]
  by (simp add: token_inv_def holding_def)

lemma add_tokens_holding:
  assumes add: "add_tokens a t v sm = Some sm'" and fin: "finite (dom (sm_accounts sm))"
  shows "total_of (holding u) sm' + holding u (sm_account sm a) =
    total_of (holding u) sm +
      (if u = t then unat (tokens_get (ast_Tokens (sm_account sm a)) t + v) else holding u (sm_account sm a))"
proof -
  obtain b where b: "sm' = sm_write a (\<lambda>acc. acc\<lparr>ast_Tokens := b\<rparr>) sm"
    "tokens_set (ast_Tokens (sm_account sm a)) t (tokens_get (ast_Tokens (sm_account sm a)) t + v) = Some b"
    by (rule add_tokens_Some [OF add])
  have "holding u ((sm_account sm a)\<lparr>ast_Tokens := b\<rparr>) =
      (if u = t then unat (tokens_get (ast_Tokens (sm_account sm a)) t + v) else holding u (sm_account sm a))"
    by (simp add: holding_def tokens_get_set [OF b(2)])
  then show ?thesis
    using total_write [where f = "holding u" and a = a, OF fin holding_fresh,
        of "\<lambda>acc. acc\<lparr>ast_Tokens := b\<rparr>"]
    by (simp add: b(1))
qed

lemma add_tokens_frame:
  assumes "add_tokens a t v sm = Some sm'"
  shows "sm_tokens sm' = sm_tokens sm" "finite (dom (sm_accounts sm')) = finite (dom (sm_accounts sm))"
    "ast_Balance (sm_account sm' c) = ast_Balance (sm_account sm c)"
    "(\<forall>c. ast_Tokens (sm_account sm c) \<noteq> None) \<Longrightarrow> ast_Tokens (sm_account sm' c) \<noteq> None"
proof -
  obtain b where b: "sm' = sm_write a (\<lambda>acc. acc\<lparr>ast_Tokens := b\<rparr>) sm" "b \<noteq> None"
    using add_tokens_Some [OF assms] tokens_set_not_nil by metis
  then show "sm_tokens sm' = sm_tokens sm" "finite (dom (sm_accounts sm')) = finite (dom (sm_accounts sm))"
    "ast_Balance (sm_account sm' c) = ast_Balance (sm_account sm c)"
    "(\<forall>c. ast_Tokens (sm_account sm c) \<noteq> None) \<Longrightarrow> ast_Tokens (sm_account sm' c) \<noteq> None"
    by simp_all
qed

lemma add_tokens_defined:
  assumes "\<forall>c. ast_Tokens (sm_account sm c) \<noteq> None"
  shows "\<exists>sm'. add_tokens a t v sm = Some sm'"
  using tokens_set_Some [OF spec [OF assms], of a t]
  unfolding add_tokens_def Let_def by (metis option.case(2))

text \<open>Moving tokens from one account to another, or to itself, keeps every total.\<close>

lemma token_inv_move:
  assumes inv: "token_inv sm" and enough: "\<not> tokens_get (ast_Tokens (sm_account sm a)) t < v"
    and out: "add_tokens a t (- v) sm = Some sm1" and into: "add_tokens b t v sm1 = Some sm2"
  shows "token_inv sm2"
proof -
  have fin: "finite (dom (sm_accounts sm))" "finite (dom (sm_accounts sm1))"
    and some: "\<forall>c. ast_Tokens (sm_account sm c) \<noteq> None"
    using inv add_tokens_frame(2) [OF out] by (auto simp: token_inv_def)
  have "total_of (holding u) sm2 = total_of (holding u) sm" for u
  proof (cases "u = t")
    case False
    with add_tokens_holding [OF out fin(1), of u] add_tokens_holding [OF into fin(2), of u]
    show ?thesis by simp
  next
    case True
    have small: "total_of (holding t) sm < 18446744073709551616"
      using inv by (simp add: token_inv_def split: option.splits)
    have "unat (tokens_get (ast_Tokens (sm_account sm a)) t + - v) + unat v = holding t (sm_account sm a)"
      using enough by (simp add: holding_def word_le_nat_alt not_less)
    with add_tokens_holding [OF out fin(1), of t]
    have less: "total_of (holding t) sm1 + unat v = total_of (holding t) sm" by simp
    have "holding t (sm_account sm1 b) \<le> total_of (holding t) sm1"
      using fin by (intro total_ge) simp_all
    with less small have "unat (tokens_get (ast_Tokens (sm_account sm1 b)) t + v) =
        holding t (sm_account sm1 b) + unat v"
      by (simp add: holding_def)
    with add_tokens_holding [OF into fin(2), of t] less show ?thesis by (simp add: True)
  qed
  then show ?thesis
    using inv add_tokens_frame(4) [OF into] add_tokens_frame(4) [OF out some] fin(1)
    by (auto simp: token_inv_def add_tokens_frame(1,2) [OF out] add_tokens_frame(1,2) [OF into])
qed

lemma create_token_inv:
  assumes inv: "token_inv sm" and result: "sm_executeCreateToken sm tx p = (sm', r)"
  shows "token_inv sm' \<and> r \<noteq> NilMapWrite"
proof (cases "sm_tokens sm (ct_TokenId p) = None")
  case False
  with result inv show ?thesis by (auto simp: sm_executeCreateToken_def)
next
  case True
  let ?t = "ct_TokenId p" and ?a = "ct_AdminAddress p"
  have fin: "finite (dom (sm_accounts sm))" and zero: "total_of (holding ?t) sm = 0"
    using inv True by (auto simp: token_inv_def)
  obtain m where m: "ast_Tokens (sm_account sm ?a) = Some m"
    using inv by (auto simp: token_inv_def)
  let ?b = "Some (AList.update ?t (ct_InitialSupply p) m)"
  let ?sm1 = "sm_getOrCreateAccount sm ?a"
  let ?f = "\<lambda>acc. acc\<lparr>ast_Tokens := ?b\<rparr>"
  from result True m have sm': "r = Done" "sm_tokens sm' = (sm_tokens sm)(?t \<mapsto> sm_new_token p)"
    "sm_accounts sm' = sm_accounts (sm_write ?a ?f ?sm1)"
    by (auto simp: sm_executeCreateToken_def Let_def tokens_set_def sm_write_def sm_account_def
        sm_getOrCreateAccount_def split: option.splits)
  have old: "holding u (?f (sm_account sm ?a)) =
      (if u = ?t then unat (ct_InitialSupply p) else holding u (sm_account sm ?a))" for u
    by (simp add: holding_def m tokens_get_def)
  have none: "holding ?t (sm_account sm ?a) = 0"
    using total_ge [where f = "holding ?t" and a = ?a, OF fin] zero by simp
  have "total_of (holding u) sm' = (if u = ?t then unat (ct_InitialSupply p) else total_of (holding u) sm)" for u
  proof -
    have "total_of (holding u) sm' = total_of (holding u) (sm_write ?a ?f ?sm1)"
      by (simp add: total_of_def sm'(3))
    moreover have "total_of (holding u) (sm_write ?a ?f ?sm1) + holding u (sm_account sm ?a) =
        total_of (holding u) sm + holding u (?f (sm_account sm ?a))"
      using total_write [where f = "holding u" and a = ?a and sm = ?sm1 and g = ?f] fin
      by (simp add: total_create)
    ultimately show ?thesis using zero none by (cases "u = ?t") (simp_all add: old)
  qed
  moreover have "ast_Tokens (sm_account sm' a) \<noteq> None" for a
  proof -
    have "sm_account sm' a = sm_account (sm_write ?a ?f ?sm1) a" by (simp add: sm_account_def sm'(3))
    then show ?thesis using inv by (simp add: token_inv_def)
  qed
  moreover have "finite (dom (sm_accounts sm'))" using fin by (simp only: sm'(3) finite_accounts)
  ultimately show ?thesis using inv sm'(1,2) by (simp add: token_inv_def sm_new_token_def)
qed

lemma transfer_token_inv:
  assumes inv: "token_inv sm" and result: "sm_executeTransferToken sm tx p = (sm', r)"
  shows "token_inv sm' \<and> r \<noteq> NilMapWrite"
proof -
  let ?s = "sender_of tx" and ?t = "tt_TokenId p" and ?v = "tt_Amount p"
  let ?sm2 = "sm_getOrCreateAccount (sm_getOrCreateAccount sm ?s) (tt_To p)"
  have inv2: "token_inv ?sm2" using inv by (intro token_inv_frame)
  then have some: "\<forall>c. ast_Tokens (sm_account ?sm2 c) \<noteq> None" unfolding token_inv_def by blast
  obtain a where a: "add_tokens ?s ?t (- ?v) ?sm2 = Some a" using add_tokens_defined [OF some] by blast
  have "\<forall>c. ast_Tokens (sm_account a c) \<noteq> None" using add_tokens_frame(4) [OF a some] by blast
  then obtain b where b: "add_tokens (tt_To p) ?t ?v a = Some b" using add_tokens_defined by blast
  from result a b consider "sm' = ?sm2" "r \<noteq> NilMapWrite"
    | "\<not> tokens_get (ast_Tokens (sm_account ?sm2 ?s)) ?t < ?v" "r \<noteq> NilMapWrite"
      "sm' = b \<or> sm' = debit ?s (tx_Fee tx) b"
    by (auto simp: sm_executeTransferToken_def Let_def split: if_splits)
  then show ?thesis
  proof cases
    case 2
    from token_inv_move [OF inv2 2(1) a b] 2(2,3) show ?thesis
      by (auto intro: token_inv_write)
  qed (use inv2 in simp)
qed

lemma other_handlers_token_inv:
  assumes "token_inv sm"
  shows
    "sm_executeTransfer sm tx tp = (sm', r) \<Longrightarrow> token_inv sm' \<and> r \<noteq> NilMapWrite"
    "sm_executeCreateCollection sm tx cc = (sm', r) \<Longrightarrow> token_inv sm' \<and> r \<noteq> NilMapWrite"
    "sm_executeMintNFT sm tx mn = (sm', r) \<Longrightarrow> token_inv sm' \<and> r \<noteq> NilMapWrite"
    "sm_executeTransferNFT sm tx tn = (sm', r) \<Longrightarrow> token_inv sm' \<and> r \<noteq> NilMapWrite"
    "sm_executeCreateValidator sm tx cv = (sm', r) \<Longrightarrow> token_inv sm' \<and> r \<noteq> NilMapWrite"
    "sm_executeDelegateStake sm tx sp = (sm', r) \<Longrightarrow> token_inv sm' \<and> r \<noteq> NilMapWrite"
  using assms
  by (auto simp: sm_executeTransfer_def sm_executeCreateCollection_def sm_executeMintNFT_def
      sm_executeTransferNFT_def sm_executeCreateValidator_def sm_executeDelegateStake_def Let_def
      token_inv_frame token_inv_write split: if_splits option.splits)

lemma ExecuteTransaction_token_inv:
  assumes "token_inv sm" and "ExecuteTransaction sm tx = (sm', r)"
  shows "token_inv sm' \<and> r \<noteq> NilMapWrite"
proof (cases "verifyTransaction sm tx")
  case None
  with assms show ?thesis
    by (cases "tx_Payload tx")
      (auto simp: ExecuteTransaction_def dest: create_token_inv transfer_token_inv other_handlers_token_inv)
qed (use assms in \<open>auto simp: ExecuteTransaction_def\<close>)

section \<open>Nonces\<close>

definition nonce_of :: "StateMachine \<Rightarrow> string \<Rightarrow> u64" where
  "nonce_of sm a = ast_Nonce (sm_account sm a)"

lemma add_tokens_nonce: "add_tokens a t v sm = Some sm' \<Longrightarrow> nonce_of sm' c = nonce_of sm c"
  by (elim add_tokens_Some) (simp add: nonce_of_def)

text \<open>Only a successful transfer moves a nonce, to the one of the transaction.\<close>

lemma ExecuteTransaction_nonce:
  assumes "ExecuteTransaction sm tx = (sm', r)"
  shows "nonce_of sm' a =
    (if r = Done \<and> a = sender_of tx \<and> (\<exists>p. tx_Payload tx = Transfer p) then tx_Nonce tx
     else nonce_of sm a)"
proof (cases "verifyTransaction sm tx")
  case None
  show ?thesis
  proof (cases "tx_Payload tx")
    case (TransferToken p)
    with assms None show ?thesis
      by (auto simp: ExecuteTransaction_def sm_executeTransferToken_def Let_def split: if_splits option.splits
          dest!: add_tokens_nonce [where c = a]) (simp_all add: nonce_of_def)
  qed (use assms None in \<open>auto simp: ExecuteTransaction_def sm_executeTransfer_def
      sm_executeCreateToken_def sm_executeCreateCollection_def sm_executeMintNFT_def
      sm_executeTransferNFT_def sm_executeCreateValidator_def sm_executeDelegateStake_def Let_def
      nonce_of_def split: if_splits option.splits\<close>)
qed (use assms in \<open>auto simp: ExecuteTransaction_def\<close>)

text \<open>Every account that verification has passed once stays in the map.\<close>

lemma verify_nonce: "verifyTransaction sm tx = None \<Longrightarrow> nonce_of sm (sender_of tx) < tx_Nonce tx"
  by (auto simp: verifyTransaction_def nonce_of_def sm_account_def not_le split: if_splits option.splits)

definition execute_all :: "Transaction list \<Rightarrow> StateMachine \<Rightarrow> StateMachine" where
  "execute_all txs sm = fold (\<lambda>tx sm. fst (ExecuteTransaction sm tx)) txs sm"

lemma nonce_mono: "nonce_of sm a \<le> nonce_of (fst (ExecuteTransaction sm tx)) a"
proof -
  obtain sm' r where e: "ExecuteTransaction sm tx = (sm', r)" by fastforce
  show ?thesis
  proof (cases "verifyTransaction sm tx")
    case None
    from verify_nonce [OF None] show ?thesis
      by (auto simp: e ExecuteTransaction_nonce [OF e])
  qed (use e in \<open>auto simp: ExecuteTransaction_def\<close>)
qed

lemma nonce_mono_all: "nonce_of sm a \<le> nonce_of (execute_all txs sm) a"
  unfolding execute_all_def
  by (induction txs arbitrary: sm) (auto intro: order_trans nonce_mono)

section \<open>Properties\<close>

text \<open>
  Concrete states: \<open>alice\<close> holds \<open>b\<close> coins and \<open>n\<close> units of token \<open>T\<close>, which has that supply.
\<close>

definition alice_state :: "u64 \<Rightarrow> u64 \<Rightarrow> StateMachine" where
  "alice_state b n = (NewStateMachine (NewConsensusEngine NewDAG))
     \<lparr>sm_accounts := [''alice'' \<mapsto> (fresh_account ''alice'')
        \<lparr>ast_Balance := b, ast_Tokens := Some [(''T'', n)]\<rparr>],
      sm_tokens := [''T'' \<mapsto> sm_new_token \<lparr>ct_TokenId = ''T'', ct_Name = [], ct_Symbol = [],
        ct_Decimals = 0, ct_InitialSupply = n, ct_AdminAddress = ''alice'', ct_MetadataUri = [],
        ct_Mintable = False, ct_Burnable = False, ct_Pausable = False, ct_Blacklistable = False\<rparr>]\<rparr>"

definition from_alice :: "u64 \<Rightarrow> u64 \<Rightarrow> payload \<Rightarrow> Transaction" where
  "from_alice n fee p = zero_transaction\<lparr>tx_Nonce := n, tx_Fee := fee, tx_Payload := p,
     tx_PublicKey := bytes_of_string ''alice''\<rparr>"

definition pay :: "string \<Rightarrow> u64 \<Rightarrow> payload" where
  "pay a v = Transfer \<lparr>tp_To = a, tp_Amount = v, tp_Memo = None\<rparr>"

lemma alice_total: "total_of f (alice_state b n) = f (the (sm_accounts (alice_state b n) ''alice''))"
  by (simp add: total_of_def map_total_def alice_state_def)

lemma alice_finite [simp]: "finite (dom (sm_accounts (alice_state b n)))"
  by (simp add: alice_state_def)

text \<open>C10: native coins are conserved: when the fee and the amount it is added to do not
  overflow, a successful transaction removes exactly its fee from the sum of all balances
  and delegations (nothing, for the two payloads that charge no fee), and a failed one
  leaves the sum as it was.\<close>

theorem native_supply_conserved:
  assumes "finite (dom (sm_accounts sm))" and "total_of coins sm < 18446744073709551616"
    and "unat (spent_with_fee tx) + unat (tx_Fee tx) < 18446744073709551616"
  shows "total_of coins (fst (ExecuteTransaction sm tx)) +
    (if snd (ExecuteTransaction sm tx) = Done then burned tx else 0) = total_of coins sm"
  using ExecuteTransaction_coins [OF assms, of "fst (ExecuteTransaction sm tx)"]
  by (simp add: charge_def)

theorem native_supply_conserved_witness:
  "total_of coins (fst (ExecuteTransaction (alice_state 5000 1) (from_alice 1 1000 (pay ''bob'' 300)))) + 1000
     = total_of coins (alice_state 5000 1)"
proof -
  let ?tx = "from_alice 1 1000 (pay ''bob'' 300)"
  have "snd (ExecuteTransaction (alice_state 5000 1) ?tx) = Done" by code_simp
  moreover have "total_of coins (alice_state 5000 1) = 5000"
    by (simp add: alice_total coins_def) (simp add: alice_state_def)
  ultimately show ?thesis
    using native_supply_conserved [of "alice_state 5000 1" ?tx]
    by (simp add: from_alice_def pay_def burned_def spent_with_fee_def)
qed

text \<open>Without that bound the 64-bit sum of amount and fee wraps: the sender of a transfer
  pays only the wrapped sum, and the recipient is credited the full amount.\<close>

theorem transfer_overflow_inflates:
  assumes "verifyTransaction sm tx = None" and "tx_Payload tx = Transfer p"
    and "18446744073709551616 \<le> unat (tp_Amount p) + unat (tx_Fee tx)"
    and "tp_To p \<noteq> sender_of tx"
  shows "snd (ExecuteTransaction sm tx) = Done \<and>
    unat (ast_Balance (sm_account (fst (ExecuteTransaction sm tx)) (sender_of tx))) + unat (tp_Amount p) + unat (tx_Fee tx)
      = unat (ast_Balance (sm_account sm (sender_of tx))) + 18446744073709551616 \<and>
    ast_Balance (sm_account (fst (ExecuteTransaction sm tx)) (tp_To p)) =
      ast_Balance (sm_account sm (tp_To p)) + tp_Amount p"
proof -
  from assms(1,2) have ok: "\<not> ast_Balance (sm_account sm (sender_of tx)) < tp_Amount p + tx_Fee tx"
    "sm_accounts sm (sender_of tx) \<noteq> None"
    by (auto simp: verifyTransaction_def getTransactionValue_def sm_account_def add.commute
        split: if_splits option.splits)
  have "unat (tp_Amount p + tx_Fee tx) + 18446744073709551616 = unat (tp_Amount p) + unat (tx_Fee tx)"
    by (rule unat_add_overflow [OF assms(3)])
  moreover have "unat (ast_Balance (sm_account sm (sender_of tx)) - (tp_Amount p + tx_Fee tx)) +
      unat (tp_Amount p + tx_Fee tx) = unat (ast_Balance (sm_account sm (sender_of tx)))"
    using ok(1) by (simp add: not_less word_le_nat_alt)
  moreover have exec: "ExecuteTransaction sm tx = sm_executeTransfer sm tx p"
    using assms(1,2) by (simp add: ExecuteTransaction_def)
  moreover have "snd (sm_executeTransfer sm tx p) = Done"
    "ast_Balance (sm_account (fst (sm_executeTransfer sm tx p)) (sender_of tx)) =
       ast_Balance (sm_account sm (sender_of tx)) - (tp_Amount p + tx_Fee tx)"
    "ast_Balance (sm_account (fst (sm_executeTransfer sm tx p)) (tp_To p)) =
       ast_Balance (sm_account sm (tp_To p)) + tp_Amount p"
    using ok assms(4) by (auto simp: sm_executeTransfer_def Let_def)
  ultimately show ?thesis by (simp only: exec, intro conjI refl) linarith
qed

theorem transfer_overflow_inflates_witness:
  "ast_Balance (sm_account (fst (ExecuteTransaction (alice_state 5000 1)
      (from_alice 1 1000 (pay ''bob'' 18446744073709551000)))) ''bob'') = 18446744073709551000"
proof -
  let ?tx = "from_alice 1 1000 (pay ''bob'' 18446744073709551000)"
  have "verifyTransaction (alice_state 5000 1) ?tx = None" by code_simp
  moreover have "tx_Payload ?tx = Transfer \<lparr>tp_To = ''bob'', tp_Amount = 18446744073709551000, tp_Memo = None\<rparr>"
    "tx_Fee ?tx = 1000" "sender_of ?tx = ''alice''"
    by (simp_all add: from_alice_def pay_def sender_of_def)
  moreover have "ast_Balance (sm_account (alice_state 5000 1) ''bob'') = 0" by code_simp
  ultimately show ?thesis using transfer_overflow_inflates [of "alice_state 5000 1" ?tx] by simp
qed

text \<open>C11: the supply of every token stays what the accounts hold of it, whatever transaction
  is executed and however it ends, and no handler ever writes to a nil map.\<close>

theorem token_supply_invariant:
  assumes "token_inv sm"
  shows "token_inv (fst (ExecuteTransaction sm tx)) \<and> snd (ExecuteTransaction sm tx) \<noteq> NilMapWrite"
  using ExecuteTransaction_token_inv [OF assms, of tx] by (metis prod.collapse)

lemma alice_token_inv: "token_inv (alice_state b n)"
proof -
  have "ast_Tokens (sm_account (alice_state b n) a) \<noteq> None" for a
    by (simp add: alice_state_def sm_account_def)
  moreover have "total_of (holding t) (alice_state b n) =
      (case sm_tokens (alice_state b n) t of None \<Rightarrow> 0 | Some tk \<Rightarrow> unat (tk_TotalSupply tk))" for t
    by (simp add: alice_total holding_def) (simp add: alice_state_def tokens_get_def sm_new_token_def)
  ultimately show ?thesis by (simp add: token_inv_def)
qed

theorem token_supply_invariant_witness:
  "token_inv (fst (ExecuteTransaction (alice_state 5000 7) (from_alice 1 1000 (TransferToken
     \<lparr>tt_TokenId = ''T'', tt_To = ''bob'', tt_Amount = 3, tt_Memo = None\<rparr>))))"
  using token_supply_invariant [OF alice_token_inv] by blast

text \<open>C24: a transfer that succeeded once is refused in every later state: the nonces of all
  accounts only grow, and a transfer raises its sender's to its own.\<close>

theorem transfer_not_replayable:
  assumes "snd (ExecuteTransaction sm tx) = Done" and "tx_Payload tx = Transfer p"
  shows "\<exists>err. ExecuteTransaction (execute_all txs (fst (ExecuteTransaction sm tx))) tx =
    (execute_all txs (fst (ExecuteTransaction sm tx)), Rejected (VerificationFailed err))"
proof -
  let ?sm = "execute_all txs (fst (ExecuteTransaction sm tx))"
  have "nonce_of (fst (ExecuteTransaction sm tx)) (sender_of tx) = tx_Nonce tx"
    using ExecuteTransaction_nonce [of sm tx "fst (ExecuteTransaction sm tx)" Done] assms
    by (simp add: prod_eq_iff)
  then have "tx_Nonce tx \<le> nonce_of ?sm (sender_of tx)"
    using nonce_mono_all [of "fst (ExecuteTransaction sm tx)" "sender_of tx" txs] by simp
  then have "verifyTransaction ?sm tx \<noteq> None" using verify_nonce [of ?sm tx] by (meson not_le)
  then show ?thesis by (auto simp: ExecuteTransaction_def)
qed

theorem transfer_not_replayable_witness:
  "\<exists>err. snd (ExecuteTransaction (fst (ExecuteTransaction (alice_state 5000 1) (from_alice 1 1000 (pay ''bob'' 300))))
     (from_alice 1 1000 (pay ''bob'' 300))) = Rejected (VerificationFailed err)"
proof -
  let ?tx = "from_alice 1 1000 (pay ''bob'' 300)"
  have "snd (ExecuteTransaction (alice_state 5000 1) ?tx) = Done" by code_simp
  from transfer_not_replayable [OF this, of _ "[]"] show ?thesis
    by (auto simp: from_alice_def pay_def execute_all_def)
qed

text \<open>Every other payload can be replayed: after it has been executed the same signed
  transaction passes verification again as long as the balance lasts.\<close>

theorem other_payloads_replayable:
  assumes "snd (ExecuteTransaction sm tx) = Done" and "\<And>p. tx_Payload tx \<noteq> Transfer p"
    and "tx_Fee tx + getTransactionValue tx \<le>
      ast_Balance (sm_account (fst (ExecuteTransaction sm tx)) (sender_of tx))"
    and "sm_accounts (fst (ExecuteTransaction sm tx)) (sender_of tx) \<noteq> None"
  shows "verifyTransaction (fst (ExecuteTransaction sm tx)) tx = None"
proof -
  have ok: "verifyTransaction sm tx = None"
    using assms(1) by (auto simp: ExecuteTransaction_def split: option.splits)
  have "nonce_of (fst (ExecuteTransaction sm tx)) (sender_of tx) = nonce_of sm (sender_of tx)"
    using ExecuteTransaction_nonce [of sm tx "fst (ExecuteTransaction sm tx)" Done] assms
    by (simp add: prod_eq_iff)
  with verify_nonce [OF ok] have "nonce_of (fst (ExecuteTransaction sm tx)) (sender_of tx) < tx_Nonce tx"
    by simp
  with ok assms(3,4) show ?thesis
    by (auto simp: verifyTransaction_def nonce_of_def sm_account_def not_less not_le
        split: if_splits option.splits)
qed

theorem other_payloads_replayable_witness:
  "verifyTransaction (fst (ExecuteTransaction (alice_state 5000 7) (from_alice 1 1000 (TransferToken
     \<lparr>tt_TokenId = ''T'', tt_To = ''bob'', tt_Amount = 3, tt_Memo = None\<rparr>))))
     (from_alice 1 1000 (TransferToken \<lparr>tt_TokenId = ''T'', tt_To = ''bob'', tt_Amount = 3, tt_Memo = None\<rparr>)) = None"
proof (rule other_payloads_replayable)
  show "tx_Payload (from_alice 1 1000 (TransferToken q)) \<noteq> Transfer p" for p q
    by (simp add: from_alice_def)
qed (code_simp+)

text \<open>A state machine as \<open>NewStateMachine\<close> makes it, which has no accounts and no way to
  load any, refuses every transaction for ever.\<close>

theorem fresh_state_machine_refuses_all:
  "execute_all txs (NewStateMachine e) = NewStateMachine e \<and>
   (\<exists>err. snd (ExecuteTransaction (execute_all txs (NewStateMachine e)) tx) = Rejected (VerificationFailed err))"
proof -
  have "\<exists>err. ExecuteTransaction (NewStateMachine e) tx = (NewStateMachine e, Rejected (VerificationFailed err))" for tx
    by (simp add: ExecuteTransaction_def verifyTransaction_def NewStateMachine_def)
  moreover from this have "execute_all txs (NewStateMachine e) = NewStateMachine e"
    unfolding execute_all_def by (induction txs) (auto, metis fst_conv)
  ultimately show ?thesis by (metis snd_conv)
qed

end
