(* ===== verification/Float64.thy ===== *)
theory Float64
  imports Prelude Complex_Main "HOL-Library.Log_Nat"
begin

text \<open>
  Go's \<open>float64\<close> as far as the code uses it: conversion from \<open>uint64\<close>, division and the
  comparisons. A finite value is the rational it denotes, so both zeros are \<open>Finite 0\<close>;
  results are rounded to 53 significant bits, ties to even. The exponents of quotients of
  64-bit integers stay far from the limits of the format, so overflow to an infinity and
  subnormal results do not arise and are left out.
\<close>

datatype float64 = NaN | NegInf | Finite rat | PosInf

abbreviation pow2 :: "int \<Rightarrow> rat" where
  "pow2 e \<equiv> 2 powi e"

function bit_length :: "int \<Rightarrow> int" where
  "bit_length n = (if n \<le> 0 then 0 else 1 + bit_length (n div 2))"
  by pat_completeness auto
termination bit_length by (relation "measure nat") auto

declare bit_length.simps [simp del]

lemma bit_length_floorlog: "bit_length n = int (floorlog 2 (nat n))"
proof (induction n rule: bit_length.induct)
  case (1 n)
  then show ?case
    by (subst bit_length.simps, subst compute_floorlog) (auto simp: nat_div_distrib)
qed

text \<open>The \<open>e\<close> with \<open>2^e \<le> q < 2^(e+1)\<close>, from the bit lengths of numerator and denominator.\<close>

definition exponent :: "rat \<Rightarrow> int" where
  "exponent q =
     (case quotient_of q of (a, b) \<Rightarrow>
        let e = bit_length a - bit_length b
        in if q < pow2 e then e - 1 else e)"

definition round_even :: "rat \<Rightarrow> int" where
  "round_even q =
     (let f = \<lfloor>q\<rfloor>; d = q - of_int f in
      if d < 1 / 2 then f else if d > 1 / 2 then f + 1 else if even f then f else f + 1)"

definition round53 :: "rat \<Rightarrow> rat" where
  "round53 q =
     (if q = 0 then 0
      else let u = pow2 (exponent \<bar>q\<bar> - 52) in of_int (round_even (q / u)) * u)"

definition f64_of_u64 :: "u64 \<Rightarrow> float64" where
  "f64_of_u64 w = Finite (round53 (of_int (uint w)))"

fun f64_div :: "float64 \<Rightarrow> float64 \<Rightarrow> float64" where
  "f64_div NaN y = NaN"
| "f64_div x NaN = NaN"
| "f64_div (Finite a) (Finite b) =
     (if b = 0 then (if a = 0 then NaN else if a > 0 then PosInf else NegInf)
      else Finite (round53 (a / b)))"
| "f64_div (Finite a) PosInf = Finite 0"
| "f64_div (Finite a) NegInf = Finite 0"
| "f64_div PosInf (Finite b) = (if b < 0 then NegInf else PosInf)"
| "f64_div NegInf (Finite b) = (if b < 0 then PosInf else NegInf)"
| "f64_div x y = NaN"

text \<open>
  Products of finite values are used with factors far from the limits of the format only.
\<close>

fun f64_mul :: "float64 \<Rightarrow> float64 \<Rightarrow> float64" where
  "f64_mul NaN y = NaN"
| "f64_mul x NaN = NaN"
| "f64_mul (Finite a) (Finite b) = Finite (round53 (a * b))"
| "f64_mul (Finite a) PosInf = (if a = 0 then NaN else if a > 0 then PosInf else NegInf)"
| "f64_mul (Finite a) NegInf = (if a = 0 then NaN else if a > 0 then NegInf else PosInf)"
| "f64_mul PosInf (Finite b) = (if b = 0 then NaN else if b > 0 then PosInf else NegInf)"
| "f64_mul NegInf (Finite b) = (if b = 0 then NaN else if b > 0 then NegInf else PosInf)"
| "f64_mul PosInf PosInf = PosInf"
| "f64_mul NegInf NegInf = PosInf"
| "f64_mul x y = NegInf"

text \<open>Sums of finite values are used far from the limits of the format only, too.\<close>

fun f64_add :: "float64 \<Rightarrow> float64 \<Rightarrow> float64" where
  "f64_add NaN y = NaN"
| "f64_add x NaN = NaN"
| "f64_add (Finite a) (Finite b) = Finite (round53 (a + b))"
| "f64_add PosInf NegInf = NaN"
| "f64_add NegInf PosInf = NaN"
| "f64_add PosInf y = PosInf"
| "f64_add NegInf y = NegInf"
| "f64_add (Finite a) y = y"

text \<open>The IEEE comparisons: every one with a NaN is false, and a NaN differs from itself.\<close>

fun f64_eq :: "float64 \<Rightarrow> float64 \<Rightarrow> bool" where
  "f64_eq NaN y = False"
| "f64_eq x y = (x = y)"

fun f64_less :: "float64 \<Rightarrow> float64 \<Rightarrow> bool" where
  "f64_less NaN y = False"
| "f64_less x NaN = False"
| "f64_less NegInf y = (y \<noteq> NegInf)"
| "f64_less (Finite a) (Finite b) = (a < b)"
| "f64_less (Finite a) PosInf = True"
| "f64_less x y = False"

section \<open>A linear order of the numbers\<close>

text \<open>With NaN put below all others the order is total; away from NaN it is the IEEE one.\<close>

fun f64_key :: "float64 \<Rightarrow> nat \<times> rat" where
  "f64_key NaN = (0, 0)"
| "f64_key NegInf = (1, 0)"
| "f64_key (Finite q) = (2, q)"
| "f64_key PosInf = (3, 0)"

lemma f64_key_inject: "f64_key x = f64_key y \<longleftrightarrow> x = y"
  by (cases x; cases y) auto

instantiation float64 :: linorder
begin

definition less_float64 :: "float64 \<Rightarrow> float64 \<Rightarrow> bool" where
  "less_float64 x y \<longleftrightarrow> fst (f64_key x) < fst (f64_key y) \<or>
     fst (f64_key x) = fst (f64_key y) \<and> snd (f64_key x) < snd (f64_key y)"

definition less_eq_float64 :: "float64 \<Rightarrow> float64 \<Rightarrow> bool" where
  "less_eq_float64 x y \<longleftrightarrow> x < y \<or> x = (y :: float64)"

instance
proof
  fix x y z :: float64
  show "x < y \<longleftrightarrow> x \<le> y \<and> \<not> y \<le> x"
    by (auto simp: less_eq_float64_def less_float64_def)
  show "x \<le> x" by (simp add: less_eq_float64_def)
  show "x \<le> y \<Longrightarrow> y \<le> z \<Longrightarrow> x \<le> z"
    by (auto simp: less_eq_float64_def less_float64_def)
  show "x \<le> y \<Longrightarrow> y \<le> x \<Longrightarrow> x = y"
    by (auto simp: less_eq_float64_def less_float64_def)
  show "x \<le> y \<or> y \<le> x"
    by (auto simp: less_eq_float64_def less_float64_def simp flip: f64_key_inject)
      (metis f64_key_inject linorder_neqE prod.expand)+
qed

end

lemma f64_less_iff: "x \<noteq> NaN \<Longrightarrow> y \<noteq> NaN \<Longrightarrow> f64_less x y \<longleftrightarrow> x < y"
  by (cases x; cases y) (auto simp: less_float64_def)

lemma f64_eq_iff: "x \<noteq> NaN \<Longrightarrow> f64_eq x y \<longleftrightarrow> x = y"
  by (cases x) auto

lemma Finite_le [simp]: "Finite a \<le> Finite b \<longleftrightarrow> a \<le> b"
  by (auto simp: less_eq_float64_def less_float64_def)

lemma Finite_less [simp]: "Finite a < Finite b \<longleftrightarrow> a < b"
  by (simp add: less_float64_def)

lemma le_PosInf [simp]: "x \<le> PosInf"
  by (cases x) (auto simp: less_eq_float64_def less_float64_def)

section \<open>Rounding\<close>

lemma pow2_split: "pow2 e = pow2 f * pow2 (e - f)"
  using power_int_add [of "2 :: rat" f "e - f"] by simp

lemma floorlog_pow2:
  assumes "0 < a"
  shows "pow2 (int (floorlog 2 (nat a)) - 1) \<le> of_int a" "of_int a < pow2 (int (floorlog 2 (nat a)))"
proof -
  let ?i = "floorlog 2 (nat a)"
  have "2 ^ (?i - 1) \<le> nat a" "nat a < 2 ^ ?i" using floorlog_bounds [of "nat a" 2] assms by auto
  then have "(2 :: rat) ^ (?i - 1) \<le> of_nat (nat a)" "of_nat (nat a) < (2 :: rat) ^ ?i"
    by (metis of_nat_le_iff of_nat_less_iff of_nat_numeral of_nat_power)+
  moreover have "int ?i - 1 = int (?i - 1)" using assms by (simp add: floorlog_def)
  ultimately show "pow2 (int ?i - 1) \<le> of_int a" "of_int a < pow2 (int ?i)"
    using assms by (simp_all del: of_nat_diff)
qed

lemma exponent_bounds:
  assumes "0 < q"
  shows "pow2 (exponent q) \<le> q \<and> q < pow2 (exponent q + 1)"
proof -
  obtain a b where ab: "quotient_of q = (a, b)" by fastforce
  then have b: "0 < b" and q: "q = of_int a / of_int b"
    by (auto intro: quotient_of_denom_pos quotient_of_div)
  with assms have a: "0 < a" by (simp add: zero_less_divide_iff)
  let ?i = "floorlog 2 (nat a)" and ?j = "floorlog 2 (nat b)"
  let ?e = "int ?i - int ?j"
  have split: "pow2 (int ?i - 1) = pow2 (?e - 1) * pow2 (int ?j)"
    "pow2 (int ?i) = pow2 (?e + 1) * pow2 (int ?j - 1)"
    using pow2_split [of "int ?i - 1" "?e - 1"] pow2_split [of "int ?i" "?e + 1"] by simp_all
  have "pow2 (?e - 1) * of_int b \<le> pow2 (?e - 1) * pow2 (int ?j)"
    using floorlog_pow2(2) [OF b] by (intro mult_left_mono) auto
  also have "\<dots> \<le> of_int a" using floorlog_pow2(1) [OF a] split by simp
  finally have low: "pow2 (?e - 1) \<le> q" using b by (simp add: q le_divide_eq)
  have "of_int a < pow2 (?e + 1) * pow2 (int ?j - 1)"
    using floorlog_pow2(2) [OF a] by (simp only: split(2))
  also have "\<dots> \<le> pow2 (?e + 1) * of_int b"
    using floorlog_pow2(1) [OF b] by (intro mult_left_mono) auto
  finally have "q < pow2 (?e + 1)" using b by (simp add: q divide_less_eq)
  with low show ?thesis by (auto simp: exponent_def ab Let_def bit_length_floorlog)
qed

lemma round_even_of_int [simp]: "round_even (of_int n) = n"
  by (simp add: round_even_def)

lemma round_even_mono:
  assumes "p \<le> q" shows "round_even p \<le> round_even q"
proof (cases "\<lfloor>p\<rfloor> = \<lfloor>q\<rfloor>")
  case True
  with assms show ?thesis by (auto simp: round_even_def Let_def)
next
  case False
  with assms have "\<lfloor>p\<rfloor> + 1 \<le> \<lfloor>q\<rfloor>" using floor_mono [of p q] by linarith
  moreover have "round_even p \<le> \<lfloor>p\<rfloor> + 1" "\<lfloor>q\<rfloor> \<le> round_even q"
    by (simp_all add: round_even_def Let_def)
  ultimately show ?thesis by linarith
qed

lemma exponent_mono:
  assumes "0 < p" and "p \<le> q" shows "exponent p \<le> exponent q"
proof -
  have "pow2 (exponent p) \<le> p" "q < pow2 (exponent q + 1)"
    using assms exponent_bounds [of p] exponent_bounds [of q] by auto
  with assms(2) have "pow2 (exponent p) < pow2 (exponent q + 1)" by linarith
  then have "exponent p < exponent q + 1"
    by (metis not_less one_less_numeral_iff power_int_increasing semiring_norm(76) less_imp_le)
  then show ?thesis by simp
qed

lemma round53_range:
  assumes "0 < q"
  shows "pow2 (exponent q) \<le> round53 q \<and> round53 q \<le> pow2 (exponent q + 1)"
proof -
  let ?e = "exponent q" and ?u = "pow2 (exponent q - 52)"
  have scale: "pow2 ?e = of_int (2 ^ 52) * ?u" "pow2 (?e + 1) = of_int (2 ^ 53) * ?u"
  proof -
    have "pow2 ?e = pow2 52 * ?u" "pow2 (?e + 1) = pow2 53 * ?u"
      using pow2_split [of ?e 52] pow2_split [of "?e + 1" 53] by simp_all
    then show "pow2 ?e = of_int (2 ^ 52) * ?u" "pow2 (?e + 1) = of_int (2 ^ 53) * ?u" by simp_all
  qed
  have u: "0 < ?u" by simp
  from exponent_bounds [OF assms] have "of_int (2 ^ 52) \<le> q / ?u" "q / ?u \<le> of_int (2 ^ 53)"
    unfolding scale using u by (simp_all add: le_divide_eq divide_le_eq)
  from round_even_mono [OF this(1)] round_even_mono [OF this(2)]
  have "2 ^ 52 \<le> round_even (q / ?u)" "round_even (q / ?u) \<le> 2 ^ 53"
    unfolding round_even_of_int by simp_all
  then have "of_int (2 ^ 52) * ?u \<le> of_int (round_even (q / ?u)) * ?u"
    "of_int (round_even (q / ?u)) * ?u \<le> of_int (2 ^ 53) * ?u"
    using u by (intro mult_right_mono; simp)+
  then show ?thesis using assms by (simp only: round53_def scale abs_of_pos Let_def if_False) auto
qed

lemma round53_mono:
  assumes "0 \<le> p" and "p \<le> q" shows "round53 p \<le> round53 q"
proof (cases "p = 0")
  case True
  show ?thesis
  proof (cases "q = 0")
    case False
    with assms have "0 < q" by simp
    have "0 \<le> pow2 (exponent q)" by simp
    with round53_range [OF \<open>0 < q\<close>] have "0 \<le> round53 q" by linarith
    with True show ?thesis by (simp add: round53_def [of 0])
  qed (use True in simp)
next
  case False
  with assms have p: "0 < p" "0 < q" by auto
  show ?thesis
  proof (cases "exponent p = exponent q")
    case True
    let ?u = "pow2 (exponent q - 52)"
    have "p / ?u \<le> q / ?u" using assms by (intro divide_right_mono) auto
    then have "of_int (round_even (p / ?u)) * ?u \<le> of_int (round_even (q / ?u)) * ?u"
      using round_even_mono by (intro mult_right_mono) auto
    then show ?thesis using p by (simp add: round53_def Let_def True)
  next
    case False
    then have "exponent p + 1 \<le> exponent q" using exponent_mono [OF p(1) assms(2)] by simp
    then have "pow2 (exponent p + 1) \<le> pow2 (exponent q)" by (intro power_int_increasing) auto
    then show ?thesis using round53_range [OF p(1)] round53_range [OF p(2)] by linarith
  qed
qed

lemma round53_pos: "0 < q \<Longrightarrow> 0 < round53 q"
  using round53_range [of q] by (meson less_le_trans zero_less_numeral zero_less_power_int)

lemma round53_0 [simp]: "round53 0 = 0"
  by (simp add: round53_def)

text \<open>An integer below \<open>2^53\<close> is a \<open>float64\<close> already.\<close>

lemma round53_exact:
  assumes "n < 2 ^ 53" shows "round53 (of_nat n) = of_nat n"
proof (cases "n = 0")
  case False
  let ?q = "of_nat n :: rat"
  let ?e = "exponent ?q"
  have q: "0 < ?q" using False by simp
  have "pow2 ?e \<le> ?q" using exponent_bounds [OF q] by simp
  also have "?q < pow2 53"
    using assms by (metis of_nat_less_iff of_nat_numeral of_nat_power power_int_numeral)
  finally have "?e < 53"
    by (metis not_less one_le_numeral power_int_increasing)
  then have scale: "pow2 (52 - ?e) = of_int (2 ^ nat (52 - ?e))"
    by (simp add: power_int_def)
  have unit: "pow2 (?e - 52) * pow2 (52 - ?e) = 1"
    using pow2_split [of 0 "?e - 52"] by simp
  then have inv: "?q / pow2 (?e - 52) = ?q * pow2 (52 - ?e)" by (simp add: divide_eq_eq ac_simps)
  have "round_even (?q / pow2 (?e - 52)) = int n * 2 ^ nat (52 - ?e)"
    unfolding inv scale using round_even_of_int [of "int n * 2 ^ nat (52 - ?e)"] by simp
  then have "round53 ?q = of_int (int n * 2 ^ nat (52 - ?e)) * pow2 (?e - 52)"
    using q by (simp add: round53_def Let_def)
  also have "\<dots> = ?q * (pow2 (?e - 52) * pow2 (52 - ?e))" unfolding scale by simp
  finally show ?thesis unfolding unit by simp
qed simp

text \<open>Rounding is odd, hence monotone everywhere.\<close>

lemma round_even_uminus: "round_even (- q) = - round_even q"
proof (cases "q = of_int \<lfloor>q\<rfloor>")
  case True
  then show ?thesis using round_even_of_int [of "\<lfloor>q\<rfloor>"] round_even_of_int [of "- \<lfloor>q\<rfloor>"] by simp
next
  case False
  then have "\<lfloor>- q\<rfloor> = - \<lfloor>q\<rfloor> - 1"
    by (metis ceiling_altdef ceiling_def diff_add_cancel minus_diff_eq minus_equation_iff uminus_add_conv_diff)
  then show ?thesis by (auto simp: round_even_def Let_def)
qed

lemma round53_uminus: "round53 (- q) = - round53 q"
  using round_even_uminus [of "q / pow2 (exponent \<bar>q\<bar> - 52)"] by (simp add: round53_def Let_def)

lemma round53_monotone:
  assumes "p \<le> q" shows "round53 p \<le> round53 q"
proof -
  have nonneg: "0 \<le> round53 x" if "0 \<le> x" for x
    using that round53_pos [of x] by (cases "x = 0") simp_all
  consider "0 \<le> p" | "p < 0" "0 \<le> q" | "q < 0" using assms by linarith
  then show ?thesis
  proof cases
    case 1
    then show ?thesis using assms by (rule round53_mono)
  next
    case 2
    then show ?thesis using nonneg [of q] nonneg [of "- p"] by (simp add: round53_uminus)
  next
    case 3
    then show ?thesis using round53_mono [of "- q" "- p"] assms by (simp add: round53_uminus)
  qed
qed

lemma round53_int:
  assumes "\<bar>n\<bar> < 2 ^ 53" shows "round53 (of_int n) = of_int n"
proof (cases "0 \<le> n")
  case True
  then show ?thesis using round53_exact [of "nat n"] assms by (simp add: nat_less_iff)
next
  case False
  then have "round53 (- of_int n) = - of_int n"
    using round53_exact [of "nat (- n)"] assms by (simp add: nat_less_iff)
  then show ?thesis by (simp add: round53_uminus)
qed

text \<open>An integer bound survives rounding.\<close>

lemma round53_le_int: "q \<le> of_int n \<Longrightarrow> \<bar>n\<bar> < 2 ^ 53 \<Longrightarrow> round53 q \<le> of_int n"
  using round53_monotone [of q "of_int n"] by (simp add: round53_int)

end
