(* ===== verification/Crypto.thy ===== *)
theory Crypto
  imports Proto Float64
begin

text \<open>
  Addresses, hashes, signatures and the VRF: \<open>pkg/crypto/address.go\<close>, \<open>crypto.go\<close> and
  \<open>vrf.go\<close>. BLAKE3, SHA3 and Ed25519 are parameters, gathered in a record; the predicate
  \<open>lib_ok\<close> states the documented behaviour the code relies on. Everything around
  them, the bytes that are hashed, the checks on sizes and the order in which the fields of a
  message are set, is the code's.
\<close>

section \<open>Parameters\<close>

record crypto_lib =
  cl_blake3 :: "bytes \<Rightarrow> bytes"
  cl_sha3 :: "bytes \<Rightarrow> bytes"
  cl_sign :: "bytes \<Rightarrow> bytes \<Rightarrow> bytes"
  cl_verify :: "bytes \<Rightarrow> bytes \<Rightarrow> bytes \<Rightarrow> bool"
  cl_public :: "bytes \<Rightarrow> bytes"

definition PrivateKeySize :: nat where "PrivateKeySize = 64"
definition PublicKeySize :: nat where "PublicKeySize = 32"
definition SignatureSize :: nat where "SignatureSize = 64"
definition HashSize :: nat where "HashSize = 32"

record Keypair =
  kp_Private :: bytes
  kp_Public :: bytes

section \<open>Addresses\<close>

definition AddressPrefix :: string where "AddressPrefix = ''ndag''"

definition GetAddressFromPublicKey :: "crypto_lib \<Rightarrow> bytes \<Rightarrow> string" where
  "GetAddressFromPublicKey L pubKey =
     (if length pubKey = 0 then [] else AddressPrefix @ hex_encode (take 8 (cl_blake3 L pubKey)))"

datatype address_error = AddressEmpty | AddressLength nat | AddressPrefixWrong | HexLength nat
  | HexInvalid | DecodedLength nat

definition ValidateAddress :: "string \<Rightarrow> address_error option" where
  "ValidateAddress address =
     (if address = [] then Some AddressEmpty
      else if length address \<noteq> 44 then Some (AddressLength (length address))
      else if take 4 address \<noteq> AddressPrefix then Some AddressPrefixWrong
      else
        let hexPart = drop 4 address in
        if length hexPart \<noteq> 40 then Some (HexLength (length hexPart))
        else case hex_decode hexPart of
          None \<Rightarrow> Some HexInvalid
        | Some decoded \<Rightarrow>
            if length decoded \<noteq> 20 then Some (DecodedLength (length decoded)) else None)"

text \<open>\<open>Address.Bytes\<close>: \<open>hex.DecodeString\<close> returns what it decoded before the error.\<close>

fun hex_prefix :: "string \<Rightarrow> bytes" where
  "hex_prefix (c # d # cs) =
     (case (hex_value c, hex_value d) of
        (Some h, Some l) \<Rightarrow> word_of_nat (16 * h + l) # hex_prefix cs
      | _ \<Rightarrow> [])"
| "hex_prefix _ = []"

definition Address_Bytes :: "string \<Rightarrow> bytes" where
  "Address_Bytes a = (if length a < 4 then [] else hex_prefix (drop 4 a))"

definition Address_IsValid :: "string \<Rightarrow> bool" where
  "Address_IsValid a \<longleftrightarrow> ValidateAddress a = None"

section \<open>Hashes\<close>

text \<open>A \<open>[32]byte\<close> filled by \<open>copy\<close>.\<close>

definition hash_array :: "bytes \<Rightarrow> bytes" where
  "hash_array b = take HashSize (b @ replicate HashSize 0)"

definition NewHash :: bytes where "NewHash = replicate HashSize 0"

datatype hash_error = HashHexInvalid | HashLength nat

definition HashFromString :: "string \<Rightarrow> hash_error + bytes" where
  "HashFromString s =
     (case hex_decode s of
        None \<Rightarrow> Inl HashHexInvalid
      | Some b \<Rightarrow> if length b \<noteq> HashSize then Inl (HashLength (length b)) else Inr (hash_array b))"

definition Hash_String :: "bytes \<Rightarrow> string" where "Hash_String h = hex_encode h"

definition Hash_IsZero :: "bytes \<Rightarrow> bool" where "Hash_IsZero h \<longleftrightarrow> (\<forall>b \<in> set h. b = 0)"

definition HashData :: "crypto_lib \<Rightarrow> bytes list \<Rightarrow> bytes" where
  "HashData L ds = hash_array (cl_blake3 L (concat ds))"

definition StringToHash :: "crypto_lib \<Rightarrow> string \<Rightarrow> bytes" where
  "StringToHash L s = HashData L [bytes_of_string s]"

text \<open>The loop writes the bytes from the last to the first.\<close>

fun int_to_bytes_loop :: "nat \<Rightarrow> u64 \<Rightarrow> bytes \<Rightarrow> bytes" where
  "int_to_bytes_loop 0 n b = b"
| "int_to_bytes_loop (Suc i) n b = int_to_bytes_loop i (drop_bit 8 n) (b[i := ucast n])"

definition IntToBytes :: "u64 \<Rightarrow> bytes" where
  "IntToBytes n = int_to_bytes_loop 8 n (replicate 8 0)"

section \<open>What is hashed\<close>

definition eventToBytesForHashing :: "Event \<Rightarrow> bytes" where
  "eventToBytesForHashing e =
     bytes_of_string (ev_Creator e) @ bytes_of_string (fmt_i64 (ev_Timestamp e)) @
     bytes_of_string (fmt_u64 (ev_Round e)) @
     concat (map bytes_of_string (ev_Parents e)) @
     concat (map (\<lambda>tx. bytes_of_string (tx_Id tx)) (ev_Transactions e)) @
     (if length (ev_VrfProof e) > 0 then ev_VrfProof e else [])"

definition payload_bytes :: "payload \<Rightarrow> bytes" where
  "payload_bytes p =
     (case p of
        Transfer t \<Rightarrow> bytes_of_string (tp_To t) @ bytes_of_string (fmt_u64 (tp_Amount t))
      | CreateValidator c \<Rightarrow> bytes_of_string (cv_ValidatorAddress c) @ cv_PublicKey c
      | _ \<Rightarrow> [])"

definition transactionToBytesForHashing :: "Transaction \<Rightarrow> bytes" where
  "transactionToBytesForHashing tx =
     bytes_of_string (tx_ChainId tx) @ bytes_of_string (tx_NetworkId tx) @
     bytes_of_string (fmt_u64 (tx_Nonce tx)) @ bytes_of_string (fmt_u64 (tx_Fee tx)) @
     bytes_of_string (fmt_u64 (tx_GasLimit tx)) @ bytes_of_string (fmt_i64 (tx_Timestamp tx)) @
     tx_PublicKey tx @ payload_bytes (tx_Payload tx)"

definition HashEvent :: "crypto_lib \<Rightarrow> Event \<Rightarrow> bytes" where
  "HashEvent L e = HashData L [eventToBytesForHashing e]"

definition HashTransaction :: "crypto_lib \<Rightarrow> Transaction \<Rightarrow> bytes" where
  "HashTransaction L tx = HashData L [transactionToBytesForHashing tx]"

section \<open>Signatures\<close>

definition GenerateKeypair :: "crypto_lib \<Rightarrow> bytes option \<Rightarrow> Keypair option" where
  "GenerateKeypair L entropy =
     map_option (\<lambda>priv. \<lparr>kp_Private = priv, kp_Public = cl_public L priv\<rparr>) entropy"

definition KeypairFromPrivateKey :: "crypto_lib \<Rightarrow> bytes \<Rightarrow> Keypair option" where
  "KeypairFromPrivateKey L priv =
     (if length priv \<noteq> PrivateKeySize then None
      else Some \<lparr>kp_Private = priv, kp_Public = cl_public L priv\<rparr>)"

definition Sign :: "crypto_lib \<Rightarrow> Keypair \<Rightarrow> bytes \<Rightarrow> bytes option" where
  "Sign L k data =
     (if length (kp_Private k) \<noteq> PrivateKeySize then None else Some (cl_sign L (kp_Private k) data))"

definition Verify :: "crypto_lib \<Rightarrow> bytes \<Rightarrow> bytes \<Rightarrow> bytes \<Rightarrow> bool" where
  "Verify L publicKey data signature =
     (if length publicKey \<noteq> PublicKeySize \<or> length signature \<noteq> SignatureSize then False
      else cl_verify L publicKey data signature)"

text \<open>The message is changed in place: a failed signature leaves it without one.\<close>

definition SignEvent :: "crypto_lib \<Rightarrow> Event \<Rightarrow> Keypair \<Rightarrow> Event \<times> bool" where
  "SignEvent L event k =
     (let e1 = event\<lparr>ev_Signature := []\<rparr>; eventHash = HashEvent L e1 in
      case Sign L k eventHash of
        None \<Rightarrow> (e1, False)
      | Some sig \<Rightarrow> (e1\<lparr>ev_Id := Hash_String eventHash, ev_Signature := sig\<rparr>, True))"

definition SignTransaction :: "crypto_lib \<Rightarrow> Transaction \<Rightarrow> Keypair \<Rightarrow> Transaction \<times> bool" where
  "SignTransaction L tx k =
     (let tx1 = tx\<lparr>tx_Signature := []\<rparr>; txHash = HashTransaction L tx1 in
      case Sign L k txHash of
        None \<Rightarrow> (tx1, False)
      | Some sig \<Rightarrow>
          (tx1\<lparr>tx_Id := Hash_String txHash, tx_Signature := sig, tx_PublicKey := kp_Public k\<rparr>, True))"

definition VerifyEventSignature :: "Event \<Rightarrow> bool" where
  "VerifyEventSignature e =
     (if length (ev_Signature e) \<noteq> SignatureSize then False
      else if length (ev_Creator e) = 0 then False
      else True)"

definition VerifyTransactionSignature :: "crypto_lib \<Rightarrow> Transaction \<Rightarrow> bool" where
  "VerifyTransactionSignature L tx =
     (if length (tx_Signature tx) \<noteq> SignatureSize then False
      else if length (tx_PublicKey tx) \<noteq> PublicKeySize then False
      else Verify L (tx_PublicKey tx) (HashTransaction L (tx\<lparr>tx_Signature := []\<rparr>)) (tx_Signature tx))"

section \<open>The VRF\<close>

definition generateVRFNonce :: "crypto_lib \<Rightarrow> bytes \<Rightarrow> bytes \<Rightarrow> bytes outcome" where
  "generateVRFNonce L privKey message =
     (if length privKey = 0 \<or> length message = 0
      then Panic ''invalid VRF nonce generation parameters''
      else Ret (take 32 (cl_sha3 L (bytes_of_string ''NDAG_VRF_NONCE:v1.0'' @ privKey @ message))))"

definition ComputeVRF :: "crypto_lib \<Rightarrow> Keypair \<Rightarrow> bytes \<Rightarrow> (bytes \<times> bytes) option outcome" where
  "ComputeVRF L k message =
     (if length (kp_Private k) \<noteq> PrivateKeySize then Ret None
      else bind_outcome (generateVRFNonce L (kp_Private k) message)
        (\<lambda>nonce. let proof = cl_sign L (kp_Private k) nonce
                  in Ret (Some (proof, cl_blake3 L (proof @ message)))))"

definition VerifyVRF :: "crypto_lib \<Rightarrow> bytes \<Rightarrow> bytes \<Rightarrow> bytes \<Rightarrow> (bool \<times> bytes) outcome" where
  "VerifyVRF L publicKey proof message =
     (if length publicKey \<noteq> PublicKeySize \<or> length proof \<noteq> SignatureSize then Ret (False, [])
      else bind_outcome (generateVRFNonce L [] message)
        (\<lambda>nonce. if \<not> cl_verify L publicKey nonce proof then Ret (False, [])
                  else Ret (True, cl_blake3 L (proof @ message))))"

text \<open>\<open>binary.BigEndian.Uint64\<close> of eight bytes.\<close>

definition BigEndian_Uint64 :: "bytes \<Rightarrow> u64" where
  "BigEndian_Uint64 b = fold (\<lambda>x n. or (push_bit 8 n) (ucast x)) (take 8 b) 0"

definition CheckVRFEligibility :: "bytes \<Rightarrow> float64 \<Rightarrow> bool" where
  "CheckVRFEligibility out threshold =
     (if length out < 8 then False
      else f64_less (f64_of_u64 (BigEndian_Uint64 out))
             (f64_mul threshold (f64_of_u64 (- 1))))"

definition GenerateEpochVRF :: "crypto_lib \<Rightarrow> Keypair \<Rightarrow> u64 \<Rightarrow> (bytes \<times> bytes) option outcome" where
  "GenerateEpochVRF L k epoch = ComputeVRF L k (IntToBytes epoch)"

definition VerifyEpochVRF :: "crypto_lib \<Rightarrow> bytes \<Rightarrow> bytes \<Rightarrow> u64 \<Rightarrow> (bool \<times> bytes) outcome" where
  "VerifyEpochVRF L publicKey proof epoch = VerifyVRF L publicKey proof (IntToBytes epoch)"

section \<open>Behaviour relied on\<close>

text \<open>
  What the documentation of the libraries promises: digests of 32 bytes, signatures of 64,
  public keys of 32, and that a signature verifies under the public key of its private key.
\<close>

definition lib_ok :: "crypto_lib \<Rightarrow> bool" where
  "lib_ok L \<longleftrightarrow> (\<forall>b. length (cl_blake3 L b) = 32) \<and> (\<forall>k m. length (cl_sign L k m) = 64) \<and>
     (\<forall>k. length (cl_public L k) = 32) \<and> (\<forall>k m. cl_verify L (cl_public L k) m (cl_sign L k m))"

lemma lib_okD:
  assumes "lib_ok L"
  shows "length (cl_blake3 L b) = 32" "length (cl_sign L k m) = 64" "length (cl_public L k) = 32"
    "cl_verify L (cl_public L k) m (cl_sign L k m)"
  using assms by (auto simp: lib_ok_def)

lemma hash_array_digest [simp]: "length b = 32 \<Longrightarrow> hash_array b = b"
  by (simp add: hash_array_def HashSize_def)

lemma HashData_lib: "lib_ok L \<Longrightarrow> HashData L ds = cl_blake3 L (concat ds)"
  by (simp add: HashData_def lib_okD)

lemma Hash_roundtrip: "length h = HashSize \<Longrightarrow> HashFromString (Hash_String h) = Inr h"
  by (simp add: HashFromString_def Hash_String_def HashSize_def)

lemma hashing_ignores_signature [simp]:
  "transactionToBytesForHashing (tx\<lparr>tx_Signature := s\<rparr>) = transactionToBytesForHashing tx"
  "transactionToBytesForHashing (tx\<lparr>tx_Id := i\<rparr>) = transactionToBytesForHashing tx"
  by (simp_all add: transactionToBytesForHashing_def)

section \<open>A small instance of the library\<close>

text \<open>For the witnesses: digests begin with the length of the data.\<close>

definition pad32 :: "bytes \<Rightarrow> bytes" where
  "pad32 b = take 32 (b @ replicate 32 0)"

definition sample_lib :: crypto_lib where
  "sample_lib = \<lparr>cl_blake3 = (\<lambda>b. pad32 (word_of_nat (length b) # b)),
     cl_sha3 = (\<lambda>b. pad32 b),
     cl_sign = (\<lambda>k m. pad32 k @ pad32 m),
     cl_verify = (\<lambda>p m s. s = pad32 p @ pad32 m),
     cl_public = pad32\<rparr>"

lemma length_pad32 [simp]: "length (pad32 b) = 32"
  by (simp add: pad32_def)

lemma pad32_pad32 [simp]: "pad32 (pad32 b) = pad32 b"
  by (simp add: pad32_def [of "pad32 b"])

lemma sample_lib_ok: "lib_ok sample_lib"
  by (simp add: lib_ok_def sample_lib_def)

definition sample_key :: Keypair where
  "sample_key = \<lparr>kp_Private = replicate 64 7, kp_Public = replicate 32 7\<rparr>"

lemma sample_key_public: "kp_Public sample_key = cl_public sample_lib (kp_Private sample_key)"
  by (simp add: sample_key_def sample_lib_def pad32_def)

section \<open>Properties\<close>

lemma SignTransaction_result:
  assumes "lib_ok L" and "length (kp_Private k) = 64"
  shows "SignTransaction L tx k =
    (tx\<lparr>tx_Id := hex_encode (HashTransaction L tx),
        tx_Signature := cl_sign L (kp_Private k) (HashTransaction L tx),
        tx_PublicKey := kp_Public k\<rparr>, True)"
  using assms
  by (simp add: SignTransaction_def Sign_def Let_def PrivateKeySize_def Hash_String_def HashTransaction_def)

lemma VerifyTransactionSignature_sizes:
  "length (tx_Signature tx) = 64 \<Longrightarrow> length (tx_PublicKey tx) = 32 \<Longrightarrow>
     VerifyTransactionSignature L tx =
       cl_verify L (tx_PublicKey tx) (HashTransaction L tx) (tx_Signature tx)"
  by (simp add: VerifyTransactionSignature_def Verify_def SignatureSize_def PublicKeySize_def
      HashTransaction_def)

lemma SignTransaction_verifies:
  assumes "lib_ok L" and "length (kp_Private k) = 64" and "kp_Public k = cl_public L (kp_Private k)"
    and "tx_PublicKey tx = kp_Public k"
  shows "VerifyTransactionSignature L (fst (SignTransaction L tx k))"
proof -
  let ?tx = "fst (SignTransaction L tx k)"
  have tx: "?tx = tx\<lparr>tx_Id := hex_encode (HashTransaction L tx),
      tx_Signature := cl_sign L (kp_Private k) (HashTransaction L tx), tx_PublicKey := kp_Public k\<rparr>"
    by (simp add: SignTransaction_result [OF assms(1,2)])
  have "HashTransaction L ?tx = HashTransaction L tx"
    by (simp add: HashTransaction_def tx transactionToBytesForHashing_def assms(4))
  then show ?thesis
    using assms by (subst VerifyTransactionSignature_sizes) (simp_all add: tx lib_okD)
qed

lemma HashTransaction_nonempty: "hex_encode (HashTransaction L tx) \<noteq> []"
proof -
  have "length (hex_encode (HashTransaction L tx)) = 64"
    by (simp add: HashTransaction_def HashData_def hash_array_def HashSize_def length_hex_encode)
  then show ?thesis by (metis length_0_conv zero_neq_numeral)
qed

text \<open>A transaction that already carries the public key of the signing keypair verifies
  after \<open>SignTransaction\<close>.\<close>

theorem signed_transaction_verifies:
  assumes "lib_ok L" and "length (kp_Private k) = 64" and "kp_Public k = cl_public L (kp_Private k)"
    and "tx_PublicKey tx = kp_Public k"
  shows "VerifyTransactionSignature L (fst (SignTransaction L tx k))"
  using assms by (rule SignTransaction_verifies)

theorem signed_transaction_verifies_witness:
  "VerifyTransactionSignature sample_lib (fst (SignTransaction sample_lib
     (zero_transaction\<lparr>tx_Nonce := 1, tx_PublicKey := replicate 32 7\<rparr>) sample_key))"
  by (rule signed_transaction_verifies [OF sample_lib_ok _ sample_key_public])
    (simp_all add: sample_key_def)

text \<open>\<open>SignTransaction\<close> hashes before it sets the public key. A transaction signed with no
  public key set is hashed over 32 bytes fewer than it is verified over, and does not verify
  when the two digests differ and a signature of one digest is none of another.\<close>

theorem unset_key_signature_rejected:
  assumes "lib_ok L" and "length (kp_Private k) = 64" and "length (kp_Public k) = 32"
    and "tx_PublicKey tx = []"
    and unforgeable: "\<And>m m'. length m = 32 \<Longrightarrow> length m' = 32 \<Longrightarrow>
      cl_verify L (kp_Public k) m (cl_sign L (kp_Private k) m') \<Longrightarrow> m = m'"
    and no_collision: "HashTransaction L (tx\<lparr>tx_PublicKey := kp_Public k\<rparr>) \<noteq> HashTransaction L tx"
  shows "length (transactionToBytesForHashing (fst (SignTransaction L tx k))) =
      length (transactionToBytesForHashing tx) + 32 \<and>
    \<not> VerifyTransactionSignature L (fst (SignTransaction L tx k))"
proof -
  let ?tx = "fst (SignTransaction L tx k)"
  have tx: "?tx = tx\<lparr>tx_Id := hex_encode (HashTransaction L tx),
      tx_Signature := cl_sign L (kp_Private k) (HashTransaction L tx), tx_PublicKey := kp_Public k\<rparr>"
    by (simp add: SignTransaction_result [OF assms(1,2)])
  have "HashTransaction L ?tx = HashTransaction L (tx\<lparr>tx_PublicKey := kp_Public k\<rparr>)"
    by (simp add: HashTransaction_def tx transactionToBytesForHashing_def)
  moreover have "length (HashTransaction L t) = 32" for t
    using assms(1) by (simp add: HashTransaction_def HashData_lib lib_okD)
  ultimately have "\<not> cl_verify L (kp_Public k) (HashTransaction L ?tx) (tx_Signature ?tx)"
    using unforgeable [of "HashTransaction L ?tx" "HashTransaction L tx"] no_collision by (auto simp: tx)
  then have "\<not> VerifyTransactionSignature L ?tx"
    using assms(3) lib_okD(2) [OF assms(1)]
    by (subst VerifyTransactionSignature_sizes) (simp_all add: tx)
  moreover have "length (transactionToBytesForHashing ?tx) = length (transactionToBytesForHashing tx) + 32"
    using assms(3,4) by (simp add: tx transactionToBytesForHashing_def)
  ultimately show ?thesis by simp
qed

theorem unset_key_signature_rejected_witness:
  "\<not> VerifyTransactionSignature sample_lib
     (fst (SignTransaction sample_lib (zero_transaction\<lparr>tx_Nonce := 1\<rparr>) sample_key))"
proof -
  let ?tx = "zero_transaction\<lparr>tx_Nonce := 1\<rparr>"
  have "HashTransaction sample_lib (?tx\<lparr>tx_PublicKey := kp_Public sample_key\<rparr>) \<noteq>
      HashTransaction sample_lib ?tx" by code_simp
  moreover have "m = m'" if "length m = 32" "length m' = 32"
    "cl_verify sample_lib (kp_Public sample_key) m (cl_sign sample_lib (kp_Private sample_key) m')" for m m'
    using that by (simp add: sample_lib_def pad32_def sample_key_def)
  ultimately show ?thesis
    using unset_key_signature_rejected [OF sample_lib_ok, of sample_key ?tx]
    by (simp add: sample_key_def zero_transaction_def)
qed

definition unsigned_payload :: "payload \<Rightarrow> bool" where
  "unsigned_payload p = (case p of Transfer _ \<Rightarrow> False | CreateValidator _ \<Rightarrow> False | _ \<Rightarrow> True)"

text \<open>C36: the signature binds only the payloads of transfers and of validator creations: any
  other payload can be exchanged for any other one, and the memo of a transfer rewritten,
  without invalidating it.\<close>

theorem signature_ignores_payload:
  "(unsigned_payload (tx_Payload tx) \<and> unsigned_payload p \<longrightarrow>
      VerifyTransactionSignature L (tx\<lparr>tx_Payload := p\<rparr>) = VerifyTransactionSignature L tx) \<and>
   (tx_Payload tx = Transfer t \<longrightarrow>
      VerifyTransactionSignature L (tx\<lparr>tx_Payload := Transfer (t\<lparr>tp_Memo := memo\<rparr>)\<rparr>) =
      VerifyTransactionSignature L tx)"
proof -
  have "payload_bytes q = []" if "unsigned_payload q" for q
    using that by (cases q) (auto simp: unsigned_payload_def payload_bytes_def)
  then show ?thesis
    by (auto simp: VerifyTransactionSignature_def HashTransaction_def transactionToBytesForHashing_def
        payload_bytes_def [of "Transfer _"])
qed

definition nft_to_bob :: Transaction where
  "nft_to_bob = fst (SignTransaction sample_lib (zero_transaction\<lparr>tx_Nonce := 1, tx_PublicKey := replicate 32 7,
     tx_Payload := TransferNft \<lparr>tn_CollectionId = ''c'', tn_NftId = ''1'', tn_To = ''bob''\<rparr>\<rparr>) sample_key)"

theorem signature_ignores_payload_witness:
  "VerifyTransactionSignature sample_lib nft_to_bob \<and>
   VerifyTransactionSignature sample_lib (nft_to_bob\<lparr>tx_Payload := TransferNft
      \<lparr>tn_CollectionId = ''c'', tn_NftId = ''1'', tn_To = ''eve''\<rparr>\<rparr>)"
proof
  show signed: "VerifyTransactionSignature sample_lib nft_to_bob"
    unfolding nft_to_bob_def
    by (rule SignTransaction_verifies [OF sample_lib_ok _ sample_key_public]) (simp_all add: sample_key_def)
  have "tx_Payload nft_to_bob = TransferNft \<lparr>tn_CollectionId = ''c'', tn_NftId = ''1'', tn_To = ''bob''\<rparr>"
    unfolding nft_to_bob_def by (subst SignTransaction_result [OF sample_lib_ok]) (simp_all add: sample_key_def)
  then have "VerifyTransactionSignature sample_lib (nft_to_bob\<lparr>tx_Payload := TransferNft
      \<lparr>tn_CollectionId = ''c'', tn_NftId = ''1'', tn_To = ''eve''\<rparr>\<rparr>) = VerifyTransactionSignature sample_lib nft_to_bob"
    by (intro signature_ignores_payload [THEN conjunct1, rule_format] conjI) (simp_all add: unsigned_payload_def)
  with signed show "VerifyTransactionSignature sample_lib (nft_to_bob\<lparr>tx_Payload := TransferNft
      \<lparr>tn_CollectionId = ''c'', tn_NftId = ''1'', tn_To = ''eve''\<rparr>\<rparr>)" by simp
qed

text \<open>No address that \<open>GetAddressFromPublicKey\<close> makes is accepted by \<open>ValidateAddress\<close>:
  it has at most 20 characters, not the 44 that are demanded.\<close>

theorem generated_address_invalid:
  "Address_IsValid (GetAddressFromPublicKey L pubKey) = False \<and>
   length (GetAddressFromPublicKey L pubKey) \<le> 20"
  by (auto simp: Address_IsValid_def ValidateAddress_def GetAddressFromPublicKey_def AddressPrefix_def)

text \<open>\<open>VerifyVRF\<close> accepts nothing: inputs of the wrong size are refused, all others make
  the nonce generation panic on the empty private key it is given.\<close>

theorem VerifyVRF_never_accepts:
  "VerifyVRF L publicKey proof message =
    (if length publicKey = 32 \<and> length proof = 64
     then Panic ''invalid VRF nonce generation parameters'' else Ret (False, []))"
  by (simp add: VerifyVRF_def generateVRFNonce_def PublicKeySize_def SignatureSize_def)

text \<open>The numbers are hashed in decimal without separators.\<close>

lemma preimage_ambiguous:
  "transactionToBytesForHashing (zero_transaction\<lparr>tx_Nonce := 1, tx_Fee := 23\<rparr>) =
   transactionToBytesForHashing (zero_transaction\<lparr>tx_Nonce := 12, tx_Fee := 3\<rparr>)"
  by code_simp

end
