(* ===== verification/Storage.thy ===== *)
theory Storage
  imports Prelude
begin

text \<open>
  The stores of \<open>pkg/storage/storage.go\<close>. LevelDB is a parameter over its own type of
  states; \<open>LevelDBEngine\<close> and the five stores are the code's. The locale \<open>key_scheme\<close> is
  what a store promises its clients: keys that do not collide, hence a read that returns the
  last write; it is interpreted on the key of every store but the one for NFTs, whose keys
  collide.
\<close>

section \<open>LevelDB\<close>

datatype ldb_error = LdbNotFound | LdbError string

datatype batch_op = BatchPut bytes bytes | BatchDelete bytes

record 'd leveldb =
  ldb_get :: "'d \<Rightarrow> bytes \<Rightarrow> ldb_error + bytes"
  ldb_put :: "'d \<Rightarrow> bytes \<Rightarrow> bytes \<Rightarrow> 'd \<times> string option"
  ldb_delete :: "'d \<Rightarrow> bytes \<Rightarrow> 'd \<times> string option"
  ldb_has :: "'d \<Rightarrow> bytes \<Rightarrow> string + bool"
  ldb_range :: "'d \<Rightarrow> bytes \<Rightarrow> bytes \<Rightarrow> (bytes \<times> bytes) list \<times> string option"
  ldb_write :: "'d \<Rightarrow> batch_op list \<Rightarrow> 'd \<times> string option"
  ldb_close :: "'d \<Rightarrow> string option"

section \<open>The engine\<close>

datatype st_error = ErrNotFound | StoreFailed string

definition st_error_text :: "st_error \<Rightarrow> string" where
  "st_error_text e = (case e of ErrNotFound \<Rightarrow> ''key not found'' | StoreFailed m \<Rightarrow> m)"

definition Engine_Get :: "'d leveldb \<Rightarrow> 'd \<Rightarrow> bytes \<Rightarrow> st_error + bytes" where
  "Engine_Get L d key =
     (case ldb_get L d key of
        Inr value \<Rightarrow> Inr value
      | Inl LdbNotFound \<Rightarrow> Inl ErrNotFound
      | Inl (LdbError m) \<Rightarrow> Inl (StoreFailed (wrap ''failed to get from database'' m)))"

definition Engine_Put :: "'d leveldb \<Rightarrow> 'd \<Rightarrow> bytes \<Rightarrow> bytes \<Rightarrow> 'd \<times> st_error option" where
  "Engine_Put L d key value =
     (let (d1, err) = ldb_put L d key value in
      (d1, map_option (\<lambda>m. StoreFailed (wrap ''failed to put to database'' m)) err))"

definition Engine_Delete :: "'d leveldb \<Rightarrow> 'd \<Rightarrow> bytes \<Rightarrow> 'd \<times> st_error option" where
  "Engine_Delete L d key =
     (let (d1, err) = ldb_delete L d key in
      (d1, map_option (\<lambda>m. StoreFailed (wrap ''failed to delete from database'' m)) err))"

definition Engine_Has :: "'d leveldb \<Rightarrow> 'd \<Rightarrow> bytes \<Rightarrow> st_error + bool" where
  "Engine_Has L d key = (case ldb_has L d key of Inr b \<Rightarrow> Inr b | Inl m \<Rightarrow> Inl (StoreFailed m))"

definition Engine_SearchRange :: "'d leveldb \<Rightarrow> 'd \<Rightarrow> bytes \<Rightarrow> bytes \<Rightarrow>
    st_error + (string \<times> bytes) list" where
  "Engine_SearchRange L d start limit =
     (let (entries, err) = ldb_range L d start limit;
          result = fold (\<lambda>(k, v) m. AList.update (string_of_bytes k) v m) entries []
      in case err of
           Some m \<Rightarrow> Inl (StoreFailed (wrap ''iterator error'' m))
         | None \<Rightarrow> Inr result)"

text \<open>\<open>NewLevelDBEngine\<close> and \<open>NewStore\<close>: \<open>opened\<close> is what \<open>leveldb.OpenFile\<close> answers.\<close>

definition NewLevelDBEngine :: "string + 'd \<Rightarrow> string \<Rightarrow> string + 'd" where
  "NewLevelDBEngine opened path =
     (case opened of
        Inl err \<Rightarrow> Inl (wrap (''failed to open LevelDB at '' @ path) err)
      | Inr d \<Rightarrow> Inr d)"

definition NewStore :: "string + 'd \<Rightarrow> string \<Rightarrow> string + 'd" where
  "NewStore opened dbPath =
     (case NewLevelDBEngine opened dbPath of
        Inl err \<Rightarrow> Inl (wrap (''failed to create database engine at '' @ dbPath) err)
      | Inr d \<Rightarrow> Inr d)"

definition Engine_Close :: "'d leveldb \<Rightarrow> 'd \<Rightarrow> st_error option" where
  "Engine_Close L d = map_option StoreFailed (ldb_close L d)"

text \<open>A store without an engine closes at once.\<close>

definition Store_Close :: "'d leveldb \<Rightarrow> 'd option \<Rightarrow> st_error option" where
  "Store_Close L dbEngine = (case dbEngine of None \<Rightarrow> None | Some d \<Rightarrow> Engine_Close L d)"

text \<open>A batch is the list of its operations until it is written.\<close>

definition NewBatch :: "batch_op list" where
  "NewBatch = []"

definition Batch_Put :: "batch_op list \<Rightarrow> bytes \<Rightarrow> bytes \<Rightarrow> batch_op list" where
  "Batch_Put b key value = b @ [BatchPut key value]"

definition Batch_Delete :: "batch_op list \<Rightarrow> bytes \<Rightarrow> batch_op list" where
  "Batch_Delete b key = b @ [BatchDelete key]"

definition Batch_Write :: "'d leveldb \<Rightarrow> 'd \<Rightarrow> batch_op list \<Rightarrow> 'd \<times> st_error option" where
  "Batch_Write L d b = (let (d1, err) = ldb_write L d b in (d1, map_option StoreFailed err))"

definition Batch_Reset :: "batch_op list \<Rightarrow> batch_op list" where
  "Batch_Reset b = []"

section \<open>The stores\<close>

definition event_key :: "string \<Rightarrow> bytes" where "event_key i = bytes_of_string (''event:'' @ i)"
definition tx_key :: "string \<Rightarrow> bytes" where "tx_key i = bytes_of_string (''tx:'' @ i)"
definition account_key :: "string \<Rightarrow> bytes" where "account_key a = bytes_of_string (''account:'' @ a)"
definition token_key :: "string \<Rightarrow> bytes" where "token_key t = bytes_of_string (''token:'' @ t)"
definition validator_key :: "string \<Rightarrow> bytes" where
  "validator_key a = bytes_of_string (''validator:'' @ a)"
definition nft_key :: "string \<Rightarrow> string \<Rightarrow> bytes" where
  "nft_key c n = bytes_of_string (''nft:'' @ c @ '':'' @ n)"

text \<open>\<open>EventStore\<close> takes the id as bytes and appends them to the prefix.\<close>

definition event_id_key :: "bytes \<Rightarrow> bytes" where "event_id_key i = bytes_of_string ''event:'' @ i"

definition Store_GetEvent :: "'d leveldb \<Rightarrow> 'd \<Rightarrow> string \<Rightarrow> st_error + bytes" where
  "Store_GetEvent L d i = Engine_Get L d (event_key i)"
definition Store_GetTransaction :: "'d leveldb \<Rightarrow> 'd \<Rightarrow> string \<Rightarrow> st_error + bytes" where
  "Store_GetTransaction L d i = Engine_Get L d (tx_key i)"
definition Store_PutEvent :: "'d leveldb \<Rightarrow> 'd \<Rightarrow> string \<Rightarrow> bytes \<Rightarrow> 'd \<times> st_error option" where
  "Store_PutEvent L d i data = Engine_Put L d (event_key i) data"
definition Store_PutTransaction :: "'d leveldb \<Rightarrow> 'd \<Rightarrow> string \<Rightarrow> bytes \<Rightarrow> 'd \<times> st_error option" where
  "Store_PutTransaction L d i data = Engine_Put L d (tx_key i) data"

definition EventStore_Put :: "'d leveldb \<Rightarrow> 'd \<Rightarrow> bytes \<Rightarrow> bytes \<Rightarrow> 'd \<times> st_error option" where
  "EventStore_Put L d i data = Engine_Put L d (event_id_key i) data"
definition EventStore_Get :: "'d leveldb \<Rightarrow> 'd \<Rightarrow> bytes \<Rightarrow> st_error + bytes" where
  "EventStore_Get L d i = Engine_Get L d (event_id_key i)"
definition EventStore_Has :: "'d leveldb \<Rightarrow> 'd \<Rightarrow> bytes \<Rightarrow> st_error + bool" where
  "EventStore_Has L d i = Engine_Has L d (event_id_key i)"

definition StateStore_GetAccount :: "'d leveldb \<Rightarrow> 'd \<Rightarrow> string \<Rightarrow> st_error + bytes" where
  "StateStore_GetAccount L d a = Engine_Get L d (account_key a)"
definition StateStore_PutAccount :: "'d leveldb \<Rightarrow> 'd \<Rightarrow> string \<Rightarrow> bytes \<Rightarrow> 'd \<times> st_error option" where
  "StateStore_PutAccount L d a data = Engine_Put L d (account_key a) data"

definition TokenStore_GetToken :: "'d leveldb \<Rightarrow> 'd \<Rightarrow> string \<Rightarrow> st_error + bytes" where
  "TokenStore_GetToken L d t = Engine_Get L d (token_key t)"
definition TokenStore_PutToken :: "'d leveldb \<Rightarrow> 'd \<Rightarrow> string \<Rightarrow> bytes \<Rightarrow> 'd \<times> st_error option" where
  "TokenStore_PutToken L d t data = Engine_Put L d (token_key t) data"

definition NFTStore_GetNFT :: "'d leveldb \<Rightarrow> 'd \<Rightarrow> string \<Rightarrow> string \<Rightarrow> st_error + bytes" where
  "NFTStore_GetNFT L d c n = Engine_Get L d (nft_key c n)"
definition NFTStore_PutNFT :: "'d leveldb \<Rightarrow> 'd \<Rightarrow> string \<Rightarrow> string \<Rightarrow> bytes \<Rightarrow> 'd \<times> st_error option" where
  "NFTStore_PutNFT L d c n data = Engine_Put L d (nft_key c n) data"

definition ValidatorStore_GetValidator :: "'d leveldb \<Rightarrow> 'd \<Rightarrow> string \<Rightarrow> st_error + bytes" where
  "ValidatorStore_GetValidator L d a = Engine_Get L d (validator_key a)"
definition ValidatorStore_PutValidator :: "'d leveldb \<Rightarrow> 'd \<Rightarrow> string \<Rightarrow> bytes \<Rightarrow> 'd \<times> st_error option" where
  "ValidatorStore_PutValidator L d a data = Engine_Put L d (validator_key a) data"

section \<open>LevelDB without faults\<close>

text \<open>
  The documented behaviour of the database on a disk that does not fail: \<open>view\<close> reads its
  contents, \<open>Get\<close> looks a key up, \<open>Put\<close> sets it and changes no other.
\<close>

definition ldb_ok :: "'d leveldb \<Rightarrow> ('d \<Rightarrow> bytes \<rightharpoonup> bytes) \<Rightarrow> bool" where
  "ldb_ok L view \<longleftrightarrow>
     (\<forall>d k. ldb_get L d k = (case view d k of None \<Rightarrow> Inl LdbNotFound | Some v \<Rightarrow> Inr v)) \<and>
     (\<forall>d k v. snd (ldb_put L d k v) = None \<and> view (fst (ldb_put L d k v)) = (view d)(k \<mapsto> v))"

lemma Engine_Get_ok:
  "ldb_ok L view \<Longrightarrow> Engine_Get L d k = (case view d k of None \<Rightarrow> Inl ErrNotFound | Some v \<Rightarrow> Inr v)"
  by (simp add: Engine_Get_def ldb_ok_def split: option.splits)

lemma Engine_Put_ok:
  "ldb_ok L view \<Longrightarrow> \<exists>d'. Engine_Put L d k v = (d', None) \<and> view d' = (view d)(k \<mapsto> v)"
  by (auto simp: Engine_Put_def ldb_ok_def split: prod.splits) (metis fst_conv snd_conv)+

text \<open>A database in memory, for the witnesses.\<close>

definition mem_ldb :: "(bytes \<rightharpoonup> bytes) leveldb" where
  "mem_ldb = \<lparr>ldb_get = (\<lambda>d k. case d k of None \<Rightarrow> Inl LdbNotFound | Some v \<Rightarrow> Inr v),
     ldb_put = (\<lambda>d k v. (d(k \<mapsto> v), None)), ldb_delete = (\<lambda>d k. (d(k := None), None)),
     ldb_has = (\<lambda>d k. Inr (d k \<noteq> None)), ldb_range = (\<lambda>d s e. ([], None)),
     ldb_write = (\<lambda>d ops. (fold (\<lambda>p d. case p of BatchPut k v \<Rightarrow> d(k \<mapsto> v)
        | BatchDelete k \<Rightarrow> d(k := None)) ops d, None)),
     ldb_close = (\<lambda>d. None)\<rparr>"

lemma mem_ldb_ok: "ldb_ok mem_ldb (\<lambda>d. d)"
  by (simp add: ldb_ok_def mem_ldb_def)

section \<open>Tables\<close>

locale key_scheme =
  fixes key :: "'k \<Rightarrow> bytes"
  assumes inj: "key a = key b \<Longrightarrow> a = b"
begin

text \<open>The table a store keeps, read through the engine.\<close>

definition table :: "('d \<Rightarrow> bytes \<rightharpoonup> bytes) \<Rightarrow> 'd \<Rightarrow> 'k \<rightharpoonup> bytes" where
  "table view d k = view d (key k)"

lemma get_table:
  "ldb_ok L view \<Longrightarrow>
     Engine_Get L d (key k) = (case table view d k of None \<Rightarrow> Inl ErrNotFound | Some v \<Rightarrow> Inr v)"
  by (simp add: Engine_Get_ok table_def)

lemma put_table:
  assumes "ldb_ok L view"
  shows "\<exists>d'. Engine_Put L d (key k) v = (d', None) \<and> table view d' = (table view d)(k \<mapsto> v)"
proof -
  obtain d' where "Engine_Put L d (key k) v = (d', None)" "view d' = (view d)(key k \<mapsto> v)"
    using Engine_Put_ok [OF assms] by blast
  moreover from this have "table view d' = (table view d)(k \<mapsto> v)"
    by (auto simp: table_def fun_eq_iff dest: inj)
  ultimately show ?thesis by blast
qed

lemma get_put:
  assumes "ldb_ok L view"
  shows "Engine_Get L (fst (Engine_Put L d (key k) v)) (key j) =
    (if j = k then Inr v else Engine_Get L d (key j))"
  using put_table [OF assms, of d k v] get_table [OF assms] by auto

text \<open>A write under a key of no shape of this table leaves the table alone.\<close>

lemma put_elsewhere:
  assumes "ldb_ok L view" and "\<And>j. key j \<noteq> k"
  shows "\<exists>d'. Engine_Put L d k v = (d', None) \<and> table view d' = table view d"
proof -
  obtain d' where "Engine_Put L d k v = (d', None)" "view d' = (view d)(k \<mapsto> v)"
    using Engine_Put_ok [OF assms(1)] by blast
  with assms(2) show ?thesis by (intro exI [of _ d']) (auto simp: table_def fun_eq_iff)
qed

end

interpretation event_table: key_scheme event_key
  by unfold_locales (simp add: event_key_def)
interpretation event_id_table: key_scheme event_id_key
  by unfold_locales (simp add: event_id_key_def)
interpretation tx_table: key_scheme tx_key
  by unfold_locales (simp add: tx_key_def)
interpretation account_table: key_scheme account_key
  by unfold_locales (simp add: account_key_def)
interpretation token_table: key_scheme token_key
  by unfold_locales (simp add: token_key_def)
interpretation validator_table: key_scheme validator_key
  by unfold_locales (simp add: validator_key_def)

text \<open>The prefixes keep the tables apart.\<close>

lemma keys_apart:
  "account_key a \<noteq> token_key t" "account_key a \<noteq> validator_key v" "account_key a \<noteq> nft_key c n"
  "account_key a \<noteq> event_key e" "account_key a \<noteq> tx_key x" "token_key t \<noteq> account_key a"
  "validator_key v \<noteq> account_key a" "token_key t \<noteq> validator_key v" "event_key e \<noteq> tx_key x"
  by (simp_all add: account_key_def token_key_def validator_key_def nft_key_def event_key_def tx_key_def
      bytes_of_string_def)

text \<open>The two ways to name an event agree.\<close>

lemma event_keys_agree: "event_id_key (bytes_of_string i) = event_key i"
  by (simp add: event_id_key_def event_key_def bytes_of_string_def)

section \<open>Properties\<close>



text \<open>Two NFTs share a key when a colon moves from one id to the other.\<close>

lemma nft_keys_collide: "nft_key ''a'' ''b:c'' = nft_key ''a:b'' ''c''"
  by (simp add: nft_key_def)

end
