(* ===== verification/Executor.thy ===== *)
theory Executor
  imports StateMachine Crypto Storage
begin

text \<open>
  The transaction executor of \<open>pkg/state/executor.go\<close>: transactions executed against the
  accounts, tokens, validators and collections of the store. The sender is read once and held
  in the context while a handler reads and writes accounts of its own, so a sender that is
  also the recipient is two objects here, as it is in the code. Protobuf, the clock, the event
  ids and the operations the repository calls but does not define (the handlers for burning a
  token and moving an NFT, the collections of the NFT store) are parameters.
\<close>

section \<open>State and parameters\<close>

record 'd exec_state =
  xs_db :: 'd
  xs_consensus :: Engine

record ExecutionContext =
  ec_Sender :: AccountState
  ec_Tx :: Transaction
  ec_GasUsed :: u64
  ec_Refund :: u64
  ec_Events :: "Event list"

record ExecutionResult =
  er_TxID :: string
  er_Success :: bool
  er_GasUsed :: u64
  er_Events :: "Event list"
  er_Log :: string

text \<open>
  What a handler leaves: the state, the context it wrote through its pointer, and the error
  or result it returns unless it panics.
\<close>

type_synonym 'd handled =
  "'d exec_state \<times> ExecutionContext \<times> (string + ExecutionResult) outcome"

record 'd exec_env =
  xe_lib :: crypto_lib
  xe_ldb :: "'d leveldb"
  xe_marshalAccount :: "Account \<Rightarrow> string + bytes"
  xe_unmarshalAccount :: "bytes \<Rightarrow> string + Account"
  xe_marshalValidator :: "Validator \<Rightarrow> string + bytes"
  xe_unmarshalValidator :: "bytes \<Rightarrow> string + Validator"
  xe_marshalToken :: "Token \<Rightarrow> string + bytes"
  xe_unmarshalToken :: "bytes \<Rightarrow> string + Token"
  xe_marshalNFT :: "NFT \<Rightarrow> string + bytes"
  xe_marshalCollection :: "NFTCollection \<Rightarrow> string + bytes"
  xe_unmarshalCollection :: "bytes \<Rightarrow> string + NFTCollection"
  xe_GetCollection :: "'d \<Rightarrow> string \<Rightarrow> string + bytes"
  xe_PutCollection :: "'d \<Rightarrow> string \<Rightarrow> bytes \<Rightarrow> 'd \<times> string option"
  xe_executeBurnToken :: "'d exec_state \<Rightarrow> ExecutionContext \<Rightarrow> BurnTokenPayload \<Rightarrow> 'd handled"
  xe_executeTransferNFT :: "'d exec_state \<Rightarrow> ExecutionContext \<Rightarrow> TransferNFTPayload \<Rightarrow> 'd handled"
  xe_generateEventID :: string
  xe_nowUnixNano :: i64
  xe_nowUnix :: i64
  xe_rounds :: "string list"

definition NewExecutionResult :: "string \<Rightarrow> bool \<Rightarrow> string \<Rightarrow> u64 \<Rightarrow> Event list \<Rightarrow> ExecutionResult" where
  "NewExecutionResult txID success note gasUsed events =
     \<lparr>er_TxID = txID, er_Success = success, er_GasUsed = gasUsed, er_Events = events, er_Log = note\<rparr>"

section \<open>Accounts in the store\<close>

definition account_of_pb :: "Account \<Rightarrow> AccountState" where
  "account_of_pb account = \<lparr>ast_Address = ac_Address account, ast_Balance = ac_Balance account,
     ast_Nonce = ac_Nonce account, ast_PublicKey = ac_PublicKey account,
     ast_Tokens = ac_Tokens account, ast_NFTs = [], ast_Delegated = ac_DelegatedStake account,
     ast_Validator = ac_Validator account\<rparr>"

definition pb_of_account :: "AccountState \<Rightarrow> Account" where
  "pb_of_account account = \<lparr>ac_Address = ast_Address account, ac_Balance = ast_Balance account,
     ac_Nonce = ast_Nonce account, ac_PublicKey = ast_PublicKey account,
     ac_DelegatedStake = ast_Delegated account, ac_Validator = ast_Validator account,
     ac_Tokens = ast_Tokens account\<rparr>"

definition getAccount :: "'d exec_env \<Rightarrow> 'd exec_state \<Rightarrow> string \<Rightarrow> string + AccountState" where
  "getAccount E st address =
     (case StateStore_GetAccount (xe_ldb E) (xs_db st) address of
        Inl ErrNotFound \<Rightarrow> Inl (''account not found: '' @ address)
      | Inl (StoreFailed m) \<Rightarrow> Inl (wrap ''failed to get account'' m)
      | Inr accountData \<Rightarrow>
          (case xe_unmarshalAccount E accountData of
             Inl m \<Rightarrow> Inl (wrap ''failed to unmarshal account'' m)
           | Inr account \<Rightarrow> Inr (account_of_pb account)))"

definition getOrCreateAccount :: "'d exec_env \<Rightarrow> 'd exec_state \<Rightarrow> string \<Rightarrow> AccountState" where
  "getOrCreateAccount E st address =
     (case getAccount E st address of
        Inl err \<Rightarrow> fresh_account address
      | Inr account \<Rightarrow> account)"

definition getValidator :: "'d exec_env \<Rightarrow> 'd exec_state \<Rightarrow> string \<Rightarrow> string + Validator" where
  "getValidator E st address =
     (case ValidatorStore_GetValidator (xe_ldb E) (xs_db st) address of
        Inl err \<Rightarrow> Inl (wrap ''failed to get validator'' (st_error_text err))
      | Inr validatorData \<Rightarrow>
          (case xe_unmarshalValidator E validatorData of
             Inl m \<Rightarrow> Inl (wrap ''failed to unmarshal validator'' m)
           | Inr validator \<Rightarrow> Inr validator))"

definition saveAccount :: "'d exec_env \<Rightarrow> 'd exec_state \<Rightarrow> AccountState \<Rightarrow>
    'd exec_state \<times> string option" where
  "saveAccount E st account =
     (case xe_marshalAccount E (pb_of_account account) of
        Inl m \<Rightarrow> (st, Some (wrap ''failed to marshal account'' m))
      | Inr accountData \<Rightarrow>
          (case StateStore_PutAccount (xe_ldb E) (xs_db st) (ast_Address account) accountData of
             (d, Some err) \<Rightarrow> (st\<lparr>xs_db := d\<rparr>, Some (wrap ''failed to save account'' (st_error_text err)))
           | (d, None) \<Rightarrow> (st\<lparr>xs_db := d\<rparr>, None)))"

definition hasSufficientBalance :: "AccountState \<Rightarrow> u64 \<Rightarrow> bool" where
  "hasSufficientBalance account amount \<longleftrightarrow> ast_Balance account \<ge> amount"

text \<open>The event of a result; reading the current round writes the engine's cache of it.\<close>

definition emit_event :: "'d exec_env \<Rightarrow> 'd exec_state \<Rightarrow> string \<Rightarrow> 'd exec_state \<times> Event" where
  "emit_event E st creator =
     (let (c, r) = CurrentRound (xe_rounds E) (xs_consensus st)
      in (st\<lparr>xs_consensus := c\<rparr>,
          zero_event\<lparr>ev_Id := xe_generateEventID E, ev_Creator := creator,
            ev_Timestamp := xe_nowUnixNano E, ev_Round := r\<rparr>))"

text \<open>The last statement of every handler: a result with one event.\<close>

definition succeed :: "'d exec_env \<Rightarrow> 'd exec_state \<Rightarrow> ExecutionContext \<Rightarrow> string \<Rightarrow> u64 \<Rightarrow> string \<Rightarrow>
    'd handled" where
  "succeed E st ctx note gas creator =
     (let (st1, event) = emit_event E st creator
      in (st1, ctx, Ret (Inr (NewExecutionResult (tx_Id (ec_Tx ctx)) True note gas [event]))))"

abbreviation fail :: "'d exec_state \<Rightarrow> ExecutionContext \<Rightarrow> string \<Rightarrow> 'd handled" where
  "fail st ctx err \<equiv> (st, ctx, Ret (Inl err))"

abbreviation nil_map :: string where "nil_map \<equiv> ''assignment to entry in nil map''"

section \<open>Handlers\<close>

definition ex_executeTransfer :: "'d exec_env \<Rightarrow> 'd exec_state \<Rightarrow> ExecutionContext \<Rightarrow> TransferPayload \<Rightarrow>
    'd handled" where
  "ex_executeTransfer E st ctx transfer =
     (if tp_Amount transfer = 0 then fail st ctx ''transfer amount cannot be zero''
      else if \<not> hasSufficientBalance (ec_Sender ctx) (tp_Amount transfer)
      then fail st ctx ''insufficient balance for transfer''
      else
        let recipient = getOrCreateAccount E st (tp_To transfer);
            ctx1 = ctx\<lparr>ec_Sender := (ec_Sender ctx)
                     \<lparr>ast_Balance := ast_Balance (ec_Sender ctx) - tp_Amount transfer\<rparr>\<rparr>;
            recipient1 = recipient\<lparr>ast_Balance := ast_Balance recipient + tp_Amount transfer\<rparr>
        in case saveAccount E st recipient1 of
             (st1, Some err) \<Rightarrow> fail st1 ctx1 (wrap ''failed to save recipient account'' err)
           | (st1, None) \<Rightarrow> succeed E st1 ctx1 ''transfer successful'' 50000 ''system'')"

definition minStake :: u64 where "minStake = 10000000000"

definition new_validator :: "CreateValidatorPayload \<Rightarrow> Validator" where
  "new_validator create = \<lparr>va_Address = cv_ValidatorAddress create,
     va_PublicKey = cv_PublicKey create, va_Stake = minStake,
     va_CommissionRate = cv_CommissionRate create,
     va_MaxCommissionRate = cv_MaxCommissionRate create,
     va_CommissionChangeRate = cv_CommissionChangeRate create, va_Moniker = cv_Moniker create,
     va_Identity = cv_Identity create, va_Website = cv_Website create,
     va_Details = cv_Details create, va_Jailed = False, va_VotingPower = minStake\<rparr>"

definition ex_executeCreateValidator :: "'d exec_env \<Rightarrow> 'd exec_state \<Rightarrow> ExecutionContext \<Rightarrow>
    CreateValidatorPayload \<Rightarrow> 'd handled" where
  "ex_executeCreateValidator E st ctx create =
     (if cv_CommissionRate create > cv_MaxCommissionRate create
      then fail st ctx ''commission rate exceeds maximum''
      else if \<not> hasSufficientBalance (ec_Sender ctx) minStake
      then fail st ctx ''insufficient balance for validator minimum stake''
      else
        let ctx1 = ctx\<lparr>ec_Sender := (ec_Sender ctx)
                     \<lparr>ast_Balance := ast_Balance (ec_Sender ctx) - minStake,
                      ast_Delegated := minStake, ast_Validator := cv_ValidatorAddress create\<rparr>\<rparr>
        in case xe_marshalValidator E (new_validator create) of
             Inl m \<Rightarrow> fail st ctx1 (wrap ''failed to marshal validator'' m)
           | Inr validatorData \<Rightarrow>
               (case ValidatorStore_PutValidator (xe_ldb E) (xs_db st) (cv_ValidatorAddress create)
                       validatorData of
                  (d, Some err) \<Rightarrow>
                    fail (st\<lparr>xs_db := d\<rparr>) ctx1 (wrap ''failed to store validator'' (st_error_text err))
                | (d, None) \<Rightarrow>
                    let v = \<lparr>vl_Address = cv_ValidatorAddress create,
                          vl_PublicKey = cv_PublicKey create, vl_Stake = minStake,
                          vl_Commissions = 0, vl_IsActive = True\<rparr>
                    in succeed E \<lparr>xs_db = d, xs_consensus = AddValidator (xs_consensus st) v\<rparr> ctx1
                         ''validator created successfully'' 5000000 (cv_ValidatorAddress create)))"

text \<open>\<open>consensusValidator.Stake = ...\<close> through the pointer \<open>GetValidator\<close> returns.\<close>

definition set_stake :: "string \<Rightarrow> u64 \<Rightarrow> Engine \<Rightarrow> Engine" where
  "set_stake a v e =
     (case GetValidator e a of
        None \<Rightarrow> e
      | Some w \<Rightarrow> e\<lparr>en_validators := (en_validators e)(a \<mapsto> w\<lparr>vl_Stake := v\<rparr>)\<rparr>)"

definition ex_executeDelegateStake :: "'d exec_env \<Rightarrow> 'd exec_state \<Rightarrow> ExecutionContext \<Rightarrow> StakePayload \<Rightarrow>
    'd handled" where
  "ex_executeDelegateStake E st ctx delegate =
     (let sender = ec_Sender ctx in
      if sp_Amount delegate = 0 then fail st ctx ''delegate amount cannot be zero''
      else if \<not> hasSufficientBalance sender (sp_Amount delegate)
      then fail st ctx ''insufficient balance for delegation''
      else case getValidator E st (sp_ValidatorAddress delegate) of
        Inl err \<Rightarrow> fail st ctx (wrap ''validator not found'' err)
      | Inr validator \<Rightarrow>
          if ast_Validator sender \<noteq> [] \<and> ast_Validator sender \<noteq> sp_ValidatorAddress delegate
          then fail st ctx ''already delegating to another validator''
          else
            let ctx1 = ctx\<lparr>ec_Sender := sender
                         \<lparr>ast_Delegated := ast_Delegated sender + sp_Amount delegate,
                          ast_Validator := sp_ValidatorAddress delegate\<rparr>\<rparr>;
                validator1 = validator\<lparr>va_Stake := va_Stake validator + sp_Amount delegate\<rparr>
            in case xe_marshalValidator E validator1 of
                 Inl m \<Rightarrow> fail st ctx1 (wrap ''failed to marshal validator'' m)
               | Inr validatorData \<Rightarrow>
                   (case ValidatorStore_PutValidator (xe_ldb E) (xs_db st)
                           (sp_ValidatorAddress delegate) validatorData of
                      (d, Some err) \<Rightarrow>
                        fail (st\<lparr>xs_db := d\<rparr>) ctx1
                          (wrap ''failed to save validator'' (st_error_text err))
                    | (d, None) \<Rightarrow>
                        succeed E \<lparr>xs_db = d, xs_consensus = set_stake (sp_ValidatorAddress delegate)
                            (va_Stake validator1) (xs_consensus st)\<rparr> ctx1
                          ''delegation successful'' 200000 (ast_Address sender)))"

definition new_token :: "CreateTokenPayload \<Rightarrow> Token" where
  "new_token create = \<lparr>tk_TokenId = ct_TokenId create, tk_Name = ct_Name create,
     tk_Symbol = ct_Symbol create, tk_Decimals = ct_Decimals create,
     tk_TotalSupply = ct_InitialSupply create, tk_AdminAddress = ct_AdminAddress create,
     tk_MetadataUri = ct_MetadataUri create, tk_Mintable = ct_Mintable create,
     tk_Burnable = ct_Burnable create, tk_Pausable = ct_Pausable create,
     tk_Blacklistable = ct_Blacklistable create, tk_Paused = False,
     tk_BlacklistedAddresses = []\<rparr>"

definition ex_executeCreateToken :: "'d exec_env \<Rightarrow> 'd exec_state \<Rightarrow> ExecutionContext \<Rightarrow>
    CreateTokenPayload \<Rightarrow> 'd handled" where
  "ex_executeCreateToken E st ctx create =
     (case TokenStore_GetToken (xe_ldb E) (xs_db st) (ct_TokenId create) of
        Inr data \<Rightarrow> fail st ctx ''token already exists''
      | Inl e \<Rightarrow>
          (case xe_marshalToken E (new_token create) of
             Inl m \<Rightarrow> fail st ctx (wrap ''failed to marshal token'' m)
           | Inr tokenData \<Rightarrow>
               (case TokenStore_PutToken (xe_ldb E) (xs_db st) (ct_TokenId create) tokenData of
                  (d, Some err) \<Rightarrow>
                    fail (st\<lparr>xs_db := d\<rparr>) ctx (wrap ''failed to store token'' (st_error_text err))
                | (d, None) \<Rightarrow>
                    let st1 = st\<lparr>xs_db := d\<rparr>;
                        adminAccount = getOrCreateAccount E st1 (ct_AdminAddress create)
                    in case tokens_set (ast_Tokens adminAccount) (ct_TokenId create)
                              (ct_InitialSupply create) of
                         None \<Rightarrow> (st1, ctx, Panic nil_map)
                       | Some b \<Rightarrow>
                           (case saveAccount E st1 (adminAccount\<lparr>ast_Tokens := b\<rparr>) of
                              (st2, Some err) \<Rightarrow>
                                fail st2 ctx (wrap ''failed to save admin account'' err)
                            | (st2, None) \<Rightarrow>
                                succeed E st2 ctx ''token created successfully'' 1000000
                                  (ct_AdminAddress create)))))"

text \<open>\<open>Tokens[t] += v\<close>; \<open>None\<close> when the map is nil.\<close>

definition account_add_tokens :: "AccountState \<Rightarrow> string \<Rightarrow> u64 \<Rightarrow> AccountState option" where
  "account_add_tokens acc t v =
     map_option (\<lambda>b. acc\<lparr>ast_Tokens := b\<rparr>)
       (tokens_set (ast_Tokens acc) t (tokens_get (ast_Tokens acc) t + v))"

definition ex_executeMintToken :: "'d exec_env \<Rightarrow> 'd exec_state \<Rightarrow> ExecutionContext \<Rightarrow>
    MintTokenPayload \<Rightarrow> 'd handled" where
  "ex_executeMintToken E st ctx mint =
     (case TokenStore_GetToken (xe_ldb E) (xs_db st) (mt_TokenId mint) of
        Inl e \<Rightarrow> fail st ctx ''token not found''
      | Inr tokenData \<Rightarrow>
          (case xe_unmarshalToken E tokenData of
             Inl m \<Rightarrow> fail st ctx (wrap ''failed to unmarshal token'' m)
           | Inr token \<Rightarrow>
               if \<not> tk_Mintable token then fail st ctx ''token is not mintable''
               else if ast_Address (ec_Sender ctx) \<noteq> tk_AdminAddress token
               then fail st ctx ''only admin can mint tokens''
               else case account_add_tokens (getOrCreateAccount E st (mt_To mint))
                           (mt_TokenId mint) (mt_Amount mint) of
                 None \<Rightarrow> (st, ctx, Panic nil_map)
               | Some recipient \<Rightarrow>
                   (case xe_marshalToken E
                           (token\<lparr>tk_TotalSupply := tk_TotalSupply token + mt_Amount mint\<rparr>) of
                      Inl m \<Rightarrow> fail st ctx (wrap ''failed to marshal token'' m)
                    | Inr tokenData1 \<Rightarrow>
                        (case TokenStore_PutToken (xe_ldb E) (xs_db st) (mt_TokenId mint) tokenData1 of
                           (d, Some err) \<Rightarrow>
                             fail (st\<lparr>xs_db := d\<rparr>) ctx
                               (wrap ''failed to store token'' (st_error_text err))
                         | (d, None) \<Rightarrow>
                             (case saveAccount E (st\<lparr>xs_db := d\<rparr>) recipient of
                                (st2, Some err) \<Rightarrow>
                                  fail st2 ctx (wrap ''failed to save recipient account'' err)
                              | (st2, None) \<Rightarrow>
                                  succeed E st2 ctx ''tokens minted successfully'' 100000
                                    (ast_Address (ec_Sender ctx)))))))"

definition ex_executeTransferToken :: "'d exec_env \<Rightarrow> 'd exec_state \<Rightarrow> ExecutionContext \<Rightarrow>
    TransferTokenPayload \<Rightarrow> 'd handled" where
  "ex_executeTransferToken E st ctx transfer =
     (if tokens_get (ast_Tokens (ec_Sender ctx)) (tt_TokenId transfer) < tt_Amount transfer
      then fail st ctx ''insufficient token balance''
      else
        let recipient = getOrCreateAccount E st (tt_To transfer) in
        case account_add_tokens (ec_Sender ctx) (tt_TokenId transfer) (- tt_Amount transfer) of
          None \<Rightarrow> (st, ctx, Panic nil_map)
        | Some sender1 \<Rightarrow>
            let ctx1 = ctx\<lparr>ec_Sender := sender1\<rparr> in
            (case account_add_tokens recipient (tt_TokenId transfer) (tt_Amount transfer) of
               None \<Rightarrow> (st, ctx1, Panic nil_map)
             | Some recipient1 \<Rightarrow>
                 (case saveAccount E st sender1 of
                    (st1, Some err) \<Rightarrow> fail st1 ctx1 (wrap ''failed to save sender account'' err)
                  | (st1, None) \<Rightarrow>
                      (case saveAccount E st1 recipient1 of
                         (st2, Some err) \<Rightarrow>
                           fail st2 ctx1 (wrap ''failed to save recipient account'' err)
                       | (st2, None) \<Rightarrow>
                           succeed E st2 ctx1 ''token transfer successful'' 50000
                             (ast_Address sender1)))))"

definition ex_executeMintNFT :: "'d exec_env \<Rightarrow> 'd exec_state \<Rightarrow> ExecutionContext \<Rightarrow>
    MintNFTPayload \<Rightarrow> 'd handled" where
  "ex_executeMintNFT E st ctx mint =
     (case xe_GetCollection E (xs_db st) (mn_CollectionId mint) of
        Inl e \<Rightarrow> fail st ctx ''collection not found''
      | Inr collectionData \<Rightarrow>
          (case xe_unmarshalCollection E collectionData of
             Inl m \<Rightarrow> fail st ctx (wrap ''failed to unmarshal collection'' m)
           | Inr collection \<Rightarrow>
               if ast_Address (ec_Sender ctx) \<noteq> co_AdminAddress collection
               then fail st ctx ''only admin can mint NFTs''
               else
                 let (c, r) = CurrentRound (xe_rounds E) (xs_consensus st);
                     st1 = st\<lparr>xs_consensus := c\<rparr>;
                     nft = \<lparr>nf_CollectionId = mn_CollectionId mint, nf_NftId = mn_NftId mint,
                       nf_Owner = mn_Owner mint, nf_MetadataUri = mn_MetadataUri mint,
                       nf_Attributes = mn_Attributes mint, nf_MetadataHash = mn_MetadataHash mint,
                       nf_IsBurned = False, nf_MintHeight = r\<rparr>
                 in case xe_marshalNFT E nft of
                      Inl m \<Rightarrow> fail st1 ctx (wrap ''failed to marshal NFT'' m)
                    | Inr nftData \<Rightarrow>
                        (case NFTStore_PutNFT (xe_ldb E) (xs_db st1) (mn_CollectionId mint)
                                (mn_NftId mint) nftData of
                           (d, Some err) \<Rightarrow>
                             fail (st1\<lparr>xs_db := d\<rparr>) ctx
                               (wrap ''failed to store NFT'' (st_error_text err))
                         | (d, None) \<Rightarrow>
                             succeed E (st1\<lparr>xs_db := d\<rparr>) ctx ''NFT minted successfully'' 500000
                               (ast_Address (ec_Sender ctx)))))"

definition ex_executeCreateCollection :: "'d exec_env \<Rightarrow> 'd exec_state \<Rightarrow> ExecutionContext \<Rightarrow>
    CreateCollectionPayload \<Rightarrow> 'd handled" where
  "ex_executeCreateCollection E st ctx create =
     (let sender = ast_Address (ec_Sender ctx);
          collectionID = ''collection-'' @ sender @ ''-'' @ fmt_i64 (xe_nowUnix E) in
      case xe_GetCollection E (xs_db st) collectionID of
        Inr data \<Rightarrow> fail st ctx ''collection already exists''
      | Inl e \<Rightarrow>
          let collection = \<lparr>co_CollectionId = collectionID, co_Name = cc_Name create,
                co_Symbol = cc_Symbol create, co_AdminAddress = sender,
                co_MetadataUri = cc_MetadataUri create, co_IsMutable = cc_IsMutable create,
                co_TotalSupply = 0\<rparr>
          in case xe_marshalCollection E collection of
               Inl m \<Rightarrow> fail st ctx (wrap ''failed to marshal collection'' m)
             | Inr collectionData \<Rightarrow>
                 (case xe_PutCollection E (xs_db st) collectionID collectionData of
                    (d, Some err) \<Rightarrow>
                      fail (st\<lparr>xs_db := d\<rparr>) ctx (wrap ''failed to store collection'' err)
                  | (d, None) \<Rightarrow>
                      succeed E (st\<lparr>xs_db := d\<rparr>) ctx ''collection created successfully'' 2000000
                        sender))"

text \<open>The verb \<open>%T\<close> on the payloads that have no handler.\<close>

definition payload_type :: "payload \<Rightarrow> string" where
  "payload_type p =
     (case p of
        UndelegateStake _ \<Rightarrow> ''*pb.Transaction_UndelegateStake''
      | CreatePool _ \<Rightarrow> ''*pb.Transaction_CreatePool''
      | AddLiquidity _ \<Rightarrow> ''*pb.Transaction_AddLiquidity''
      | RemoveLiquidity _ \<Rightarrow> ''*pb.Transaction_RemoveLiquidity''
      | Swap _ \<Rightarrow> ''*pb.Transaction_Swap''
      | ClaimRewards _ \<Rightarrow> ''*pb.Transaction_ClaimRewards''
      | SlashingEvidence _ \<Rightarrow> ''*pb.Transaction_SlashingEvidence''
      | Genesis_Payload _ \<Rightarrow> ''*pb.Transaction_GenesisPayload''
      | _ \<Rightarrow> ''<nil>'')"

definition ex_executeTransaction :: "'d exec_env \<Rightarrow> 'd exec_state \<Rightarrow> ExecutionContext \<Rightarrow> 'd handled" where
  "ex_executeTransaction E st ctx =
     (case tx_Payload (ec_Tx ctx) of
        Transfer p \<Rightarrow> ex_executeTransfer E st ctx p
      | CreateValidator p \<Rightarrow> ex_executeCreateValidator E st ctx p
      | DelegateStake p \<Rightarrow> ex_executeDelegateStake E st ctx p
      | CreateToken p \<Rightarrow> ex_executeCreateToken E st ctx p
      | MintToken p \<Rightarrow> ex_executeMintToken E st ctx p
      | BurnToken p \<Rightarrow> xe_executeBurnToken E st ctx p
      | TransferToken p \<Rightarrow> ex_executeTransferToken E st ctx p
      | CreateCollection p \<Rightarrow> ex_executeCreateCollection E st ctx p
      | MintNft p \<Rightarrow> ex_executeMintNFT E st ctx p
      | TransferNft p \<Rightarrow> xe_executeTransferNFT E st ctx p
      | p \<Rightarrow> fail st ctx (''unsupported transaction type: '' @ payload_type p))"

section \<open>Execute\<close>

text \<open>The result and the error the code returns together, unless it panics.\<close>

type_synonym executed = "(ExecutionResult option \<times> string option) outcome"

definition refuse :: "Transaction \<Rightarrow> string \<Rightarrow> string \<Rightarrow> u64 \<Rightarrow> executed" where
  "refuse tx note err gas = Ret (Some (NewExecutionResult (tx_Id tx) False note gas []), Some err)"

definition Execute :: "'d exec_env \<Rightarrow> 'd exec_state \<Rightarrow> Transaction option \<Rightarrow> 'd exec_state \<times> executed" where
  "Execute E st tx0 =
     (case tx0 of
        None \<Rightarrow> (st, Ret (None, Some ''transaction cannot be nil''))
      | Some tx \<Rightarrow>
          if \<not> VerifyTransactionSignature (xe_lib E) tx
          then (st, refuse tx ''invalid signature'' ''invalid transaction signature'' 0)
          else case getAccount E st (GetAddressFromPublicKey (xe_lib E) (tx_PublicKey tx)) of
            Inl err \<Rightarrow> (st, refuse tx (''sender account error: '' @ err) err 0)
          | Inr senderAccount \<Rightarrow>
              if tx_Nonce tx \<noteq> ast_Nonce senderAccount + 1
              then (st, refuse tx (''invalid nonce: expected '' @ fmt_u64 (ast_Nonce senderAccount + 1)
                      @ '', got '' @ fmt_u64 (tx_Nonce tx)) ''invalid nonce'' 0)
              else if \<not> hasSufficientBalance senderAccount (tx_Fee tx)
              then (st, refuse tx ''insufficient balance for fees'' ''insufficient balance for fees'' 0)
              else case ex_executeTransaction E st \<lparr>ec_Sender = senderAccount, ec_Tx = tx,
                          ec_GasUsed = 0, ec_Refund = 0, ec_Events = []\<rparr> of
                (st1, ctx, Panic m) \<Rightarrow> (st1, Panic m)
              | (st1, ctx, Ret (Inl err)) \<Rightarrow>
                  (st1, refuse tx (''execution failed: '' @ err) err (ec_GasUsed ctx))
              | (st1, ctx, Ret (Inr result)) \<Rightarrow>
                  let sender = (ec_Sender ctx)\<lparr>ast_Nonce := tx_Nonce tx,
                        ast_Balance := ast_Balance (ec_Sender ctx) - tx_Fee tx + ec_Refund ctx\<rparr>
                  in case saveAccount E st1 sender of
                       (st2, Some err) \<Rightarrow>
                         (st2, refuse tx (''failed to save sender account: '' @ err) err (ec_GasUsed ctx))
                     | (st2, None) \<Rightarrow> (st2, Ret (Some result, None)))"

end
