(* ===== verification/GoHeap.thy ===== *)
theory GoHeap
  imports Prelude "HOL-Library.Multiset"
begin

text \<open>
  Go's \<open>container/heap\<close>, which the mempool calls through \<open>heap.Interface\<close>: the sift loops
  \<open>up\<close> and \<open>down\<close>, \<open>Init\<close>, \<open>Push\<close> and \<open>Pop\<close>, over any type with the five operations of
  the interface. The locale \<open>go_heap\<close> states what the package asks of an implementation;
  inside it \<open>Init\<close> builds a heap, \<open>Push\<close> and \<open>Pop\<close> keep one and \<open>Pop\<close> returns a least
  element. The laws hold on the valid states only: a queue whose priorities contain a NaN
  has no order to speak of.
\<close>

section \<open>The package\<close>

function heap_up :: "('s \<Rightarrow> nat \<Rightarrow> nat \<Rightarrow> bool) \<Rightarrow> (nat \<Rightarrow> nat \<Rightarrow> 's \<Rightarrow> 's) \<Rightarrow> nat \<Rightarrow> 's \<Rightarrow> 's" where
  "heap_up lt swap j s =
     (let i = (j - 1) div 2 in
      if i = j \<or> \<not> lt s j i then s else heap_up lt swap i (swap i j s))"
  by pat_completeness auto
termination heap_up by (relation "measure (\<lambda>(lt, swap, j, s). j)") auto

function heap_down :: "('s \<Rightarrow> nat \<Rightarrow> nat \<Rightarrow> bool) \<Rightarrow> (nat \<Rightarrow> nat \<Rightarrow> 's \<Rightarrow> 's) \<Rightarrow>
    nat \<Rightarrow> nat \<Rightarrow> 's \<Rightarrow> 's" where
  "heap_down lt swap i n s =
     (let j1 = 2 * i + 1 in
      if j1 \<ge> n then s
      else
        let j2 = j1 + 1;
            j = (if j2 < n \<and> lt s j2 j1 then j2 else j1)
        in if \<not> lt s j i then s else heap_down lt swap j n (swap i j s))"
  by pat_completeness auto
termination heap_down by (relation "measure (\<lambda>(lt, swap, i, n, s). n - i)") (auto simp: Let_def)

declare heap_up.simps [simp del] heap_down.simps [simp del]

definition heap_Init :: "('s \<Rightarrow> nat \<Rightarrow> nat \<Rightarrow> bool) \<Rightarrow> (nat \<Rightarrow> nat \<Rightarrow> 's \<Rightarrow> 's) \<Rightarrow>
    nat \<Rightarrow> 's \<Rightarrow> 's" where
  "heap_Init lt swap n s = fold (\<lambda>i. heap_down lt swap i n) (rev [0..<n div 2]) s"

definition heap_Push :: "('s \<Rightarrow> nat) \<Rightarrow> ('s \<Rightarrow> nat \<Rightarrow> nat \<Rightarrow> bool) \<Rightarrow>
    (nat \<Rightarrow> nat \<Rightarrow> 's \<Rightarrow> 's) \<Rightarrow> ('x \<Rightarrow> 's \<Rightarrow> 's) \<Rightarrow> 'x \<Rightarrow> 's \<Rightarrow> 's" where
  "heap_Push len lt swap push x s =
     (let s1 = push x s in heap_up lt swap (len s1 - 1) s1)"

definition heap_Pop :: "('s \<Rightarrow> nat) \<Rightarrow> ('s \<Rightarrow> nat \<Rightarrow> nat \<Rightarrow> bool) \<Rightarrow>
    (nat \<Rightarrow> nat \<Rightarrow> 's \<Rightarrow> 's) \<Rightarrow> ('s \<Rightarrow> 's \<times> 'x) \<Rightarrow> 's \<Rightarrow> 's \<times> 'x" where
  "heap_Pop len lt swap pop s =
     (let n = len s - 1; s1 = swap 0 n s; s2 = heap_down lt swap 0 n s1 in pop s2)"

text \<open>The child \<open>down\<close> compares with, and the two loops as equations without \<open>let\<close>.\<close>

definition smaller_child :: "('s \<Rightarrow> nat \<Rightarrow> nat \<Rightarrow> bool) \<Rightarrow> nat \<Rightarrow> nat \<Rightarrow> 's \<Rightarrow> nat" where
  "smaller_child lt i n s =
     (if 2 * i + 2 < n \<and> lt s (2 * i + 2) (2 * i + 1) then 2 * i + 2 else 2 * i + 1)"

lemma heap_down_unfold:
  "heap_down lt swap i n s =
     (if 2 * i + 1 \<ge> n \<or> \<not> lt s (smaller_child lt i n s) i then s
      else heap_down lt swap (smaller_child lt i n s) n (swap i (smaller_child lt i n s) s))"
  by (subst heap_down.simps) (auto simp: Let_def smaller_child_def)

lemma heap_up_unfold:
  "heap_up lt swap j s =
     (if (j - 1) div 2 = j \<or> \<not> lt s j ((j - 1) div 2) then s
      else heap_up lt swap ((j - 1) div 2) (swap ((j - 1) div 2) j s))"
  by (subst heap_up.simps) (simp add: Let_def)

lemma smaller_child_bounds:
  "\<not> 2 * i + 1 \<ge> n \<Longrightarrow> smaller_child lt i n s < n \<and> i < smaller_child lt i n s \<and>
     (smaller_child lt i n s - 1) div 2 = i \<and> 0 < smaller_child lt i n s"
  by (auto simp: smaller_child_def)

text \<open>Whatever every swap within bounds keeps, the loops keep, for any comparison.\<close>

lemma heap_down_keeps:
  assumes "\<And>i j s. P s \<Longrightarrow> i < n \<Longrightarrow> j < n \<Longrightarrow> P (swap i j s)"
  shows "P s \<Longrightarrow> P (heap_down lt swap i n s)"
proof (induction "n - i" arbitrary: i s rule: less_induct)
  case less
  let ?j = "smaller_child lt i n s"
  show ?case
  proof (cases "2 * i + 1 \<ge> n \<or> \<not> lt s ?j i")
    case True
    then show ?thesis using less.prems by (subst heap_down_unfold) auto
  next
    case False
    then have j: "?j < n" "i < ?j" using smaller_child_bounds [of n i lt s] by auto
    then have "P (heap_down lt swap ?j n (swap i ?j s))"
      using less.prems assms by (intro less.hyps) auto
    with False show ?thesis by (subst heap_down_unfold) simp
  qed
qed

lemma heap_up_keeps:
  assumes "\<And>i j s. P s \<Longrightarrow> i < n \<Longrightarrow> j < n \<Longrightarrow> P (swap i j s)"
  shows "P s \<Longrightarrow> j < n \<Longrightarrow> P (heap_up lt swap j s)"
proof (induction j arbitrary: s rule: less_induct)
  case (less j)
  let ?i = "(j - 1) div 2"
  show ?case
  proof (cases "?i = j \<or> \<not> lt s j ?i")
    case True
    then show ?thesis using less.prems by (subst heap_up_unfold) simp
  next
    case False
    then have "?i < j" by auto
    then have "P (heap_up lt swap ?i (swap ?i j s))"
      using less assms by auto
    with False show ?thesis by (subst heap_up_unfold) simp
  qed
qed

lemma heap_Init_keeps:
  assumes "\<And>i j s. P s \<Longrightarrow> i < n \<Longrightarrow> j < n \<Longrightarrow> P (swap i j s)" and "P s"
  shows "P (heap_Init lt swap n s)"
proof -
  have "P (fold (\<lambda>i. heap_down lt swap i n) is s)" for "is"
    using assms(2) by (induction "is" arbitrary: s) (auto intro: heap_down_keeps assms(1))
  then show ?thesis by (simp add: heap_Init_def)
qed

lemma parent_less: "0 < c \<Longrightarrow> (c - 1) div 2 < (c :: nat)"
  by linarith

section \<open>Heap order on lists\<close>

text \<open>
  The first \<open>n\<close> positions are in heap order below every parent from \<open>k\<close> on, the parents in
  \<open>H\<close> excepted.
\<close>

definition heap_except :: "('a \<Rightarrow> 'r :: linorder) \<Rightarrow> nat set \<Rightarrow> nat \<Rightarrow> nat \<Rightarrow> 'a list \<Rightarrow> bool" where
  "heap_except rank H k n xs \<longleftrightarrow>
     (\<forall>c. 0 < c \<and> c < n \<and> k \<le> (c - 1) div 2 \<and> (c - 1) div 2 \<notin> H \<longrightarrow>
        rank (xs ! ((c - 1) div 2)) \<le> rank (xs ! c))"

abbreviation heap_ordered :: "('a \<Rightarrow> 'r :: linorder) \<Rightarrow> 'a list \<Rightarrow> bool" where
  "heap_ordered rank xs \<equiv> heap_except rank {} 0 (length xs) xs"

lemma heap_exceptD:
  "heap_except rank H k n xs \<Longrightarrow> 0 < c \<Longrightarrow> c < n \<Longrightarrow> k \<le> (c - 1) div 2 \<Longrightarrow> (c - 1) div 2 \<notin> H \<Longrightarrow>
     rank (xs ! ((c - 1) div 2)) \<le> rank (xs ! c)"
  unfolding heap_except_def by blast

lemma heap_root_least:
  "heap_except rank {} 0 n xs \<Longrightarrow> c < n \<Longrightarrow> rank (xs ! 0) \<le> rank (xs ! c)"
proof (induction c rule: less_induct)
  case (less c)
  show ?case
  proof (cases "c = 0")
    case False
    then have "(c - 1) div 2 < c" by auto
    with less have "rank (xs ! 0) \<le> rank (xs ! ((c - 1) div 2))" by simp
    also have "\<dots> \<le> rank (xs ! c)" using less.prems False by (intro heap_exceptD) auto
    finally show ?thesis .
  qed simp
qed

definition list_swap :: "nat \<Rightarrow> nat \<Rightarrow> 'a list \<Rightarrow> 'a list" where
  "list_swap i j xs = xs[i := xs ! j, j := xs ! i]"

lemma length_list_swap [simp]: "length (list_swap i j xs) = length xs"
  by (simp add: list_swap_def)

lemma nth_list_swap:
  "i < length xs \<Longrightarrow> j < length xs \<Longrightarrow> x < length xs \<Longrightarrow>
     list_swap i j xs ! x = (if x = i then xs ! j else if x = j then xs ! i else xs ! x)"
  by (auto simp: list_swap_def nth_list_update)

lemma mset_list_swap [simp]:
  "i < length xs \<Longrightarrow> j < length xs \<Longrightarrow> mset (list_swap i j xs) = mset xs"
  by (simp add: list_swap_def mset_swap)

section \<open>One node out of place\<close>

text \<open>
  A node on its way up: every other node is in order, and the children of that node are above
  its parent already. Swapping it with its parent moves the place up.
\<close>

definition up_ready :: "('a \<Rightarrow> 'r :: linorder) \<Rightarrow> nat \<Rightarrow> 'a list \<Rightarrow> bool" where
  "up_ready rank j xs \<longleftrightarrow>
     (\<forall>c. 0 < c \<and> c < length xs \<and> c \<noteq> j \<longrightarrow> rank (xs ! ((c - 1) div 2)) \<le> rank (xs ! c)) \<and>
     (\<forall>c. 0 < c \<and> c < length xs \<and> (c - 1) div 2 = j \<and> 0 < j \<longrightarrow> rank (xs ! ((j - 1) div 2)) \<le> rank (xs ! c))"

lemma up_readyD:
  assumes "up_ready rank j xs" and "0 < c" and "c < length xs"
  shows "c \<noteq> j \<Longrightarrow> rank (xs ! ((c - 1) div 2)) \<le> rank (xs ! c)"
    "(c - 1) div 2 = j \<Longrightarrow> 0 < j \<Longrightarrow> rank (xs ! ((j - 1) div 2)) \<le> rank (xs ! c)"
  using assms unfolding up_ready_def by blast+

lemma up_ready_done:
  assumes "up_ready rank j xs" and "0 < j \<Longrightarrow> rank (xs ! ((j - 1) div 2)) \<le> rank (xs ! j)"
  shows "heap_ordered rank xs"
  unfolding heap_except_def using assms(2) up_readyD(1) [OF assms(1)] by metis

lemma heap_except_root_swap:
  assumes "heap_ordered rank xs" and "n < length xs"
  shows "heap_except rank {0} 0 n (list_swap 0 n xs)"
  unfolding heap_except_def
proof (intro allI impI, elim conjE)
  fix c assume c: "0 < c" "c < n" "(c - 1) div 2 \<notin> {0}"
  moreover from this have "(c - 1) div 2 < n" "0 < length xs" using assms(2) by linarith+
  ultimately show "rank (list_swap 0 n xs ! ((c - 1) div 2)) \<le> rank (list_swap 0 n xs ! c)"
    using assms(2) heap_exceptD [OF assms(1), of c]
    by (simp add: nth_list_swap)
qed

lemma up_ready_swap:
  assumes "up_ready rank j xs" and "0 < j" and "j < length xs" and "(j - 1) div 2 = i"
    and less: "rank (xs ! j) < rank (xs ! i)"
  shows "up_ready rank i (list_swap i j xs)"
  unfolding up_ready_def
proof (intro conjI allI impI; elim conjE)
  have ij: "i < j" "i < length xs" using assms(2-4) by linarith+
  note swapped = nth_list_swap [OF ij(2) assms(3)]
  have ends: "list_swap i j xs ! i = xs ! j" "list_swap i j xs ! j = xs ! i"
    using ij assms(3) by (simp_all add: swapped)
  note up = up_readyD [OF assms(1)]
  fix c assume c: "0 < c" "c < length (list_swap i j xs)"
  then have p: "(c - 1) div 2 < c" "c < length xs" "(c - 1) div 2 < length xs" by (auto simp: parent_less)
  {
    assume "c \<noteq> i"
    consider (node) "c = j" | (sibling) "c \<noteq> j" "(c - 1) div 2 = i" | (child) "c \<noteq> j" "(c - 1) div 2 = j"
      | (other) "c \<noteq> j" "(c - 1) div 2 \<noteq> i" "(c - 1) div 2 \<noteq> j" by blast
    then show "rank (list_swap i j xs ! ((c - 1) div 2)) \<le> rank (list_swap i j xs ! c)"
    proof cases
      case node
      have "(c - 1) div 2 = i" by (simp only: node assms(4))
      then show ?thesis using less by (simp only: node ends less_imp_le)
    next
      case sibling
      with up(1) [OF c(1) p(2)] less \<open>c \<noteq> i\<close> ij p show ?thesis by (simp add: swapped)
    next
      case child
      with up(2) [OF c(1) p(2)] assms(2,4) \<open>c \<noteq> i\<close> ij p show ?thesis by (simp add: swapped)
    next
      case other
      with up(1) [OF c(1) p(2)] \<open>c \<noteq> i\<close> p show ?thesis by (simp add: swapped)
    qed
  next
    assume i: "(c - 1) div 2 = i" "0 < i"
    have "rank (xs ! ((i - 1) div 2)) \<le> rank (xs ! i)" using up(1) [OF i(2) ij(2)] ij(1) by simp
    moreover have "rank (xs ! i) \<le> rank (list_swap i j xs ! c)"
      using up(1) [OF c(1) p(2)] i p ij by (cases "c = j") (auto simp: swapped)
    moreover have "(i - 1) div 2 < i" using i(2) by (rule parent_less)
    ultimately show "rank (list_swap i j xs ! ((i - 1) div 2)) \<le> rank (list_swap i j xs ! c)"
      using ij by (simp add: swapped)
  }
qed

text \<open>
  A node on its way down, below every parent from \<open>k\<close> on: swapping it with its smaller child moves
  the place down.
\<close>

definition down_ready :: "('a \<Rightarrow> 'r :: linorder) \<Rightarrow> nat \<Rightarrow> nat \<Rightarrow> nat \<Rightarrow> 'a list \<Rightarrow> bool" where
  "down_ready rank i k n xs \<longleftrightarrow> heap_except rank {i} k n xs \<and>
     (\<forall>c. 0 < c \<and> c < n \<and> (c - 1) div 2 = i \<and> 0 < i \<and> k \<le> (i - 1) div 2 \<longrightarrow> rank (xs ! ((i - 1) div 2)) \<le> rank (xs ! c))"

lemma down_ready_done:
  assumes "down_ready rank i k n xs" and "\<And>c. 0 < c \<Longrightarrow> c < n \<Longrightarrow> (c - 1) div 2 = i \<Longrightarrow> rank (xs ! i) \<le> rank (xs ! c)"
  shows "heap_except rank {} k n xs"
  using assms by (auto simp: down_ready_def heap_except_def)

lemma down_ready_swap:
  assumes "down_ready rank i k n xs" and "n \<le> length xs" and "0 < j" and "j < n" and "(j - 1) div 2 = i"
    and less: "rank (xs ! j) < rank (xs ! i)"
    and smaller: "\<And>c. 0 < c \<Longrightarrow> c < n \<Longrightarrow> (c - 1) div 2 = i \<Longrightarrow> rank (xs ! j) \<le> rank (xs ! c)"
  shows "down_ready rank j k n (list_swap i j xs)"
proof -
  have ij: "i < j" "i < length xs" "j < length xs" using assms(2-5) by linarith+
  note swapped = nth_list_swap [OF ij(2,3)]
  have heap: "rank (xs ! ((c - 1) div 2)) \<le> rank (xs ! c)"
    if "0 < c" "c < n" "k \<le> (c - 1) div 2" "(c - 1) div 2 \<noteq> i" for c
    using assms(1) that heap_exceptD [of rank "{i}" k n xs c] by (simp add: down_ready_def)
  have above: "rank (xs ! ((i - 1) div 2)) \<le> rank (xs ! j)" if "0 < i" "k \<le> (i - 1) div 2"
    using assms(1,3-5) that unfolding down_ready_def by blast
  have "rank (list_swap i j xs ! ((c - 1) div 2)) \<le> rank (list_swap i j xs ! c)"
    if c: "0 < c" "c < n" "k \<le> (c - 1) div 2" "(c - 1) div 2 \<noteq> j" for c
  proof -
    have p: "(c - 1) div 2 < c" "c < length xs" "(c - 1) div 2 < length xs"
      using c assms(2) parent_less [OF c(1)] by auto
    consider (child) "(c - 1) div 2 = i" | (node) "(c - 1) div 2 \<noteq> i" "c = i"
      | (other) "(c - 1) div 2 \<noteq> i" "c \<noteq> i" "c \<noteq> j" using assms(5) by blast
    then show ?thesis
    proof cases
      case child
      with smaller [OF c(1,2)] less ij p show ?thesis by (auto simp: swapped)
    next
      case node
      with above c ij p show ?thesis by (simp add: swapped)
    next
      case other
      with heap [OF c(1-3)] c p show ?thesis by (simp add: swapped)
    qed
  qed
  moreover have "rank (list_swap i j xs ! ((j - 1) div 2)) \<le> rank (list_swap i j xs ! c)"
    if "0 < c" "c < n" "(c - 1) div 2 = j" "k \<le> (j - 1) div 2" for c
    using that heap [of c] ij assms(2,5) parent_less [OF that(1)] by (simp add: swapped)
  ultimately show ?thesis by (simp add: down_ready_def heap_except_def)
qed

section \<open>The interface and the package's contract\<close>

locale go_heap =
  fixes items :: "'s \<Rightarrow> 'a list"
    and valid :: "'s \<Rightarrow> bool"
    and rank :: "'a \<Rightarrow> 'r :: linorder"
    and len :: "'s \<Rightarrow> nat"
    and lt :: "'s \<Rightarrow> nat \<Rightarrow> nat \<Rightarrow> bool"
    and swap :: "nat \<Rightarrow> nat \<Rightarrow> 's \<Rightarrow> 's"
  assumes len_items: "len s = length (items s)"
    and lt_rank: "valid s \<Longrightarrow> i < length (items s) \<Longrightarrow> j < length (items s) \<Longrightarrow>
      lt s i j \<longleftrightarrow> rank (items s ! i) < rank (items s ! j)"
    and swap_items: "i < length (items s) \<Longrightarrow> j < length (items s) \<Longrightarrow>
      items (swap i j s) = list_swap i j (items s)"
    and swap_valid: "valid s \<Longrightarrow> i < length (items s) \<Longrightarrow> j < length (items s) \<Longrightarrow>
      valid (swap i j s)"
begin

abbreviation rk :: "'s \<Rightarrow> nat \<Rightarrow> 'r" where
  "rk s x \<equiv> rank (items s ! x)"

lemma up_frame:
  "valid s \<Longrightarrow> j < length (items s) \<Longrightarrow>
     valid (heap_up lt swap j s) \<and> mset (items (heap_up lt swap j s)) = mset (items s)"
proof (induction j arbitrary: s rule: less_induct)
  case (less j)
  let ?i = "(j - 1) div 2"
  show ?case
  proof (cases "?i = j \<or> \<not> lt s j ?i")
    case True
    then have "heap_up lt swap j s = s" by (subst heap_up_unfold) simp
    then show ?thesis using less.prems by simp
  next
    case False
    then have rec: "heap_up lt swap j s = heap_up lt swap ?i (swap ?i j s)"
      by (subst heap_up_unfold) simp
    from False have "?i < j" by auto
    moreover from this less.prems have "?i < length (items s)" by simp
    ultimately show ?thesis
      using less.IH [of ?i "swap ?i j s"] less.prems
      by (simp add: rec swap_items swap_valid)
  qed
qed

lemma down_frame:
  "valid s \<Longrightarrow> n \<le> length (items s) \<Longrightarrow>
     valid (heap_down lt swap i n s) \<and> mset (items (heap_down lt swap i n s)) = mset (items s) \<and>
     (\<forall>x. n \<le> x \<and> x < length (items s) \<longrightarrow> items (heap_down lt swap i n s) ! x = items s ! x)"
proof (induction "n - i" arbitrary: i s rule: less_induct)
  case less
  let ?j = "smaller_child lt i n s"
  show ?case
  proof (cases "2 * i + 1 \<ge> n \<or> \<not> lt s ?j i")
    case True
    then have "heap_down lt swap i n s = s" by (subst heap_down_unfold) auto
    then show ?thesis using less.prems by simp
  next
    case False
    then have rec: "heap_down lt swap i n s = heap_down lt swap ?j n (swap i ?j s)"
      by (subst heap_down_unfold) simp
    have idx: "i < ?j" "?j < n" "?j < length (items s)" "i < length (items s)"
      using False smaller_child_bounds [of n i lt s] less.prems by auto
    then have "n - ?j < n - i" by linarith
    from less.hyps [OF this, of "swap i ?j s"] less.prems idx show ?thesis
      unfolding rec by (auto simp: swap_items swap_valid nth_list_swap)
  qed
qed

text \<open>The node at the place of \<open>heap_down\<close> sinks until the part from \<open>k\<close> on is in order.\<close>

lemma down_heap:
  "valid s \<Longrightarrow> n \<le> length (items s) \<Longrightarrow> down_ready rank i k n (items s) \<Longrightarrow>
     heap_except rank {} k n (items (heap_down lt swap i n s))"
proof (induction "n - i" arbitrary: i s rule: less_induct)
  case less
  let ?j = "smaller_child lt i n s"
  note bounds = smaller_child_bounds [of n i lt s]
  have smaller: "rk s ?j \<le> rk s c" if "0 < c" "c < n" "(c - 1) div 2 = i" for c
  proof -
    have "c = 2 * i + 1 \<or> c = 2 * i + 2" using that by auto
    then show ?thesis
      using that less.prems(1,2) by (auto simp: smaller_child_def lt_rank)
  qed
  show ?case
  proof (cases "2 * i + 1 \<ge> n \<or> \<not> lt s ?j i")
    case True
    then have stop: "heap_down lt swap i n s = s" by (subst heap_down_unfold) auto
    have "rk s i \<le> rk s c" if "0 < c" "c < n" "(c - 1) div 2 = i" for c
    proof -
      have "\<not> 2 * i + 1 \<ge> n" using that by auto
      with True bounds less.prems(1,2) have "rk s i \<le> rk s ?j" by (auto simp: lt_rank)
      with smaller [OF that] show ?thesis by simp
    qed
    then show ?thesis unfolding stop by (rule down_ready_done [OF less.prems(3)])
  next
    case False
    have idx: "i < ?j" "?j < n" "?j < length (items s)" "i < length (items s)" "(?j - 1) div 2 = i" "0 < ?j"
      using False bounds less.prems(2) by auto
    have "rk s ?j < rk s i" using False idx less.prems(1) by (simp add: lt_rank)
    with down_ready_swap [OF less.prems(3,2) idx(6,2,5)] smaller
    have "down_ready rank ?j k n (items (swap i ?j s))" by (simp add: swap_items idx)
    then have "heap_except rank {} k n (items (heap_down lt swap ?j n (swap i ?j s)))"
      using idx less.prems by (intro less.hyps) (auto simp: swap_valid swap_items)
    with False show ?thesis by (subst heap_down_unfold) simp
  qed
qed

text \<open>
  \<open>up\<close> restores the order when only the node it starts at may be too small: its children are
  below its parent already.
\<close>

lemma up_heap:
  "valid s \<Longrightarrow> j < length (items s) \<Longrightarrow> up_ready rank j (items s) \<Longrightarrow>
     heap_ordered rank (items (heap_up lt swap j s))"
proof (induction j arbitrary: s rule: less_induct)
  case (less j)
  let ?i = "(j - 1) div 2"
  show ?case
  proof (cases "?i = j \<or> \<not> lt s j ?i")
    case True
    then have stop: "heap_up lt swap j s = s" by (subst heap_up_unfold) simp
    have "rk s ?i \<le> rk s j" if "0 < j"
    proof -
      have "?i < j" "?i < length (items s)" using that less.prems(2) by linarith+
      with True less.prems show ?thesis by (auto simp: lt_rank)
    qed
    then show ?thesis unfolding stop by (rule up_ready_done [OF less.prems(3)])
  next
    case False
    then have rec: "heap_up lt swap j s = heap_up lt swap ?i (swap ?i j s)"
      by (subst heap_up_unfold) simp
    have ij: "?i < j" "0 < j" "?i < length (items s)" using False less.prems(2) by auto
    then have "rk s j < rk s ?i" using False less.prems by (simp add: lt_rank)
    with up_ready_swap [OF less.prems(3) ij(2) less.prems(2) refl]
    have "up_ready rank ?i (items (swap ?i j s))" using ij less.prems(2) by (simp add: swap_items)
    then have "heap_ordered rank (items (heap_up lt swap ?i (swap ?i j s)))"
      using ij less.prems by (intro less.IH) (simp_all add: swap_valid swap_items)
    then show ?thesis by (simp only: rec)
  qed
qed

subsection \<open>Init\<close>

lemma Init_loop:
  "valid s \<Longrightarrow> n = length (items s) \<Longrightarrow> heap_except rank {} m n (items s) \<Longrightarrow>
     (let t = fold (\<lambda>i. heap_down lt swap i n) (rev [0..<m]) s in
      valid t \<and> mset (items t) = mset (items s) \<and> heap_except rank {} 0 n (items t))"
proof (induction m arbitrary: s)
  case (Suc m)
  let ?t = "heap_down lt swap m n s"
  have frame: "valid ?t" "mset (items ?t) = mset (items s)"
    using down_frame [of s n m] Suc.prems(1,2) by auto
  then have "length (items ?t) = length (items s)" by (metis size_mset)
  moreover have "heap_except rank {} m n (items ?t)"
  proof (rule down_heap [OF Suc.prems(1)])
    show "down_ready rank m m n (items s)"
      using Suc.prems(3) by (auto simp: down_ready_def heap_except_def Suc_le_eq)
  qed (use Suc.prems in auto)
  ultimately show ?case
    using Suc.IH [of ?t] frame Suc.prems(2) by (auto simp: Let_def)
qed (simp add: Let_def)

lemma Init_heap:
  assumes "valid s" and "n = length (items s)"
  shows "valid (heap_Init lt swap n s)" and "mset (items (heap_Init lt swap n s)) = mset (items s)"
    and "heap_ordered rank (items (heap_Init lt swap n s))"
proof -
  have "heap_except rank {} (n div 2) n (items s)"
    unfolding heap_except_def by auto
  from Init_loop [OF assms this]
  have *: "valid (heap_Init lt swap n s)" "mset (items (heap_Init lt swap n s)) = mset (items s)"
    "heap_except rank {} 0 n (items (heap_Init lt swap n s))"
    by (simp_all add: heap_Init_def Let_def)
  then show "valid (heap_Init lt swap n s)" "mset (items (heap_Init lt swap n s)) = mset (items s)"
    by simp_all
  from *(2) have "length (items (heap_Init lt swap n s)) = n" using assms(2) by (metis size_mset)
  with *(3) show "heap_ordered rank (items (heap_Init lt swap n s))" by simp
qed

end

section \<open>Push and Pop\<close>

locale go_queue = go_heap items valid rank len lt swap
  for items :: "'s \<Rightarrow> 'a list" and valid and rank :: "'a \<Rightarrow> 'r :: linorder" and len lt swap +
  fixes push :: "'x \<Rightarrow> 's \<Rightarrow> 's" and pop :: "'s \<Rightarrow> 's \<times> 'x"
    and item :: "'s \<Rightarrow> 'x \<Rightarrow> 'a" and name :: "'a \<Rightarrow> 'x"
  assumes push_items: "items (push x s) = items s @ [item s x]"
    and pop_items: "items s \<noteq> [] \<Longrightarrow> items (fst (pop s)) = butlast (items s)"
    and pop_value: "items s \<noteq> [] \<Longrightarrow> snd (pop s) = name (last (items s))"
    and pop_valid: "items s \<noteq> [] \<Longrightarrow> valid s \<Longrightarrow> valid (fst (pop s))"
begin

lemma Push_mset:
  assumes "valid (push x s)"
  shows "valid (heap_Push len lt swap push x s)"
    and "mset (items (heap_Push len lt swap push x s)) = add_mset (item s x) (mset (items s))"
  using up_frame [OF assms, of "len (push x s) - 1"]
  by (simp_all add: heap_Push_def Let_def len_items push_items)

lemma Push_heap:
  assumes "valid (push x s)" and "heap_ordered rank (items s)"
  shows "heap_ordered rank (items (heap_Push len lt swap push x s))"
proof -
  let ?n = "length (items s)"
  have "heap_ordered rank (items (heap_up lt swap ?n (push x s)))"
  proof (rule up_heap [OF assms(1)])
    have "rank (items (push x s) ! ((c - 1) div 2)) \<le> rank (items (push x s) ! c)" if "0 < c" "c < ?n" for c
    proof -
      have "(c - 1) div 2 < ?n" using that by linarith
      with that heap_exceptD [OF assms(2), of c] show ?thesis by (simp add: push_items nth_append)
    qed
    then show "up_ready rank ?n (items (push x s))"
      by (auto simp: up_ready_def push_items)
  qed (simp add: push_items)
  then show ?thesis by (simp add: heap_Push_def Let_def len_items push_items)
qed

lemma Pop_heap:
  assumes "valid s" and "items s \<noteq> []" and "heap_ordered rank (items s)"
  shows "\<exists>a. snd (heap_Pop len lt swap pop s) = name a \<and>
           mset (items s) = add_mset a (mset (items (fst (heap_Pop len lt swap pop s)))) \<and>
           (\<forall>b \<in> set (items s). rank a \<le> rank b) \<and>
           valid (fst (heap_Pop len lt swap pop s)) \<and>
           heap_ordered rank (items (fst (heap_Pop len lt swap pop s)))"
proof -
  let ?n = "length (items s) - 1"
  let ?t = "swap 0 ?n s"
  let ?u = "heap_down lt swap 0 ?n ?t"
  have n: "0 < length (items s)" "?n < length (items s)" using assms(2) by auto
  have t: "valid ?t" "items ?t = list_swap 0 ?n (items s)" "length (items ?t) = Suc ?n"
    using assms(1) n by (simp_all add: swap_valid swap_items)
  have u: "valid ?u" "mset (items ?u) = mset (items ?t)" "items ?u ! ?n = items ?t ! ?n"
    using down_frame [of ?t ?n 0] t by auto
  have len_u: "length (items ?u) = Suc ?n" using u(2) t(3) by (metis size_mset)
  have "heap_except rank {0} 0 ?n (items ?t)" unfolding t(2) using n(1) by (intro heap_except_root_swap [OF assms(3)]) auto
  then have heap: "heap_except rank {} 0 ?n (items ?u)"
    using t by (intro down_heap) (auto simp: down_ready_def)
  have pop: "heap_Pop len lt swap pop s = pop ?u"
    by (simp add: heap_Pop_def Let_def len_items)
  have ne: "items ?u \<noteq> []" using len_u by auto
  have last: "last (items ?u) = items s ! 0"
  proof -
    have "last (items ?u) = items ?u ! ?n" using ne len_u by (simp add: last_conv_nth)
    also have "\<dots> = items ?t ! ?n" by (rule u(3))
    also have "\<dots> = items s ! 0" using n unfolding t(2) by (auto simp: nth_list_swap)
    finally show ?thesis .
  qed
  have "mset (items s) = mset (items ?u)" using n by (simp only: u(2) t(2) mset_list_swap)
  also have "\<dots> = mset (butlast (items ?u) @ [last (items ?u)])"
    by (simp only: append_butlast_last_id [OF ne])
  also have "\<dots> = add_mset (items s ! 0) (mset (items (fst (pop ?u))))"
    unfolding last pop_items [OF ne] by simp
  finally have ms: "mset (items s) = add_mset (items s ! 0) (mset (items (fst (pop ?u))))" .
  have "rank (items s ! 0) \<le> rank b" if "b \<in> set (items s)" for b
    using that heap_root_least [OF assms(3)] by (auto simp: in_set_conv_nth)
  moreover have "heap_ordered rank (items (fst (pop ?u)))"
    using heap ne len_u by (auto simp: pop_items heap_except_def nth_butlast)
  ultimately show ?thesis
    using ms pop_value [OF ne, unfolded last] pop_valid [OF ne u(1)] unfolding pop by blast
qed

end

end
