(* ===== verification/Mempool.thy ===== *)
theory Mempool
  imports Proto GoHeap Float64
begin

text \<open>
  The pool of pending transactions of \<open>pkg/mempool/mempool.go\<close>. A \<open>*MempoolTx\<close> is a
  reference into a store of objects: the map \<open>txs\<close> and the priority queue hold the same
  references, and so does the temporary queue \<open>GetPending\<close> copies, whose swaps write the
  \<open>Index\<close> fields of the shared objects. The lock makes each method one step.
\<close>

section \<open>State\<close>

record MempoolTx =
  mx_Tx :: Transaction
  mx_Priority :: float64
  mx_Timestamp :: i64
  mx_Size :: nat
  mx_Index :: int

type_synonym ref = nat

text \<open>A \<open>txPriorityQueue\<close> with the store its pointers lead into.\<close>

record txPriorityQueue =
  pq_objs :: "ref \<Rightarrow> MempoolTx"
  pq_refs :: "ref list"

record Mempool =
  mp_txs :: "(string \<times> ref) list"
  mp_queue :: "ref list"
  mp_objs :: "ref \<Rightarrow> MempoolTx"
  mp_next :: ref
  mp_maxSize :: nat
  mp_maxGas :: u64
  mp_chan :: "Transaction list"
  mp_chanClosed :: bool

section \<open>The priority queue\<close>

definition pqLen :: "txPriorityQueue \<Rightarrow> nat" where
  "pqLen q = length (pq_refs q)"

definition pqAt :: "txPriorityQueue \<Rightarrow> nat \<Rightarrow> MempoolTx" where
  "pqAt q i = pq_objs q (pq_refs q ! i)"

definition pqLess :: "txPriorityQueue \<Rightarrow> nat \<Rightarrow> nat \<Rightarrow> bool" where
  "pqLess q i j =
     (if \<not> f64_eq (mx_Priority (pqAt q i)) (mx_Priority (pqAt q j))
      then f64_less (mx_Priority (pqAt q j)) (mx_Priority (pqAt q i))
      else mx_Timestamp (pqAt q i) <s mx_Timestamp (pqAt q j))"

definition set_index :: "ref \<Rightarrow> int \<Rightarrow> (ref \<Rightarrow> MempoolTx) \<Rightarrow> (ref \<Rightarrow> MempoolTx)" where
  "set_index r k objs = objs(r := (objs r)\<lparr>mx_Index := k\<rparr>)"

definition pqSwap :: "nat \<Rightarrow> nat \<Rightarrow> txPriorityQueue \<Rightarrow> txPriorityQueue" where
  "pqSwap i j q =
     (let refs = list_swap i j (pq_refs q) in
      \<lparr>pq_objs = set_index (refs ! j) (int j) (set_index (refs ! i) (int i) (pq_objs q)),
       pq_refs = refs\<rparr>)"

definition pqPush :: "ref \<Rightarrow> txPriorityQueue \<Rightarrow> txPriorityQueue" where
  "pqPush r q = \<lparr>pq_objs = set_index r (int (pqLen q)) (pq_objs q), pq_refs = pq_refs q @ [r]\<rparr>"

definition pqPop :: "txPriorityQueue \<Rightarrow> txPriorityQueue \<times> ref" where
  "pqPop q =
     (let n = length (pq_refs q); item = pq_refs q ! (n - 1) in
      (\<lparr>pq_objs = set_index item (- 1) (pq_objs q), pq_refs = take (n - 1) (pq_refs q)\<rparr>, item))"

section \<open>Operations\<close>

definition zero_mempoolTx :: MempoolTx where
  "zero_mempoolTx = \<lparr>mx_Tx = zero_transaction, mx_Priority = Finite 0, mx_Timestamp = 0,
     mx_Size = 0, mx_Index = 0\<rparr>"

definition NewMempool :: "u64 \<Rightarrow> Mempool" where
  "NewMempool maxGas = \<lparr>mp_txs = [], mp_queue = [], mp_objs = (\<lambda>_. zero_mempoolTx), mp_next = 0,
     mp_maxSize = 10000, mp_maxGas = maxGas, mp_chan = [], mp_chanClosed = False\<rparr>"

definition txChannel_cap :: nat where "txChannel_cap = 1000"

definition tx_priority :: "Transaction \<Rightarrow> float64" where
  "tx_priority tx = f64_div (f64_of_u64 (tx_Fee tx)) (f64_of_u64 (tx_GasLimit tx))"

text \<open>
  The queue part of a pool is the temporary pair of its store and its references; \<open>text_len\<close> is
  \<open>len(tx.String())\<close>, the length of the protobuf text format. The send into a closed channel
  panics, after the transaction has been stored.
\<close>

definition Mempool_Add :: "(Transaction \<Rightarrow> nat) \<Rightarrow> Mempool \<Rightarrow> Transaction \<Rightarrow>
    Mempool \<times> bool outcome" where
  "Mempool_Add text_len m tx =
     (if map_of (mp_txs m) (tx_Id tx) \<noteq> None then (m, Ret False)
      else if length (mp_txs m) \<ge> mp_maxSize m then (m, Ret False)
      else
        let priority = tx_priority tx;
            r = mp_next m;
            objs = (mp_objs m)(r := \<lparr>mx_Tx = tx, mx_Priority = priority,
                      mx_Timestamp = tx_Timestamp tx, mx_Size = text_len tx, mx_Index = 0\<rparr>);
            q = heap_Push pqLen pqLess pqSwap pqPush r \<lparr>pq_objs = objs, pq_refs = mp_queue m\<rparr>;
            m1 = m\<lparr>mp_txs := AList.update (tx_Id tx) r (mp_txs m), mp_queue := pq_refs q,
                   mp_objs := pq_objs q, mp_next := r + 1\<rparr>
        in if mp_chanClosed m1 then (m1, Panic ''send on closed channel'')
           else if length (mp_chan m1) < txChannel_cap
           then (m1\<lparr>mp_chan := mp_chan m1 @ [tx]\<rparr>, Ret True)
           else (m1, Ret True))"

definition Mempool_Get :: "Mempool \<Rightarrow> string \<Rightarrow> Transaction option" where
  "Mempool_Get m i = map_option (\<lambda>r. mx_Tx (mp_objs m r)) (map_of (mp_txs m) i)"

definition Mempool_Remove :: "Mempool \<Rightarrow> string \<Rightarrow> Mempool" where
  "Mempool_Remove m i =
     (case map_of (mp_txs m) i of
        None \<Rightarrow> m
      | Some r \<Rightarrow> m\<lparr>mp_objs := (mp_objs m)(r := (mp_objs m r)\<lparr>mx_Priority := Finite (- 1)\<rparr>),
                    mp_txs := AList.delete i (mp_txs m)\<rparr>)"

lemma length_pqSwap [simp]: "length (pq_refs (pqSwap i j q)) = length (pq_refs q)"
  by (simp add: pqSwap_def Let_def)

lemma length_heap_down [simp]:
  "length (pq_refs (heap_down pqLess pqSwap i n q)) = length (pq_refs q)"
  by (rule heap_down_keeps [where P = "\<lambda>s. length (pq_refs s) = length (pq_refs q)"]) auto

lemma length_heap_Pop [simp]:
  "length (pq_refs (fst (heap_Pop pqLen pqLess pqSwap pqPop q))) = length (pq_refs q) - 1"
  by (simp add: heap_Pop_def pqPop_def Let_def)

lemma heap_Pop_shorter:
  "heap_Pop pqLen pqLess pqSwap pqPop q = (q1, r) \<Longrightarrow> pq_refs q \<noteq> [] \<Longrightarrow>
     length (pq_refs q1) < length (pq_refs q)"
  using length_heap_Pop [of q] by auto

text \<open>
  The loop of \<open>GetPending\<close>. The gas counter is a \<open>uint64\<close>: it wraps.
\<close>

function pending_loop :: "int \<Rightarrow> u64 \<Rightarrow> txPriorityQueue \<Rightarrow> Transaction list \<Rightarrow> u64 \<Rightarrow>
    txPriorityQueue \<times> Transaction list" where
  "pending_loop maxTxs maxGas q txs gas =
     (if 0 < pqLen q \<and> int (length txs) < maxTxs then
        let (q1, r) = heap_Pop pqLen pqLess pqSwap pqPop q; tx = pq_objs q1 r in
        if f64_less (mx_Priority tx) (Finite 0) then pending_loop maxTxs maxGas q1 txs gas
        else
          let gas1 = gas + tx_GasLimit (mx_Tx tx) in
          if gas1 > maxGas then (q1, txs)
          else pending_loop maxTxs maxGas q1 (txs @ [mx_Tx tx]) gas1
      else (q, txs))"
  by pat_completeness auto
termination pending_loop
  by (relation "measure (\<lambda>(k, g, q, txs, gas). pqLen q)")
    (auto simp: pqLen_def dest: heap_Pop_shorter [OF sym])

declare pending_loop.simps [simp del]

definition GetPending :: "Mempool \<Rightarrow> int \<Rightarrow> Mempool \<times> Transaction list" where
  "GetPending m maxTxs =
     (let q0 = \<lparr>pq_objs = mp_objs m, pq_refs = mp_queue m\<rparr>;
          q1 = heap_Init pqLess pqSwap (pqLen q0) q0;
          (q2, txs) = pending_loop maxTxs (mp_maxGas m) q1 [] 0
      in (m\<lparr>mp_objs := pq_objs q2\<rparr>, txs))"

definition Mempool_Size :: "Mempool \<Rightarrow> nat" where
  "Mempool_Size m = length (mp_txs m)"

definition Mempool_Has :: "Mempool \<Rightarrow> string \<Rightarrow> bool" where
  "Mempool_Has m i \<longleftrightarrow> map_of (mp_txs m) i \<noteq> None"

definition Mempool_Clear :: "Mempool \<Rightarrow> Mempool" where
  "Mempool_Clear m = m\<lparr>mp_txs := [], mp_queue := []\<rparr>"

definition Mempool_Stop :: "Mempool \<Rightarrow> Mempool outcome" where
  "Mempool_Stop m =
     (let m1 = Mempool_Clear m in
      if mp_chanClosed m1 then Panic ''close of closed channel''
      else Ret (m1\<lparr>mp_chanClosed := True\<rparr>))"

text \<open>
  The clean-up deletes while it ranges over the map and rebuilds the queue from what is left
  when it has deleted something; \<open>ks\<close> is the order of the first loop, \<open>ks'\<close> of the second.
  The age is a difference of \<open>int64\<close> values and wraps.
\<close>

definition maxAge :: i64 where "maxAge = 86400000000000"

definition too_old :: "i64 \<Rightarrow> MempoolTx \<Rightarrow> bool" where
  "too_old now x \<longleftrightarrow> maxAge <s now - mx_Timestamp x"

fun expire :: "i64 \<Rightarrow> string list \<Rightarrow> Mempool \<Rightarrow> Mempool \<times> nat" where
  "expire now [] m = (m, 0)"
| "expire now (i # ks) m =
     (case map_of (mp_txs m) i of
        None \<Rightarrow> expire now ks m
      | Some r \<Rightarrow>
          if too_old now (mp_objs m r)
          then (let (m1, n) = expire now ks (m\<lparr>mp_txs := AList.delete i (mp_txs m)\<rparr>) in (m1, n + 1))
          else expire now ks m)"

definition Mempool_cleanup :: "i64 \<Rightarrow> string list \<Rightarrow> string list \<Rightarrow> Mempool \<Rightarrow> Mempool" where
  "Mempool_cleanup now ks ks' m =
     (let (m1, removed) = expire now ks m in
      if removed > 0 then
        let refs = range_values ks' (mp_txs m1);
            q = heap_Init pqLess pqSwap (length refs) \<lparr>pq_objs = mp_objs m1, pq_refs = refs\<rparr>
        in m1\<lparr>mp_queue := pq_refs q, mp_objs := pq_objs q\<rparr>
      else m1)"

definition GetTotalGas :: "string list \<Rightarrow> Mempool \<Rightarrow> u64" where
  "GetTotalGas ks m = fold (\<lambda>r t. t + tx_GasLimit (mx_Tx (mp_objs m r))) (range_values ks (mp_txs m)) 0"

definition GetTotalFees :: "string list \<Rightarrow> Mempool \<Rightarrow> u64" where
  "GetTotalFees ks m = fold (\<lambda>r t. t + tx_Fee (mx_Tx (mp_objs m r))) (range_values ks (mp_txs m)) 0"

section \<open>The order of the queue\<close>

text \<open>Higher priority first, then the earlier timestamp.\<close>

datatype rank = Rank (rank_priority: float64) (rank_time: int)

instantiation rank :: linorder
begin

definition less_rank :: "rank \<Rightarrow> rank \<Rightarrow> bool" where
  "less_rank a b \<longleftrightarrow> rank_priority b < rank_priority a \<or>
     rank_priority a = rank_priority b \<and> rank_time a < rank_time b"

definition less_eq_rank :: "rank \<Rightarrow> rank \<Rightarrow> bool" where
  "less_eq_rank a b \<longleftrightarrow> a < b \<or> a = (b :: rank)"

instance
proof
  fix a b c :: rank
  show "a < b \<longleftrightarrow> a \<le> b \<and> \<not> b \<le> a" "a \<le> a" "a \<le> b \<Longrightarrow> b \<le> c \<Longrightarrow> a \<le> c" "a \<le> b \<Longrightarrow> b \<le> a \<Longrightarrow> a = b"
    by (auto simp: less_eq_rank_def less_rank_def)
  show "a \<le> b \<or> b \<le> a"
    unfolding less_eq_rank_def less_rank_def by (metis linorder_neqE rank.expand)
qed

end

text \<open>What the queue compares of an object.\<close>

definition entry :: "(ref \<Rightarrow> MempoolTx) \<Rightarrow> ref \<Rightarrow> ref \<times> float64 \<times> i64" where
  "entry objs r = (r, mx_Priority (objs r), mx_Timestamp (objs r))"

definition entry_rank :: "ref \<times> float64 \<times> i64 \<Rightarrow> rank" where
  "entry_rank e = Rank (fst (snd e)) (sint (snd (snd e)))"

definition pq_items :: "txPriorityQueue \<Rightarrow> (ref \<times> float64 \<times> i64) list" where
  "pq_items q = map (entry (pq_objs q)) (pq_refs q)"

definition pq_valid :: "txPriorityQueue \<Rightarrow> bool" where
  "pq_valid q \<longleftrightarrow> (\<forall>e \<in> set (pq_items q). fst (snd e) \<noteq> NaN)"

definition core :: "MempoolTx \<Rightarrow> MempoolTx" where
  "core x = x\<lparr>mx_Index := 0\<rparr>"

lemma core_set_index [simp]: "core (set_index r k objs x) = core (objs x)"
  by (simp add: core_def set_index_def)

lemma core_eqD:
  "core x = core y \<Longrightarrow> mx_Tx x = mx_Tx y \<and> mx_Priority x = mx_Priority y \<and>
     mx_Timestamp x = mx_Timestamp y \<and> mx_Size x = mx_Size y"
  by (cases x; cases y) (simp add: core_def)

lemma entry_set_index [simp]: "entry (set_index r k objs) = entry objs"
  by (auto simp: entry_def set_index_def)

interpretation heap: go_queue pq_items pq_valid entry_rank pqLen pqLess pqSwap pqPush pqPop
  "\<lambda>q. entry (pq_objs q)" fst
proof
  fix q i j r
  show "pqLen q = length (pq_items q)" by (simp add: pqLen_def pq_items_def)
  show swap: "i < length (pq_items q) \<Longrightarrow> j < length (pq_items q) \<Longrightarrow>
      pq_items (pqSwap i j q) = list_swap i j (pq_items q)"
    by (simp add: pq_items_def pqSwap_def list_swap_def map_update Let_def)
  show "pq_valid q \<Longrightarrow> i < length (pq_items q) \<Longrightarrow> j < length (pq_items q) \<Longrightarrow>
      pqLess q i j \<longleftrightarrow> entry_rank (pq_items q ! i) < entry_rank (pq_items q ! j)"
  proof -
    assume valid: "pq_valid q" and ij: "i < length (pq_items q)" "j < length (pq_items q)"
    then have "mx_Priority (pqAt q i) \<noteq> NaN" "mx_Priority (pqAt q j) \<noteq> NaN"
      by (auto simp: pq_valid_def pq_items_def entry_def pqAt_def)
    with ij show ?thesis
      by (auto simp: pqLess_def pq_items_def entry_def entry_rank_def less_rank_def pqAt_def
          f64_eq_iff f64_less_iff word_sless_alt)
  qed
  show "pq_valid q \<Longrightarrow> i < length (pq_items q) \<Longrightarrow> j < length (pq_items q) \<Longrightarrow>
      pq_valid (pqSwap i j q)"
    using swap by (simp add: pq_valid_def list_swap_def set_swap)
  show "pq_items (pqPush r q) = pq_items q @ [entry (pq_objs q) r]"
    by (simp add: pqPush_def pq_items_def)
  show pop: "pq_items q \<noteq> [] \<Longrightarrow> pq_items (fst (pqPop q)) = butlast (pq_items q)"
    by (simp add: pqPop_def pq_items_def Let_def butlast_conv_take take_map)
  show "pq_items q \<noteq> [] \<Longrightarrow> snd (pqPop q) = fst (last (pq_items q))"
    by (simp add: pqPop_def pq_items_def Let_def last_map entry_def last_conv_nth)
  show "pq_items q \<noteq> [] \<Longrightarrow> pq_valid q \<Longrightarrow> pq_valid (fst (pqPop q))"
    using pop by (auto simp: pq_valid_def dest: in_set_butlastD)
qed

section \<open>What the heap operations keep\<close>

definition same_objs :: "(ref \<Rightarrow> MempoolTx) \<Rightarrow> (ref \<Rightarrow> MempoolTx) \<Rightarrow> bool" where
  "same_objs objs objs' \<longleftrightarrow> (\<forall>r. core (objs' r) = core (objs r))"

lemma same_objsD:
  assumes "same_objs objs objs'"
  shows "mx_Tx (objs' r) = mx_Tx (objs r)" "mx_Priority (objs' r) = mx_Priority (objs r)"
    "mx_Timestamp (objs' r) = mx_Timestamp (objs r)" "entry objs' r = entry objs r"
  using assms core_eqD unfolding same_objs_def entry_def by metis+

definition same_queue :: "txPriorityQueue \<Rightarrow> txPriorityQueue \<Rightarrow> bool" where
  "same_queue q q' \<longleftrightarrow> mset (pq_refs q') = mset (pq_refs q) \<and> same_objs (pq_objs q) (pq_objs q')"

lemma same_queue_refl [simp]: "same_queue q q"
  by (simp add: same_queue_def same_objs_def)

lemma same_queue_swap:
  "same_queue q q' \<Longrightarrow> i < length (pq_refs q) \<Longrightarrow> j < length (pq_refs q) \<Longrightarrow>
     same_queue q (pqSwap i j q')"
  unfolding same_queue_def same_objs_def pqSwap_def Let_def
  by (metis core_set_index mset_list_swap size_mset txPriorityQueue.select_convs)

lemma same_queue_Init: "same_queue q (heap_Init pqLess pqSwap (length (pq_refs q)) q)"
  by (rule heap_Init_keeps) (auto intro: same_queue_swap)

lemma heap_Push_frame:
  fixes q r
  defines "q' \<equiv> heap_Push pqLen pqLess pqSwap pqPush r q"
  shows "mset (pq_refs q') = add_mset r (mset (pq_refs q))" "same_objs (pq_objs q) (pq_objs q')"
proof -
  have "same_queue (pqPush r q) q'"
    unfolding q'_def heap_Push_def Let_def
    by (rule heap_up_keeps [where n = "length (pq_refs (pqPush r q))"])
      (auto intro: same_queue_swap simp: pqLen_def pqPush_def)
  then show "mset (pq_refs q') = add_mset r (mset (pq_refs q))" "same_objs (pq_objs q) (pq_objs q')"
    by (simp_all add: same_queue_def same_objs_def pqPush_def)
qed

lemma heap_Pop_frame:
  assumes "pq_refs q \<noteq> []" and "heap_Pop pqLen pqLess pqSwap pqPop q = (q', r)"
  shows "mset (pq_refs q) = add_mset r (mset (pq_refs q'))" "same_objs (pq_objs q) (pq_objs q')"
proof -
  let ?n = "length (pq_refs q) - 1"
  define t where "t = heap_down pqLess pqSwap 0 ?n (pqSwap 0 ?n q)"
  have "same_queue q t"
    unfolding t_def using assms(1)
    by (intro heap_down_keeps [where P = "same_queue q"] same_queue_swap) auto
  moreover from this assms(1) have "pq_refs t \<noteq> []" by (auto simp: same_queue_def)
  moreover have "pqPop t = (q', r)"
    using assms(2) by (simp add: heap_Pop_def Let_def t_def pqLen_def)
  ultimately have
    "mset (pq_refs t) = add_mset r (mset (pq_refs q')) \<and> same_objs (pq_objs t) (pq_objs q')"
  proof -
    assume ne: "pq_refs t \<noteq> []" and pop: "pqPop t = (q', r)"
    have "r = last (pq_refs t)" "pq_refs q' = butlast (pq_refs t)"
      using pop ne by (auto simp: pqPop_def Let_def last_conv_nth butlast_conv_take)
    then have "mset (pq_refs t) = add_mset r (mset (pq_refs q'))"
      using append_butlast_last_id [OF ne] by (metis mset_append mset_single_iff mset.simps
          union_mset_add_mset_right add.right_neutral)
    moreover have "same_objs (pq_objs t) (pq_objs q')"
      using pop by (auto simp: pqPop_def Let_def same_objs_def)
    ultimately show ?thesis ..
  qed
  with \<open>same_queue q t\<close>
  show "mset (pq_refs q) = add_mset r (mset (pq_refs q'))" "same_objs (pq_objs q) (pq_objs q')"
    by (simp_all add: same_queue_def same_objs_def)
qed

section \<open>The transactions \<open>GetPending\<close> picks\<close>

definition tx_rank :: "Transaction \<Rightarrow> rank" where
  "tx_rank tx = Rank (tx_priority tx) (sint (tx_Timestamp tx))"

text \<open>
  The greedy choice along a list: while fewer than \<open>k\<close> are taken, take the next one, and
  stop for good at the first whose gas lifts the sum above the limit.
\<close>

fun take_pending :: "int \<Rightarrow> u64 \<Rightarrow> u64 \<Rightarrow> Transaction list \<Rightarrow> Transaction list" where
  "take_pending k maxGas gas [] = []"
| "take_pending k maxGas gas (tx # txs) =
     (if 0 < k \<and> gas + tx_GasLimit tx \<le> maxGas
      then tx # take_pending (k - 1) maxGas (gas + tx_GasLimit tx) txs else [])"

lemma take_pending_none [simp]: "k \<le> 0 \<Longrightarrow> take_pending k maxGas gas txs = []"
  by (cases txs) auto

definition live :: "ref \<times> float64 \<times> i64 \<Rightarrow> bool" where
  "live e \<longleftrightarrow> \<not> f64_less (fst (snd e)) (Finite 0)"

text \<open>Induction over the turns of the loop, by what the turn after its pop does.\<close>

lemma pending_loop_turns [case_names finish dead stop take]:
  assumes "\<And>q txs gas. pq_refs q = [] \<or> k \<le> int (length txs) \<Longrightarrow>
      pending_loop k maxGas q txs gas = (q, txs) \<Longrightarrow> P q txs gas"
    and "\<And>q txs gas q1 r. pq_refs q \<noteq> [] \<Longrightarrow> heap_Pop pqLen pqLess pqSwap pqPop q = (q1, r) \<Longrightarrow>
      f64_less (mx_Priority (pq_objs q1 r)) (Finite 0) \<Longrightarrow>
      pending_loop k maxGas q txs gas = pending_loop k maxGas q1 txs gas \<Longrightarrow> P q1 txs gas \<Longrightarrow> P q txs gas"
    and "\<And>q txs gas q1 r. pq_refs q \<noteq> [] \<Longrightarrow> heap_Pop pqLen pqLess pqSwap pqPop q = (q1, r) \<Longrightarrow>
      \<not> f64_less (mx_Priority (pq_objs q1 r)) (Finite 0) \<Longrightarrow> gas + tx_GasLimit (mx_Tx (pq_objs q1 r)) > maxGas \<Longrightarrow>
      pending_loop k maxGas q txs gas = (q1, txs) \<Longrightarrow> P q txs gas"
    and "\<And>q txs gas q1 r. pq_refs q \<noteq> [] \<Longrightarrow> int (length txs) < k \<Longrightarrow>
      heap_Pop pqLen pqLess pqSwap pqPop q = (q1, r) \<Longrightarrow> \<not> f64_less (mx_Priority (pq_objs q1 r)) (Finite 0) \<Longrightarrow>
      \<not> gas + tx_GasLimit (mx_Tx (pq_objs q1 r)) > maxGas \<Longrightarrow>
      pending_loop k maxGas q txs gas =
        pending_loop k maxGas q1 (txs @ [mx_Tx (pq_objs q1 r)]) (gas + tx_GasLimit (mx_Tx (pq_objs q1 r))) \<Longrightarrow>
      P q1 (txs @ [mx_Tx (pq_objs q1 r)]) (gas + tx_GasLimit (mx_Tx (pq_objs q1 r))) \<Longrightarrow> P q txs gas"
  shows "P q txs gas"
proof (induction "length (pq_refs q)" arbitrary: q txs gas rule: less_induct)
  case (less q txs gas)
  show ?case
  proof (cases "0 < pqLen q \<and> int (length txs) < k")
    case False
    then show ?thesis by (intro assms(1)) (auto simp: pqLen_def pending_loop.simps)
  next
    case True
    obtain q1 r where pop: "heap_Pop pqLen pqLess pqSwap pqPop q = (q1, r)" by fastforce
    have ne: "pq_refs q \<noteq> []" using True by (auto simp: pqLen_def)
    note IH = less [OF heap_Pop_shorter [OF pop ne]]
    let ?tx = "pq_objs q1 r"
    note rec = pending_loop.simps [of k maxGas q txs gas, unfolded pop Let_def prod.case]
    show ?thesis
    proof (cases "f64_less (mx_Priority ?tx) (Finite 0)")
      case dead: True
      show ?thesis
        by (rule assms(2) [OF ne pop dead _ IH]) (simp_all add: rec True dead ne)
    next
      case live: False
      show ?thesis
      proof (cases "gas + tx_GasLimit (mx_Tx ?tx) > maxGas")
        case stop: True
        show ?thesis by (rule assms(3) [OF ne pop live stop]) (simp add: rec True live stop)
      next
        case take: False
        show ?thesis
          by (rule assms(4) [OF ne conjunct2 [OF True] pop live take _ IH])
            (simp_all add: rec True live take ne)
      qed
    qed
  qed
qed

text \<open>What the pop of a heap without NaN gives.\<close>

lemma pop_best:
  assumes "pq_valid q" and "heap_ordered entry_rank (pq_items q)" and "same_objs objs (pq_objs q)"
    and "pq_refs q \<noteq> []" and "heap_Pop pqLen pqLess pqSwap pqPop q = (q1, r)"
  shows "pq_valid q1" "heap_ordered entry_rank (pq_items q1)" "same_objs objs (pq_objs q1)"
    "mset (pq_items q) = add_mset (entry objs r) (mset (pq_items q1))"
    "b \<in> set (pq_items q1) \<Longrightarrow> entry_rank (entry objs r) \<le> entry_rank b"
    "mx_Priority (pq_objs q1 r) = mx_Priority (objs r)" "mx_Tx (pq_objs q1 r) = mx_Tx (objs r)"
proof -
  have ne: "pq_items q \<noteq> []" using assms(4) by (simp add: pq_items_def)
  from heap.Pop_heap [OF assms(1) ne assms(2)] assms(5) obtain a where a: "r = fst a"
    "mset (pq_items q) = add_mset a (mset (pq_items q1))" "\<forall>b \<in> set (pq_items q). entry_rank a \<le> entry_rank b"
    and q1: "pq_valid q1" "heap_ordered entry_rank (pq_items q1)" by auto
  have "a \<in> set (pq_items q)" using a(2) by (metis union_single_eq_member set_mset_mset)
  then have "a = entry objs r"
    using a(1) same_objsD(4) [OF assms(3)] by (auto simp: pq_items_def entry_def)
  moreover from a(2) have "set (pq_items q1) \<subseteq> set (pq_items q)" by (metis set_mset_add_mset_insert set_mset_mset subset_insertI)
  moreover show objs1: "same_objs objs (pq_objs q1)"
    using assms(3) heap_Pop_frame(2) [OF assms(4,5)] by (simp add: same_objs_def)
  ultimately show "pq_valid q1" "heap_ordered entry_rank (pq_items q1)"
    "mset (pq_items q) = add_mset (entry objs r) (mset (pq_items q1))"
    "b \<in> set (pq_items q1) \<Longrightarrow> entry_rank (entry objs r) \<le> entry_rank b"
    "mx_Priority (pq_objs q1 r) = mx_Priority (objs r)" "mx_Tx (pq_objs q1 r) = mx_Tx (objs r)"
    using a(2,3) q1 same_objsD [OF objs1, of r] by auto
qed

lemma sorted_best:
  assumes "\<And>b. b \<in> set xs \<Longrightarrow> entry_rank a \<le> entry_rank b" and "mset es = mset (filter P xs)"
    and "sorted (map entry_rank es)"
  shows "sorted (map entry_rank (a # es))"
proof -
  have "set es \<subseteq> set xs" using mset_eq_setD [OF assms(2)] by auto
  with assms(1,3) show ?thesis by auto
qed

text \<open>
  On a heap without NaN the loop takes its transactions along a list of the live entries
  sorted by rank.
\<close>

lemma pending_loop_sorted:
  "pq_valid q \<Longrightarrow> heap_ordered entry_rank (pq_items q) \<Longrightarrow> same_objs objs (pq_objs q) \<Longrightarrow>
     \<exists>es. mset es = mset (filter live (pq_items q)) \<and> sorted (map entry_rank es) \<and>
       snd (pending_loop k maxGas q txs gas) =
         txs @ take_pending (k - int (length txs)) maxGas gas (map (\<lambda>e. mx_Tx (objs (fst e))) es)"
proof (induction q txs gas rule: pending_loop_turns [where k = k and maxGas = maxGas])
  case (finish q txs gas)
  then show ?case
    by (intro exI [of _ "sort_key entry_rank (filter live (pq_items q))"]) (auto simp: pq_items_def)
next
  case (dead q txs gas q1 r)
  note best = pop_best [OF dead(6-8,1,2)]
  have "\<not> live (entry objs r)" using dead(3) best(6) by (simp add: live_def entry_def)
  with dead(5) [OF best(1-3)] show ?case by (simp add: dead(4) best(4))
next
  case (stop q txs gas q1 r)
  note best = pop_best [OF stop(6-8,1,2)]
  let ?es = "entry objs r # sort_key entry_rank (filter live (pq_items q1))"
  have "live (entry objs r)" using stop(3) best(6) by (simp add: live_def entry_def)
  moreover have "sorted (map entry_rank ?es)" by (rule sorted_best [OF best(5), where P = live]) simp_all
  ultimately show ?case
    using stop(4) by (intro exI [of _ ?es]) (simp add: stop(5) best(4,7) not_le entry_def)
next
  case (take q txs gas q1 r)
  note best = pop_best [OF take(8-10,1,3)]
  from take(7) [OF best(1-3)] obtain es where es: "mset es = mset (filter live (pq_items q1))"
    "sorted (map entry_rank es)" and eq: "snd (pending_loop k maxGas q txs gas) =
      (txs @ [mx_Tx (objs r)]) @ take_pending (k - int (length (txs @ [mx_Tx (objs r)]))) maxGas
        (gas + tx_GasLimit (mx_Tx (objs r))) (map (\<lambda>e. mx_Tx (objs (fst e))) es)"
    by (auto simp: take(6) best(7))
  have "live (entry objs r)" using take(4) best(6) by (simp add: live_def entry_def)
  moreover have "sorted (map entry_rank (entry objs r # es))" by (rule sorted_best [OF best(5) es])
  ultimately show ?case
    using take(2,5) es(1)
    by (intro exI [of _ "entry objs r # es"]) (simp add: eq best(4,7) algebra_simps not_less entry_def)
qed

text \<open>Without any condition the picked transactions belong to distinct live entries.\<close>

lemma pop_distinct:
  assumes "distinct (pq_refs q)" and "pq_refs q \<noteq> []" and "heap_Pop pqLen pqLess pqSwap pqPop q = (q1, r)"
  shows "distinct (pq_refs q1)" "r \<notin> set (pq_refs q1)" "set (pq_refs q) = insert r (set (pq_refs q1))"
proof -
  have m: "mset (pq_refs q) = mset (r # pq_refs q1)" using heap_Pop_frame(1) [OF assms(2,3)] by simp
  show "set (pq_refs q) = insert r (set (pq_refs q1))" using mset_eq_setD [OF m] by simp
  have "distinct (r # pq_refs q1)" using mset_eq_imp_distinct_iff [OF m] assms(1) by blast
  then show "distinct (pq_refs q1)" "r \<notin> set (pq_refs q1)" by simp_all
qed

lemma pending_loop_sound:
  "distinct (pq_refs q) \<Longrightarrow> same_objs objs (pq_objs q) \<Longrightarrow>
     \<exists>rs. distinct rs \<and> set rs \<subseteq> {r \<in> set (pq_refs q). \<not> f64_less (mx_Priority (objs r)) (Finite 0)} \<and>
       snd (pending_loop k maxGas q txs gas) = txs @ map (\<lambda>r. mx_Tx (objs r)) rs \<and>
       int (length rs) \<le> max 0 (k - int (length txs))"
proof (induction q txs gas rule: pending_loop_turns [where k = k and maxGas = maxGas])
  case (dead q txs gas q1 r)
  have "same_objs objs (pq_objs q1)"
    using dead(7) heap_Pop_frame(2) [OF dead(1,2)] by (simp add: same_objs_def)
  with dead(5) pop_distinct [OF dead(6,1,2)] show ?case by (auto simp: dead(4))
next
  case (take q txs gas q1 r)
  note pop = pop_distinct [OF take(8,1,3)]
  have objs1: "same_objs objs (pq_objs q1)"
    using take(9) heap_Pop_frame(2) [OF take(1,3)] by (simp add: same_objs_def)
  from take(7) [OF pop(1) objs1] obtain rs where rs: "distinct rs"
    "set rs \<subseteq> {r \<in> set (pq_refs q1). \<not> f64_less (mx_Priority (objs r)) (Finite 0)}"
    "snd (pending_loop k maxGas q txs gas) = (txs @ [mx_Tx (pq_objs q1 r)]) @ map (\<lambda>r. mx_Tx (objs r)) rs"
    "int (length rs) \<le> max 0 (k - int (length (txs @ [mx_Tx (pq_objs q1 r)])))"
    by (auto simp: take(6))
  then show ?case
    using take(2,4) pop same_objsD [OF objs1, of r] by (intro exI [of _ "r # rs"]) auto
qed (auto intro!: exI [of _ "[]"])

section \<open>The invariant of the pool\<close>

text \<open>
  The map refers to distinct objects of the queue that carry their transaction's id, priority
  and timestamp; every other object of the queue is marked as removed.
\<close>

definition pending_refs :: "Mempool \<Rightarrow> ref list" where
  "pending_refs m = map snd (mp_txs m)"

definition pending :: "Mempool \<Rightarrow> Transaction list" where
  "pending m = map (\<lambda>r. mx_Tx (mp_objs m r)) (pending_refs m)"

definition mempool_inv :: "Mempool \<Rightarrow> bool" where
  "mempool_inv m \<longleftrightarrow>
     distinct (keys (mp_txs m)) \<and> distinct (mp_queue m) \<and> distinct (pending_refs m) \<and>
     set (pending_refs m) \<subseteq> set (mp_queue m) \<and> (\<forall>r \<in> set (mp_queue m). r < mp_next m) \<and>
     (\<forall>(i, r) \<in> set (mp_txs m). tx_Id (mx_Tx (mp_objs m r)) = i \<and>
        mx_Priority (mp_objs m r) = tx_priority (mx_Tx (mp_objs m r)) \<and>
        mx_Timestamp (mp_objs m r) = tx_Timestamp (mx_Tx (mp_objs m r))) \<and>
     (\<forall>r \<in> set (mp_queue m) - set (pending_refs m). mx_Priority (mp_objs m r) = Finite (- 1)) \<and>
     length (mp_txs m) \<le> mp_maxSize m"

lemma tx_priority_not_negative: "\<not> f64_less (tx_priority tx) (Finite 0)"
proof -
  have pos: "0 \<le> round53 q" if "0 \<le> q" for q
    using round53_mono [of 0 q] that by simp
  have "0 \<le> round53 (of_int (uint w))" for w :: u64
    by (rule pos) (simp only: of_int_0_le_iff unsigned_greater_eq)
  then show ?thesis
    by (auto simp: tx_priority_def f64_of_u64_def not_less pos intro: order_antisym)
qed

lemma mempool_invI:
  assumes "distinct (keys (mp_txs m))" "distinct (mp_queue m)" "distinct (pending_refs m)"
    "set (pending_refs m) \<subseteq> set (mp_queue m)" "\<And>r. r \<in> set (mp_queue m) \<Longrightarrow> r < mp_next m"
    "\<And>i r. (i, r) \<in> set (mp_txs m) \<Longrightarrow> tx_Id (mx_Tx (mp_objs m r)) = i \<and>
        mx_Priority (mp_objs m r) = tx_priority (mx_Tx (mp_objs m r)) \<and>
        mx_Timestamp (mp_objs m r) = tx_Timestamp (mx_Tx (mp_objs m r))"
    "\<And>r. r \<in> set (mp_queue m) \<Longrightarrow> r \<notin> set (pending_refs m) \<Longrightarrow> mx_Priority (mp_objs m r) = Finite (- 1)"
    "length (mp_txs m) \<le> mp_maxSize m"
  shows "mempool_inv m"
  using assms unfolding mempool_inv_def by blast

lemma mempool_invD:
  assumes "mempool_inv m"
  shows "distinct (keys (mp_txs m))" "distinct (mp_queue m)" "distinct (pending_refs m)"
    "set (pending_refs m) \<subseteq> set (mp_queue m)" "r \<in> set (mp_queue m) \<Longrightarrow> r < mp_next m"
    "(i, r) \<in> set (mp_txs m) \<Longrightarrow> tx_Id (mx_Tx (mp_objs m r)) = i"
    "(i, r) \<in> set (mp_txs m) \<Longrightarrow> mx_Priority (mp_objs m r) = tx_priority (mx_Tx (mp_objs m r))"
    "(i, r) \<in> set (mp_txs m) \<Longrightarrow> mx_Timestamp (mp_objs m r) = tx_Timestamp (mx_Tx (mp_objs m r))"
    "r \<in> set (mp_queue m) \<Longrightarrow> r \<notin> set (pending_refs m) \<Longrightarrow> mx_Priority (mp_objs m r) = Finite (- 1)"
    "length (mp_txs m) \<le> mp_maxSize m"
  using assms unfolding mempool_inv_def by fast+

lemma pending_refs_iff: "r \<in> set (pending_refs m) \<longleftrightarrow> (\<exists>i. (i, r) \<in> set (mp_txs m))"
  by (force simp: pending_refs_def)

text \<open>The invariant does not depend on the order of the queue or on the index fields.\<close>

lemma mempool_inv_same:
  assumes "mempool_inv m" and "mset (mp_queue m') = mset (mp_queue m)"
    and "same_objs (mp_objs m) (mp_objs m')"
    and "mp_txs m' = mp_txs m" "mp_next m' = mp_next m" "mp_maxSize m' = mp_maxSize m"
  shows "mempool_inv m'"
proof -
  have q: "set (mp_queue m') = set (mp_queue m)" "distinct (mp_queue m') = distinct (mp_queue m)"
    using mset_eq_setD [OF assms(2)] mset_eq_imp_distinct_iff [OF assms(2)] by auto
  from assms(1) show ?thesis
    unfolding mempool_inv_def pending_refs_def assms(4-6) q same_objsD [OF assms(3)] .
qed

lemma mempool_inv_New: "mempool_inv (NewMempool g)"
  by (rule mempool_invI) (simp_all add: NewMempool_def pending_refs_def keys_def)

text \<open>A new entry under an id that is not pending.\<close>

lemma mempool_inv_insert:
  assumes "mempool_inv m" and "tx_Id tx \<notin> set (keys (mp_txs m))" and "length (mp_txs m) < mp_maxSize m"
    and x: "mx_Tx x = tx" "mx_Priority x = tx_priority tx" "mx_Timestamp x = tx_Timestamp tx"
  shows "mempool_inv (m\<lparr>mp_txs := mp_txs m @ [(tx_Id tx, mp_next m)], mp_queue := mp_next m # mp_queue m,
      mp_objs := (mp_objs m)(mp_next m := x), mp_next := mp_next m + 1\<rparr>)" (is "mempool_inv ?m")
proof (rule mempool_invI)
  note inv = mempool_invD [OF assms(1)]
  have fresh: "mp_next m \<notin> set (mp_queue m)" "mp_next m \<notin> set (pending_refs m)"
    using inv(4,5) by auto
  show "distinct (keys (mp_txs ?m))" "length (mp_txs ?m) \<le> mp_maxSize ?m" "distinct (mp_queue ?m)"
    using inv(1,2) assms(2,3) fresh(1) by (auto simp: keys_def)
  show "distinct (pending_refs ?m)" "set (pending_refs ?m) \<subseteq> set (mp_queue ?m)"
    using inv(3,4) fresh(2) by (auto simp: pending_refs_def)
  show "tx_Id (mx_Tx (mp_objs ?m s)) = i \<and> mx_Priority (mp_objs ?m s) = tx_priority (mx_Tx (mp_objs ?m s)) \<and>
      mx_Timestamp (mp_objs ?m s) = tx_Timestamp (mx_Tx (mp_objs ?m s))" if "(i, s) \<in> set (mp_txs ?m)" for i s
    using that inv(6-8) fresh(2) x by (auto simp: pending_refs_iff)
  fix s assume s: "s \<in> set (mp_queue ?m)"
  show "s < mp_next ?m" using s inv(5) by (auto simp: less_SucI)
  show "s \<notin> set (pending_refs ?m) \<Longrightarrow> mx_Priority (mp_objs ?m s) = Finite (- 1)"
    using s fresh inv(9) by (auto simp: pending_refs_def)
qed

lemma mempool_inv_Add: 
  assumes "mempool_inv m"
  shows "mempool_inv (fst (Mempool_Add text_len m tx))"
proof (cases "map_of (mp_txs m) (tx_Id tx) \<noteq> None \<or> length (mp_txs m) \<ge> mp_maxSize m")
  case True
  then show ?thesis using assms by (auto simp: Mempool_Add_def)
next
  case False
  define x where "x = \<lparr>mx_Tx = tx, mx_Priority = tx_priority tx, mx_Timestamp = tx_Timestamp tx,
    mx_Size = text_len tx, mx_Index = 0\<rparr>"
  define objs where "objs = (mp_objs m)(mp_next m := x)"
  define q where "q = heap_Push pqLen pqLess pqSwap pqPush (mp_next m) \<lparr>pq_objs = objs, pq_refs = mp_queue m\<rparr>"
  have new: "tx_Id tx \<notin> set (keys (mp_txs m))" using False by (simp add: map_of_None_keys)
  note m1 = mempool_inv_insert [OF assms new, of x]
  have "mset (pq_refs q) = mset (mp_next m # mp_queue m)" "same_objs objs (pq_objs q)"
    using heap_Push_frame [where q = "\<lparr>pq_objs = objs, pq_refs = mp_queue m\<rparr>" and r = "mp_next m"] by (simp_all add: q_def)
  moreover define m2 where "m2 = m\<lparr>mp_txs := AList.update (tx_Id tx) (mp_next m) (mp_txs m),
      mp_queue := pq_refs q, mp_objs := pq_objs q, mp_next := mp_next m + 1\<rparr>"
  ultimately have "mempool_inv m2" "mempool_inv (m2\<lparr>mp_chan := mp_chan m @ [tx]\<rparr>)"
    using m1 False by (auto elim!: mempool_inv_same simp: update_new [OF new] x_def objs_def)
  then show ?thesis
    using False by (auto simp: Mempool_Add_def Let_def m2_def q_def objs_def x_def)
qed

lemma set_delete: "distinct (keys m) \<Longrightarrow> set (AList.delete k m) = {x \<in> set m. fst x \<noteq> k}"
  by (auto simp: AList.delete_eq)

text \<open>A pending entry taken out of the map and marked as dead in the queue.\<close>

lemma mempool_inv_drop:
  assumes "mempool_inv m" and ir: "(i, r) \<in> set (mp_txs m)"
  shows "mempool_inv (m\<lparr>mp_objs := (mp_objs m)(r := (mp_objs m r)\<lparr>mx_Priority := Finite (- 1)\<rparr>),
      mp_txs := AList.delete i (mp_txs m)\<rparr>)" (is "mempool_inv ?m")
proof (rule mempool_invI)
  note inv = mempool_invD [OF assms(1)]
  have txs: "set (mp_txs ?m) = {x \<in> set (mp_txs m). fst x \<noteq> i}" using inv(1) by (simp add: set_delete)
  have same: "s \<noteq> r \<longleftrightarrow> k \<noteq> i" if "(k, s) \<in> set (mp_txs m)" for k s
    using inv(6) [OF that] inv(6) [OF ir] that inv(1) ir by (auto simp: keys_def dest: eq_key_imp_eq_value)
  have refs: "set (pending_refs ?m) = set (pending_refs m) - {r}"
    unfolding set_eq_iff Diff_iff pending_refs_iff txs using same by auto
  show "distinct (keys (mp_txs ?m))" "distinct (mp_queue ?m)" using inv(1,2) by simp_all
  show "distinct (pending_refs ?m)"
    using inv(3) by (simp add: pending_refs_def AList.delete_eq distinct_map_filter)
  show "set (pending_refs ?m) \<subseteq> set (mp_queue ?m)" unfolding refs using inv(4) by auto
  have "length (AList.delete i (mp_txs m)) \<le> length (mp_txs m)" by (rule length_delete_le)
  then show "length (mp_txs ?m) \<le> mp_maxSize ?m" using inv(10) by simp
  show "tx_Id (mx_Tx (mp_objs ?m s)) = k \<and> mx_Priority (mp_objs ?m s) = tx_priority (mx_Tx (mp_objs ?m s)) \<and>
      mx_Timestamp (mp_objs ?m s) = tx_Timestamp (mx_Tx (mp_objs ?m s))" if "(k, s) \<in> set (mp_txs ?m)" for k s
    using that same inv(6,7,8) unfolding txs by auto
  fix s assume s: "s \<in> set (mp_queue ?m)"
  show "s < mp_next ?m" using s inv(5) by simp
  show "s \<notin> set (pending_refs ?m) \<Longrightarrow> mx_Priority (mp_objs ?m s) = Finite (- 1)"
    unfolding refs using s inv(9) by auto
qed

lemma mempool_inv_Remove: "mempool_inv m \<Longrightarrow> mempool_inv (Mempool_Remove m i)"
  by (auto simp: Mempool_Remove_def dest: map_of_SomeD intro: mempool_inv_drop split: option.split)

lemma pending_loop_frame: "same_objs (pq_objs q) (pq_objs (fst (pending_loop k maxGas q txs gas)))"
proof (induction q txs gas rule: pending_loop_turns [where k = k and maxGas = maxGas])
  case (dead q txs gas q1 r)
  then show ?case using heap_Pop_frame(2) [OF dead(1,2)] by (simp add: same_objs_def)
next
  case (stop q txs gas q1 r)
  then show ?case using heap_Pop_frame(2) [OF stop(1,2)] by (simp add: same_objs_def)
next
  case (take q txs gas q1 r)
  then show ?case using heap_Pop_frame(2) [OF take(1,3)] by (simp add: same_objs_def)
qed (simp add: same_objs_def)

lemma GetPending_frame:
  "mp_queue (fst (GetPending m k)) = mp_queue m" "mp_txs (fst (GetPending m k)) = mp_txs m"
  "mp_next (fst (GetPending m k)) = mp_next m" "mp_maxSize (fst (GetPending m k)) = mp_maxSize m"
  "same_objs (mp_objs m) (mp_objs (fst (GetPending m k)))"
proof -
  let ?q = "\<lparr>pq_objs = mp_objs m, pq_refs = mp_queue m\<rparr>"
  have "same_queue ?q (heap_Init pqLess pqSwap (length (mp_queue m)) ?q)"
    using same_queue_Init [of ?q] by simp
  then show "same_objs (mp_objs m) (mp_objs (fst (GetPending m k)))"
    using pending_loop_frame by (simp add: GetPending_def Let_def pqLen_def same_queue_def same_objs_def case_prod_beta)
qed (simp_all add: GetPending_def Let_def split: prod.splits)

lemma mempool_inv_GetPending: "mempool_inv m \<Longrightarrow> mempool_inv (fst (GetPending m k))"
  by (elim mempool_inv_same) (simp_all add: GetPending_frame)

lemma mempool_inv_Clear: "mempool_inv m \<Longrightarrow> mempool_inv (Mempool_Clear m)"
  by (rule mempool_invI) (simp_all add: Mempool_Clear_def pending_refs_def keys_def)

text \<open>The clean-up first leaves deleted transactions in the queue, then rebuilds it.\<close>

definition shrinks :: "Mempool \<Rightarrow> Mempool \<Rightarrow> bool" where
  "shrinks m m1 \<longleftrightarrow>
     (\<exists>xs. m1 = m\<lparr>mp_txs := xs\<rparr> \<and> set xs \<subseteq> set (mp_txs m) \<and> length xs \<le> length (mp_txs m) \<and>
        (distinct (keys (mp_txs m)) \<longrightarrow> distinct (keys xs)) \<and>
        (distinct (map snd (mp_txs m)) \<longrightarrow> distinct (map snd xs)))"

lemma shrinks_refl: "shrinks m m"
  unfolding shrinks_def by (intro exI [of _ "mp_txs m"]) simp

lemma shrinks_delete:
  assumes "shrinks (m\<lparr>mp_txs := AList.delete i (mp_txs m)\<rparr>) m1"
  shows "shrinks m m1"
proof -
  let ?d = "AList.delete i (mp_txs m)"
  have d: "set ?d \<subseteq> set (mp_txs m)" "length ?d \<le> length (mp_txs m)"
    "distinct (keys (mp_txs m)) \<longrightarrow> distinct (keys ?d)"
    "distinct (map snd (mp_txs m)) \<longrightarrow> distinct (map snd ?d)"
    by (auto simp: AList.delete_eq keys_def distinct_map_filter)
  from assms obtain xs where "m1 = m\<lparr>mp_txs := xs\<rparr>" "set xs \<subseteq> set ?d" "length xs \<le> length ?d"
    "distinct (keys ?d) \<longrightarrow> distinct (keys xs)" "distinct (map snd ?d) \<longrightarrow> distinct (map snd xs)"
    by (auto simp: shrinks_def)
  with d show ?thesis unfolding shrinks_def by (intro exI [of _ xs]) auto
qed

lemma expire_shrinks:
  "expire now ks m = (m1, n) \<Longrightarrow> shrinks m m1 \<and> (n = 0 \<longrightarrow> m1 = m)"
proof (induction ks arbitrary: m m1 n)
  case (Cons i ks)
  show ?case
  proof (cases "\<exists>r. map_of (mp_txs m) i = Some r \<and> too_old now (mp_objs m r)")
    case True
    then obtain r where r: "map_of (mp_txs m) i = Some r" "too_old now (mp_objs m r)" by blast
    obtain m2 n2 where rec: "expire now ks (m\<lparr>mp_txs := AList.delete i (mp_txs m)\<rparr>) = (m2, n2)"
      by fastforce
    with Cons.prems r have "m1 = m2" "n = n2 + 1" by simp_all
    with Cons.IH [OF rec] show ?thesis by (auto intro: shrinks_delete)
  next
    case False
    with Cons.prems have "expire now ks m = (m1, n)" by (auto split: option.splits if_splits)
    then show ?thesis by (rule Cons.IH)
  qed
qed (simp add: shrinks_refl)

lemma distinct_range_values:
  assumes "range_order ks xs" and "distinct (map snd xs)" and that: "distinct (keys xs)"
  shows "mset (range_values ks xs) = mset (map snd xs)"
proof -
  have "range_values ks xs = map (\<lambda>k. the (map_of xs k)) ks"
    using assms(1) unfolding range_values_def map_filter_def range_order_def
    by (auto intro!: map_cong filter_True dest: keys_map_of)
  moreover have "mset ks = mset (keys xs)"
    using assms(1) that by (auto simp: range_order_def set_eq_iff_mset_eq_distinct)
  moreover have "map (\<lambda>k. the (map_of xs k)) (keys xs) = map snd xs"
    using that by (auto simp: keys_def)
  ultimately show ?thesis by (metis mset_map)
qed

text \<open>A queue built again from some of the entries.\<close>

lemma mempool_inv_rebuild:
  assumes "mempool_inv m" and xs: "set xs \<subseteq> set (mp_txs m)" "length xs \<le> length (mp_txs m)"
    "distinct (keys xs)" and refs: "distinct (map snd xs)" "mset refs = mset (map snd xs)"
  shows "mempool_inv (m\<lparr>mp_txs := xs, mp_queue := refs\<rparr>)" (is "mempool_inv ?m")
proof (rule mempool_invI)
  note inv = mempool_invD [OF assms(1)]
  have rset: "set refs = set (map snd xs)" "distinct refs"
    using mset_eq_setD [OF refs(2)] mset_eq_imp_distinct_iff [OF refs(2)] refs(1) by auto
  have sub: "r \<in> set (mp_queue m)" if "r \<in> set (map snd xs)" for r
    using that xs(1) inv(4) by (force simp: pending_refs_def)
  show "tx_Id (mx_Tx (mp_objs ?m r)) = i \<and> mx_Priority (mp_objs ?m r) = tx_priority (mx_Tx (mp_objs ?m r)) \<and>
      mx_Timestamp (mp_objs ?m r) = tx_Timestamp (mx_Tx (mp_objs ?m r))" if "(i, r) \<in> set (mp_txs ?m)" for i r
    using that inv(6-8) xs(1) by auto
  show "distinct (keys (mp_txs ?m))" "distinct (mp_queue ?m)" "length (mp_txs ?m) \<le> mp_maxSize ?m"
    "distinct (pending_refs ?m)" "set (pending_refs ?m) \<subseteq> set (mp_queue ?m)"
    using xs refs(1) rset inv(10) by (auto simp: pending_refs_def)
  fix r assume r: "r \<in> set (mp_queue ?m)"
  show "r < mp_next ?m" using r inv(5) sub rset by simp
  show "r \<notin> set (pending_refs ?m) \<Longrightarrow> mx_Priority (mp_objs ?m r) = Finite (- 1)"
    using r rset by (simp add: pending_refs_def)
qed

lemma mempool_inv_cleanup:
  assumes inv: "mempool_inv m" and order: "range_order ks' (mp_txs (fst (expire now ks m)))"
  shows "mempool_inv (Mempool_cleanup now ks ks' m)"
proof -
  obtain m1 n where e: "expire now ks m = (m1, n)" by fastforce
  note sh = expire_shrinks [OF e]
  show ?thesis
  proof (cases "n = 0")
    case True
    with sh e inv show ?thesis by (simp add: Mempool_cleanup_def)
  next
    case False
    from sh obtain xs where xs: "m1 = m\<lparr>mp_txs := xs\<rparr>" "set xs \<subseteq> set (mp_txs m)"
      "length xs \<le> length (mp_txs m)" "distinct (keys xs)" "distinct (map snd xs)"
      using mempool_invD(1,3) [OF inv] by (auto simp: shrinks_def pending_refs_def)
    define refs where "refs = range_values ks' xs"
    have "mset refs = mset (map snd xs)"
      unfolding refs_def using order e xs by (intro distinct_range_values) auto
    from mempool_inv_rebuild [OF inv xs(2-5) this]
    have "mempool_inv (m\<lparr>mp_txs := xs, mp_queue := refs\<rparr>)" .
    moreover have "same_queue \<lparr>pq_objs = mp_objs m, pq_refs = refs\<rparr>
        (heap_Init pqLess pqSwap (length refs) \<lparr>pq_objs = mp_objs m, pq_refs = refs\<rparr>)"
      using same_queue_Init [of "\<lparr>pq_objs = mp_objs m, pq_refs = refs\<rparr>"] by simp
    ultimately show ?thesis
      using False by (elim mempool_inv_same)
        (simp_all add: Mempool_cleanup_def e Let_def xs(1) same_queue_def refs_def)
  qed
qed

section \<open>Runs of the pool\<close>

inductive mempool_step :: "(Transaction \<Rightarrow> nat) \<Rightarrow> Mempool \<Rightarrow> Mempool \<Rightarrow> bool"
  for text_len :: "Transaction \<Rightarrow> nat" where
  add: "mempool_step text_len m (fst (Mempool_Add text_len m tx))"
| remove: "mempool_step text_len m (Mempool_Remove m i)"
| get: "mempool_step text_len m (fst (GetPending m k))"
| clear: "mempool_step text_len m (Mempool_Clear m)"
| cleanup: "range_order ks (mp_txs m) \<Longrightarrow> range_order ks' (mp_txs (fst (expire now ks m))) \<Longrightarrow>
    mempool_step text_len m (Mempool_cleanup now ks ks' m)"
| stop: "Mempool_Stop m = Ret m' \<Longrightarrow> mempool_step text_len m m'"
| receive: "mp_chan m = tx # txs \<Longrightarrow> mempool_step text_len m (m\<lparr>mp_chan := txs\<rparr>)"

inductive mempool_reachable :: "(Transaction \<Rightarrow> nat) \<Rightarrow> Mempool \<Rightarrow> bool"
  for text_len :: "Transaction \<Rightarrow> nat" where
  start: "mempool_reachable text_len (NewMempool g)"
| step: "mempool_reachable text_len m \<Longrightarrow> mempool_step text_len m m' \<Longrightarrow> mempool_reachable text_len m'"

lemma mempool_inv_chan [simp]: "mempool_inv (m\<lparr>mp_chan := c\<rparr>) = mempool_inv m"
  by (simp add: mempool_inv_def pending_refs_def)

lemma mempool_inv_step: "mempool_step text_len m m' \<Longrightarrow> mempool_inv m \<Longrightarrow> mempool_inv m'"
proof (induction rule: mempool_step.induct)
  case (stop m m')
  then have "m' = (Mempool_Clear m)\<lparr>mp_chanClosed := True\<rparr>"
    by (auto simp: Mempool_Stop_def Let_def split: if_splits)
  moreover have "mempool_inv (m\<lparr>mp_chanClosed := b\<rparr>) = mempool_inv m" for m b
    by (simp add: mempool_inv_def pending_refs_def)
  ultimately show ?case using stop mempool_inv_Clear by simp
qed (auto intro: mempool_inv_Add mempool_inv_Remove mempool_inv_GetPending mempool_inv_Clear
    mempool_inv_cleanup)

lemma reachable_mempool_inv: "mempool_reachable text_len m \<Longrightarrow> mempool_inv m"
  by (induction rule: mempool_reachable.induct) (auto intro: mempool_inv_New mempool_inv_step)

lemma expire_maxSize: "expire now ks m = (m1, n) \<Longrightarrow> mp_maxSize m1 = mp_maxSize m"
  using expire_shrinks [of now ks m m1 n] by (auto simp: shrinks_def)

lemma mempool_maxSize: "mempool_reachable text_len m \<Longrightarrow> mp_maxSize m = 10000"
proof (induction rule: mempool_reachable.induct)
  case (step m m')
  from step(2,3) show ?case
    by cases (auto simp: Mempool_Add_def Let_def Mempool_Remove_def GetPending_frame Mempool_Clear_def
        Mempool_cleanup_def Mempool_Stop_def expire_maxSize split: option.splits if_splits prod.splits)
qed (simp add: NewMempool_def)

end
