(* ===== verification/Config.thy ===== *)
theory Config
  imports Prelude
begin

text \<open>
  The node's configuration, \<open>internal/config/config.go\<close>: one record per section with the
  source's fields, the defaults, the per-network settings and the validation. The TOML library
  and the file system are parameters; durations are nanoseconds, as in Go.
\<close>

section \<open>Records\<close>

record NetworkConfig =
  nc_NetworkID :: string
  nc_ChainID :: string
  nc_DataDir :: string

record P2PConfig =
  pc_Enabled :: bool
  pc_ListenAddress :: string
  pc_BootstrapPeers :: "string list"
  pc_MaxPeers :: i64
  pc_MinPeers :: i64
  pc_ConnectionTimeout :: i64
  pc_EnableNATTraversal :: bool
  pc_EnableRelay :: bool
  pc_EnableMetrics :: bool

record ConsensusConfig =
  cs_Enabled :: bool
  cs_RoundDuration :: i64
  cs_EpochDuration :: i64
  cs_MinValidatorStake :: u64
  cs_MaxValidatorStake :: u64
  cs_MinGasPrice :: u64
  cs_MaxGasPerRound :: u64
  cs_TargetGasPerRound :: u64
  cs_SlashingEnabled :: bool

record APIConfig =
  ap_Enabled :: bool
  ap_ListenAddress :: string
  ap_EnableREST :: bool
  ap_RESTListenAddress :: string
  ap_EnableGRPC :: bool
  ap_GRPCListenAddress :: string
  ap_CORSOrigins :: "string list"
  ap_EnableMetrics :: bool

record StorageConfig =
  sc_Backend :: string
  sc_Path :: string
  sc_EnablePruning :: bool
  sc_PruningKeepRecent :: i64
  sc_PruningInterval :: i64
  sc_CompactionInterval :: i64

record LoggingConfig =
  lc_Level :: string
  lc_Format :: string
  lc_File :: string
  lc_MaxSize :: i64
  lc_MaxBackups :: i64
  lc_MaxAge :: i64
  lc_Compress :: bool

record ValidatorConfig =
  vc_Enabled :: bool
  vc_Address :: string
  vc_CommissionRate :: u64
  vc_KeyFile :: string
  vc_MinSelfStake :: u64

text \<open>A \<open>time.Time\<close> is nanoseconds of the Unix era; its zero value is the first of January 1.\<close>

record GenesisSection =
  gs_GenesisFile :: string
  gs_InitialSupply :: u64
  gs_GenesisTime :: int
  gs_ChainID :: string

definition zero_time :: int where "zero_time = - 62135596800 * 1000000000"

record Config =
  cf_Network :: NetworkConfig
  cf_P2P :: P2PConfig
  cf_Consensus :: ConsensusConfig
  cf_API :: APIConfig
  cf_Storage :: StorageConfig
  cf_Logging :: LoggingConfig
  cf_Validator :: ValidatorConfig
  cf_Genesis :: GenesisSection

definition second :: i64 where "second = 1000000000"
definition hour :: i64 where "hour = 3600 * second"

section \<open>Defaults\<close>

definition DefaultConfig :: Config where
  "DefaultConfig = \<lparr>
     cf_Network = \<lparr>nc_NetworkID = ''ndag-devnet'', nc_ChainID = ''ndag-devnet-v1'',
       nc_DataDir = ''.ndag''\<rparr>,
     cf_P2P = \<lparr>pc_Enabled = True, pc_ListenAddress = ''/ip4/0.0.0.0/tcp/9000'',
       pc_BootstrapPeers = [], pc_MaxPeers = 100, pc_MinPeers = 5,
       pc_ConnectionTimeout = 30 * second, pc_EnableNATTraversal = True, pc_EnableRelay = True,
       pc_EnableMetrics = True\<rparr>,
     cf_Consensus = \<lparr>cs_Enabled = True, cs_RoundDuration = second, cs_EpochDuration = 24 * hour,
       cs_MinValidatorStake = 1000000, cs_MaxValidatorStake = 1000000000, cs_MinGasPrice = 1000,
       cs_MaxGasPerRound = 10000000, cs_TargetGasPerRound = 8000000, cs_SlashingEnabled = True\<rparr>,
     cf_API = \<lparr>ap_Enabled = True, ap_ListenAddress = '':9090'', ap_EnableREST = True,
       ap_RESTListenAddress = '':9091'', ap_EnableGRPC = True, ap_GRPCListenAddress = '':9092'',
       ap_CORSOrigins = [''*''], ap_EnableMetrics = True\<rparr>,
     cf_Storage = \<lparr>sc_Backend = ''leveldb'', sc_Path = ''data'', sc_EnablePruning = True,
       sc_PruningKeepRecent = 24 * hour, sc_PruningInterval = hour,
       sc_CompactionInterval = 2 * hour\<rparr>,
     cf_Logging = \<lparr>lc_Level = ''info'', lc_Format = ''json'', lc_File = [], lc_MaxSize = 100,
       lc_MaxBackups = 5, lc_MaxAge = 7, lc_Compress = True\<rparr>,
     cf_Validator = \<lparr>vc_Enabled = False, vc_Address = [], vc_CommissionRate = 10000000,
       vc_KeyFile = [], vc_MinSelfStake = 100000000\<rparr>,
     cf_Genesis = \<lparr>gs_GenesisFile = ''genesis.pb'', gs_InitialSupply = 100000000000000,
       gs_GenesisTime = zero_time, gs_ChainID = ''ndag-devnet-v1''\<rparr>\<rparr>"

section \<open>Files\<close>

text \<open>\<open>read\<close> is what \<open>os.ReadFile\<close> answers, \<open>unmarshal\<close> the TOML library writing into a record.\<close>

definition LoadConfig :: "(bytes \<Rightarrow> Config \<Rightarrow> string + Config) \<Rightarrow> string + bytes \<Rightarrow> string + Config" where
  "LoadConfig unmarshal read =
     (case read of
        Inl err \<Rightarrow> Inl (''failed to read config file: '' @ err)
      | Inr data \<Rightarrow>
          (case unmarshal data DefaultConfig of
             Inl err \<Rightarrow> Inl (''failed to unmarshal config: '' @ err)
           | Inr config \<Rightarrow> Inr config))"

text \<open>The bytes the file then holds, or the error; \<open>mkdir\<close> and \<open>write\<close> are the system's answers.\<close>

definition SaveConfig :: "(Config \<Rightarrow> string + bytes) \<Rightarrow> string option \<Rightarrow> string option \<Rightarrow> Config \<Rightarrow>
    string + bytes" where
  "SaveConfig marshal mkdir write config =
     (case marshal config of
        Inl err \<Rightarrow> Inl (''failed to marshal config: '' @ err)
      | Inr data \<Rightarrow>
          (case mkdir of
             Some err \<Rightarrow> Inl (''failed to create config directory: '' @ err)
           | None \<Rightarrow>
               (case write of
                  Some err \<Rightarrow> Inl (''failed to write config file: '' @ err)
                | None \<Rightarrow> Inr data)))"

section \<open>Validation and queries\<close>

definition Config_Validate :: "Config \<Rightarrow> string option" where
  "Config_Validate c =
     (if nc_NetworkID (cf_Network c) = [] then Some ''network_id cannot be empty''
      else if nc_ChainID (cf_Network c) = [] then Some ''chain_id cannot be empty''
      else if cs_MinGasPrice (cf_Consensus c) = 0 then Some ''min_gas_price must be greater than 0''
      else if cs_MaxGasPerRound (cf_Consensus c) = 0
      then Some ''max_gas_per_round must be greater than 0''
      else if sc_Path (cf_Storage c) = [] then Some ''storage path cannot be empty''
      else None)"

definition NetworkTypeMainnet :: string where "NetworkTypeMainnet = ''mainnet''"
definition NetworkTypeTestnet :: string where "NetworkTypeTestnet = ''testnet''"
definition NetworkTypeDevnet :: string where "NetworkTypeDevnet = ''devnet''"

definition GetNetworkType :: "Config \<Rightarrow> string" where
  "GetNetworkType c =
     (let chain = nc_ChainID (cf_Network c) in
      if chain = ''ndag-mainnet-v1'' then NetworkTypeMainnet
      else if chain = ''ndag-testnet-v1'' then NetworkTypeTestnet
      else NetworkTypeDevnet)"

definition IsValidator :: "Config \<Rightarrow> bool" where
  "IsValidator c \<longleftrightarrow> vc_Enabled (cf_Validator c) \<and> vc_Address (cf_Validator c) \<noteq> []"

definition GenerateNetworkConfig :: "string \<Rightarrow> Config" where
  "GenerateNetworkConfig networkType =
     (let config = DefaultConfig in
      if networkType = NetworkTypeMainnet then
        config\<lparr>cf_Network := \<lparr>nc_NetworkID = ''ndag-mainnet'', nc_ChainID = ''ndag-mainnet-v1'',
            nc_DataDir = ''.ndag/mainnet''\<rparr>,
          cf_Consensus := (cf_Consensus config)\<lparr>cs_RoundDuration := second,
            cs_EpochDuration := 7 * 24 * hour, cs_MinValidatorStake := 100000000000,
            cs_MinGasPrice := 10000\<rparr>,
          cf_P2P := (cf_P2P config)\<lparr>pc_BootstrapPeers :=
            [''/dns/bootstrap.ndag.network/tcp/9000/p2p/12D3KooW'']\<rparr>\<rparr>
      else if networkType = NetworkTypeTestnet then
        config\<lparr>cf_Network := \<lparr>nc_NetworkID = ''ndag-testnet'', nc_ChainID = ''ndag-testnet-v1'',
            nc_DataDir = ''.ndag/testnet''\<rparr>,
          cf_Consensus := (cf_Consensus config)\<lparr>cs_RoundDuration := second,
            cs_EpochDuration := 24 * hour, cs_MinValidatorStake := 10000000,
            cs_MinGasPrice := 1000\<rparr>,
          cf_P2P := (cf_P2P config)\<lparr>pc_BootstrapPeers :=
            [''/dns/bootstrap-test.ndag.network/tcp/9000/p2p/12D3KooW'']\<rparr>\<rparr>
      else if networkType = NetworkTypeDevnet then
        config\<lparr>cf_Network := \<lparr>nc_NetworkID = ''ndag-devnet'', nc_ChainID = ''ndag-devnet-v1'',
            nc_DataDir = ''.ndag/devnet''\<rparr>,
          cf_Consensus := (cf_Consensus config)\<lparr>cs_RoundDuration := second,
            cs_EpochDuration := hour, cs_MinValidatorStake := 1000000, cs_MinGasPrice := 100\<rparr>,
          cf_P2P := (cf_P2P config)\<lparr>pc_BootstrapPeers := []\<rparr>\<rparr>
      else config)"

section \<open>Paths\<close>

text \<open>\<open>filepath.Join\<close> on Unix: the elements that are not empty, joined and cleaned.\<close>

fun split_path :: "string \<Rightarrow> string \<Rightarrow> string list" where
  "split_path acc [] = [rev acc]"
| "split_path acc (c # cs) = (if c = CHR ''/'' then rev acc # split_path [] cs else split_path (c # acc) cs)"

definition clean_step :: "bool \<Rightarrow> string \<Rightarrow> string list \<Rightarrow> string list" where
  "clean_step rooted c stack =
     (if c = [] \<or> c = ''.'' then stack
      else if c = ''..'' then
        (case stack of
           [] \<Rightarrow> if rooted then [] else [''..'']
         | d # ds \<Rightarrow> if d = ''..'' then ''..'' # stack else ds)
      else c # stack)"

fun join_path :: "string list \<Rightarrow> string" where
  "join_path [] = []"
| "join_path [c] = c"
| "join_path (c # cs) = c @ ''/'' @ join_path cs"

definition is_abs :: "string \<Rightarrow> bool" where "is_abs p \<longleftrightarrow> take 1 p = ''/''"

definition clean_path :: "string \<Rightarrow> string" where
  "clean_path p =
     (let stack = fold (clean_step (is_abs p)) (split_path [] p) [];
          s = (if is_abs p then ''/'' else []) @ join_path (rev stack)
      in if s = [] then ''.'' else s)"

definition filepath_join :: "string \<Rightarrow> string \<Rightarrow> string" where
  "filepath_join a b =
     (if a = [] \<and> b = [] then [] else if a = [] then clean_path b
      else if b = [] then clean_path a else clean_path (a @ ''/'' @ b))"

text \<open>\<open>Join\<close> of \<open>internal/utils/filepath.go\<close> is \<open>filepath.Join\<close> of any number of elements: from the
  first that is not empty on they are joined.\<close>

fun utils_Join :: "string list \<Rightarrow> string" where
  "utils_Join [] = []"
| "utils_Join (e # es) = (if e \<noteq> [] then clean_path (join_path (e # es)) else utils_Join es)"

lemma split_path_slash: "split_path acc (p @ ''/'') = split_path acc p @ [[]]"
  by (induction acc p rule: split_path.induct) auto

lemma clean_path_slash: "p \<noteq> [] \<Longrightarrow> clean_path (p @ ''/'') = clean_path p"
  by (cases p) (simp_all add: clean_path_def split_path_slash clean_step_def is_abs_def)

lemma utils_Join_two: "utils_Join [a, b] = filepath_join a b"
  by (auto simp: filepath_join_def clean_path_slash)

text \<open>\<open>home\<close> is what \<open>os.UserHomeDir\<close> answers, empty on an error, which the code ignores.\<close>

definition GetFullDataDir :: "string \<Rightarrow> Config \<Rightarrow> string" where
  "GetFullDataDir home c =
     (if is_abs (nc_DataDir (cf_Network c)) then nc_DataDir (cf_Network c)
      else filepath_join home (nc_DataDir (cf_Network c)))"

section \<open>Properties\<close>

lemmas network_types = NetworkTypeMainnet_def NetworkTypeTestnet_def NetworkTypeDevnet_def

text \<open>The configuration generated for each of the three networks passes validation, is
  recognised as that network's by its chain id, and a data directory of its own under the
  home directory keeps the networks apart.\<close>

theorem generated_configs:
  assumes "n \<in> {NetworkTypeMainnet, NetworkTypeTestnet, NetworkTypeDevnet}"
  shows "GetNetworkType (GenerateNetworkConfig n) = n \<and>
    Config_Validate (GenerateNetworkConfig n) = None \<and>
    GetFullDataDir ''/home/u'' (GenerateNetworkConfig n) = ''/home/u/.ndag/'' @ n \<and>
    \<not> IsValidator (GenerateNetworkConfig n)"
proof -
  have main: "GetNetworkType (GenerateNetworkConfig NetworkTypeMainnet) = NetworkTypeMainnet"
    "Config_Validate (GenerateNetworkConfig NetworkTypeMainnet) = None"
    "GetFullDataDir ''/home/u'' (GenerateNetworkConfig NetworkTypeMainnet) = ''/home/u/.ndag/'' @ NetworkTypeMainnet"
    "\<not> IsValidator (GenerateNetworkConfig NetworkTypeMainnet)"
    by code_simp+
  have test: "GetNetworkType (GenerateNetworkConfig NetworkTypeTestnet) = NetworkTypeTestnet"
    "Config_Validate (GenerateNetworkConfig NetworkTypeTestnet) = None"
    "GetFullDataDir ''/home/u'' (GenerateNetworkConfig NetworkTypeTestnet) = ''/home/u/.ndag/'' @ NetworkTypeTestnet"
    "\<not> IsValidator (GenerateNetworkConfig NetworkTypeTestnet)"
    by code_simp+
  have dev: "GetNetworkType (GenerateNetworkConfig NetworkTypeDevnet) = NetworkTypeDevnet"
    "Config_Validate (GenerateNetworkConfig NetworkTypeDevnet) = None"
    "GetFullDataDir ''/home/u'' (GenerateNetworkConfig NetworkTypeDevnet) = ''/home/u/.ndag/'' @ NetworkTypeDevnet"
    "\<not> IsValidator (GenerateNetworkConfig NetworkTypeDevnet)"
    by code_simp+
  from assms main test dev show ?thesis by (elim insertE emptyE) (simp_all only: simp_thms)
qed

theorem generated_configs_witness:
  "GetNetworkType (GenerateNetworkConfig ''mainnet'') = ''mainnet''"
  using generated_configs [of "''mainnet''"] by (simp add: NetworkTypeMainnet_def)

text \<open>Mainnet raises the minimum stake above the maximum it leaves at its default.\<close>

lemma mainnet_stake_range_empty:
  "cs_MaxValidatorStake (cf_Consensus (GenerateNetworkConfig NetworkTypeMainnet)) <
     cs_MinValidatorStake (cf_Consensus (GenerateNetworkConfig NetworkTypeMainnet))"
  by (simp add: GenerateNetworkConfig_def DefaultConfig_def Let_def)

end
