(* ===== verification/Codec.thy ===== *)
theory Codec
  imports Prelude
begin

text \<open>
  A small serialisation of strings and words, with which the witnesses make the hypotheses on
  protobuf hold. It models no code of the repository.
\<close>

text \<open>Strings end at a zero, their bytes are flagged by a one; words are 64 flags.\<close>

fun put_string :: "bytes \<Rightarrow> bytes" where
  "put_string [] = [0]"
| "put_string (b # bs) = 1 # b # put_string bs"

fun get_string :: "bytes \<Rightarrow> (bytes \<times> bytes) option" where
  "get_string (x # r) =
     (if x = 0 then Some ([], r)
      else case r of
        [] \<Rightarrow> None
      | b # r' \<Rightarrow> map_option (\<lambda>(s, q). (b # s, q)) (get_string r'))"
| "get_string [] = None"

lemma get_put_string [simp]: "get_string (put_string s @ r) = Some (s, r)"
  by (induction s) auto

lemma length_put_string [simp]: "length (put_string s) = 2 * length s + 1"
  by (induction s) auto

definition put_u64 :: "u64 \<Rightarrow> bytes" where
  "put_u64 w = map (\<lambda>i. if bit w i then 1 else 0) [0..<64]"

definition get_u64 :: "bytes \<Rightarrow> (u64 \<times> bytes) option" where
  "get_u64 b = (if length b < 64 then None
     else Some (horner_sum of_bool 2 (map (\<lambda>x. x \<noteq> 0) (take 64 b)), drop 64 b))"

lemma get_put_u64 [simp]: "get_u64 (put_u64 w @ r) = Some (w, r)"
proof -
  have "map (\<lambda>x. x \<noteq> 0) (put_u64 w) = map (bit w) [0..<64]"
    by (simp add: put_u64_def comp_def)
  moreover have "length (put_u64 w) = 64" by (simp add: put_u64_def)
  ultimately show ?thesis
    by (simp add: get_u64_def horner_sum_bit_eq_take_bit take_bit_word_eq_self)
qed

end
