(* ===== verification/Network.thy ===== *)
theory Network
  imports Crypto Config Codec
begin

text \<open>
  The peer-to-peer network, \<open>pkg/network/p2p.go\<close>: its life from construction to \<open>Stop\<close>, the
  handlers that check the messages of the two gossip topics and put them on bounded channels,
  and the broadcasts. libp2p is a parameter: a host is a value of a type of its own, what its
  constructors and calls answer are arguments. Logging is left out.
\<close>

section \<open>State\<close>

definition eventTopicName :: string where "eventTopicName = ''/ndag/events/v1''"
definition txTopicName :: string where "txTopicName = ''/ndag/txs/v1''"
definition maxGossipSize :: nat where "maxGossipSize = 4 * 1024 * 1024"
definition netEventChan_cap :: nat where "netEventChan_cap = 1000"
definition netTxChan_cap :: nat where "netTxChan_cap = 5000"

text \<open>
  The context is \<open>None\<close> before the first \<open>Start\<close>, then live or cancelled. Topics and
  subscriptions count only as nil or not. \<open>nt_handlers\<close> says that the goroutines of
  \<open>startMessageHandlers\<close> run.
\<close>

datatype net_context = Live | Cancelled

record 'h P2PNetwork =
  nt_config :: Config
  nt_host :: "'h option"
  nt_pubsub :: bool
  nt_eventTopic :: bool
  nt_txTopic :: bool
  nt_eventSub :: bool
  nt_txSub :: bool
  nt_eventChan :: "Event list"
  nt_txChan :: "Transaction list"
  nt_closed :: bool
  nt_validators :: "string set"
  nt_ctx :: "net_context option"
  nt_handlers :: bool

definition NewP2PNetwork :: "Config \<Rightarrow> string + 'h P2PNetwork" where
  "NewP2PNetwork cfg =
     (if \<not> pc_Enabled (cf_P2P cfg) then Inl ''P2P network not enabled in configuration''
      else Inr \<lparr>nt_config = cfg, nt_host = None, nt_pubsub = False, nt_eventTopic = False,
        nt_txTopic = False, nt_eventSub = False, nt_txSub = False, nt_eventChan = [], nt_txChan = [],
        nt_closed = False, nt_validators = {}, nt_ctx = None, nt_handlers = False\<rparr>)"

section \<open>Starting and stopping\<close>

text \<open>What libp2p answers during \<open>Start\<close>; for a bootstrap peer, the first step that fails.\<close>

record 'h start_answers =
  sa_listen :: "string option"
  sa_host :: "string + 'h"
  sa_gossip :: "string option"
  sa_join :: "string \<Rightarrow> string option"
  sa_subscribe :: "string \<Rightarrow> string option"
  sa_address :: "string \<Rightarrow> string option"
  sa_peerInfo :: "string \<Rightarrow> string option"
  sa_connect :: "string \<Rightarrow> string option"

definition initHost :: "'h start_answers \<Rightarrow> 'h P2PNetwork \<Rightarrow> 'h P2PNetwork \<times> string option" where
  "initHost A n =
     (case sa_listen A of
        Some e \<Rightarrow> (n, Some (wrap ''invalid listen address'' e))
      | None \<Rightarrow>
          (case sa_host A of
             Inl e \<Rightarrow> (n, Some (wrap ''failed to create libp2p host'' e))
           | Inr host \<Rightarrow> (n\<lparr>nt_host := Some host\<rparr>, None)))"

definition initPubSub :: "'h start_answers \<Rightarrow> 'h P2PNetwork \<Rightarrow> 'h P2PNetwork \<times> string option" where
  "initPubSub A n =
     (case sa_gossip A of
        Some e \<Rightarrow> (n, Some (wrap ''failed to create gossip sub'' e))
      | None \<Rightarrow> let n = n\<lparr>nt_pubsub := True\<rparr> in
     (case sa_join A eventTopicName of
        Some e \<Rightarrow> (n, Some (wrap ''failed to join event topic'' e))
      | None \<Rightarrow> let n = n\<lparr>nt_eventTopic := True\<rparr> in
     (case sa_join A txTopicName of
        Some e \<Rightarrow> (n, Some (wrap ''failed to join tx topic'' e))
      | None \<Rightarrow> let n = n\<lparr>nt_txTopic := True\<rparr> in
     (case sa_subscribe A eventTopicName of
        Some e \<Rightarrow> (n, Some (wrap ''failed to subscribe to events'' e))
      | None \<Rightarrow> let n = n\<lparr>nt_eventSub := True\<rparr> in
     (case sa_subscribe A txTopicName of
        Some e \<Rightarrow> (n, Some (wrap ''failed to subscribe to txs'' e))
      | None \<Rightarrow> (n\<lparr>nt_txSub := True\<rparr>, None))))))"

definition connect_bootstrap :: "'h start_answers \<Rightarrow> string \<Rightarrow> string option" where
  "connect_bootstrap A addr =
     (case sa_address A addr of
        Some e \<Rightarrow> Some (wrap (''invalid bootstrap address: '' @ addr) e)
      | None \<Rightarrow>
          (case sa_peerInfo A addr of
             Some e \<Rightarrow> Some (wrap (''invalid peer info for: '' @ addr) e)
           | None \<Rightarrow>
               (case sa_connect A addr of
                  Some e \<Rightarrow> Some (wrap (''failed to connect to bootstrap: '' @ addr) e)
                | None \<Rightarrow> None)))"

definition connectToBootstraps :: "'h start_answers \<Rightarrow> 'h P2PNetwork \<Rightarrow> string option" where
  "connectToBootstraps A n =
     (let addrs = pc_BootstrapPeers (cf_P2P (nt_config n));
          errorCount = length (filter (\<lambda>a. connect_bootstrap A a \<noteq> None) addrs) in
      if length addrs = 0 then None
      else if errorCount = length addrs \<and> length addrs > 0
      then Some ''failed to connect to all bootstrap peers''
      else None)"

text \<open>An error of \<open>connectToBootstraps\<close> is only logged.\<close>

definition net_Start :: "'h start_answers \<Rightarrow> 'h P2PNetwork \<Rightarrow> 'h P2PNetwork \<times> string option" where
  "net_Start A n =
     (case initHost A (n\<lparr>nt_ctx := Some Live\<rparr>) of
        (n, Some e) \<Rightarrow> (n, Some (wrap ''failed to initialize libp2p host'' e))
      | (n, None) \<Rightarrow>
          (case initPubSub A n of
             (n, Some e) \<Rightarrow> (n, Some (wrap ''failed to initialize pubsub'' e))
           | (n, None) \<Rightarrow>
               (case connectToBootstraps A n of
                  _ \<Rightarrow> (n\<lparr>nt_handlers := True\<rparr>, None))))"

text \<open>
  \<open>Stop\<close> waits for the goroutines of \<open>Start\<close>. After one \<open>Start\<close> they leave once the context is
  cancelled, \<open>Next\<close> included, so the waiting is taken to end; after a second \<open>Start\<close> those of the
  first wait in \<open>Next\<close> with a context that is cancelled no more, until the next message comes.
  \<open>close_host\<close> is what \<open>host.Close\<close> answers.
\<close>

definition net_Stop :: "string option \<Rightarrow> 'h P2PNetwork \<Rightarrow> ('h P2PNetwork \<times> string option) outcome" where
  "net_Stop close_host n =
     (let n1 = (if nt_ctx n \<noteq> None then n\<lparr>nt_ctx := Some Cancelled\<rparr> else n)\<lparr>nt_handlers := False\<rparr> in
      if nt_host n1 \<noteq> None then Ret (n1, close_host)
      else if nt_closed n1 then Panic ''close of closed channel''
      else Ret (n1\<lparr>nt_closed := True\<rparr>, None))"

section \<open>Validation\<close>

definition net_validateEvent :: "Event option \<Rightarrow> string option" where
  "net_validateEvent event =
     (case event of
        None \<Rightarrow> Some ''event is nil''
      | Some event \<Rightarrow>
          if ev_Id event = [] then Some ''event missing ID''
          else if ev_Creator event = [] then Some ''event missing creator''
          else if ev_Round event = 0 \<and> length (ev_Parents event) > 0
          then Some ''genesis event cannot have parents''
          else if \<not> VerifyEventSignature event then Some ''invalid event signature''
          else None)"

definition net_validateTransaction :: "crypto_lib \<Rightarrow> 'h P2PNetwork \<Rightarrow> Transaction option \<Rightarrow> string option" where
  "net_validateTransaction L n tx =
     (case tx of
        None \<Rightarrow> Some ''transaction is nil''
      | Some tx \<Rightarrow>
          if tx_Id tx = [] then Some ''transaction missing ID''
          else if tx_ChainId tx \<noteq> nc_ChainID (cf_Network (nt_config n)) then Some ''incorrect chain ID''
          else if tx_NetworkId tx \<noteq> nc_NetworkID (cf_Network (nt_config n)) then Some ''incorrect network ID''
          else if tx_Nonce tx = 0 then Some ''nonce cannot be zero''
          else if tx_Fee tx < cs_MinGasPrice (cf_Consensus (nt_config n)) then Some ''fee too low''
          else if \<not> VerifyTransactionSignature L tx then Some ''invalid transaction signature''
          else None)"

section \<open>Message handlers\<close>

text \<open>
  One turn of each loop. \<open>next\<close> is what \<open>Next\<close> answers. The send is in a \<open>select\<close> with a
  default: on a full channel the message is dropped, on a closed one it panics.
\<close>

definition handle_event :: "(bytes \<Rightarrow> string + Event) \<Rightarrow> string + bytes \<Rightarrow> 'h P2PNetwork \<Rightarrow> 'h P2PNetwork outcome" where
  "handle_event unmarshal next n =
     (case next of
        Inl err \<Rightarrow> Ret n
      | Inr data \<Rightarrow>
          if length data > maxGossipSize then Ret n
          else
            (case unmarshal data of
               Inl err \<Rightarrow> Ret n
             | Inr event \<Rightarrow>
                 if net_validateEvent (Some event) \<noteq> None then Ret n
                 else if nt_closed n then Panic ''send on closed channel''
                 else if length (nt_eventChan n) < netEventChan_cap
                 then Ret (n\<lparr>nt_eventChan := nt_eventChan n @ [event]\<rparr>)
                 else Ret n))"

definition handle_tx :: "crypto_lib \<Rightarrow> (bytes \<Rightarrow> string + Transaction) \<Rightarrow> string + bytes \<Rightarrow> 'h P2PNetwork \<Rightarrow>
    'h P2PNetwork outcome" where
  "handle_tx L unmarshal next n =
     (case next of
        Inl err \<Rightarrow> Ret n
      | Inr data \<Rightarrow>
          if length data > maxGossipSize then Ret n
          else
            (case unmarshal data of
               Inl err \<Rightarrow> Ret n
             | Inr tx \<Rightarrow>
                 if net_validateTransaction L n (Some tx) \<noteq> None then Ret n
                 else if nt_closed n then Panic ''send on closed channel''
                 else if length (nt_txChan n) < netTxChan_cap
                 then Ret (n\<lparr>nt_txChan := nt_txChan n @ [tx]\<rparr>)
                 else Ret n))"

text \<open>The loops over the answers that come while no one else touches the network.\<close>

fun handleEventMessages :: "(bytes \<Rightarrow> string + Event) \<Rightarrow> (string + bytes) list \<Rightarrow> 'h P2PNetwork \<Rightarrow>
    'h P2PNetwork outcome" where
  "handleEventMessages unmarshal [] n = Ret n"
| "handleEventMessages unmarshal (m # ms) n =
     (if nt_ctx n \<noteq> Some Live then Ret n
      else bind_outcome (handle_event unmarshal m n) (handleEventMessages unmarshal ms))"

fun handleTxMessages :: "crypto_lib \<Rightarrow> (bytes \<Rightarrow> string + Transaction) \<Rightarrow> (string + bytes) list \<Rightarrow> 'h P2PNetwork \<Rightarrow>
    'h P2PNetwork outcome" where
  "handleTxMessages L unmarshal [] n = Ret n"
| "handleTxMessages L unmarshal (m # ms) n =
     (if nt_ctx n \<noteq> Some Live then Ret n
      else bind_outcome (handle_tx L unmarshal m n) (handleTxMessages L unmarshal ms))"

section \<open>Broadcasting and inspection\<close>

text \<open>The message handed to the topic, if any, and the error; \<open>publish\<close> is the topic's answer.\<close>

definition BroadcastEvent :: "(Event \<Rightarrow> string + bytes) \<Rightarrow> string option \<Rightarrow> 'h P2PNetwork \<Rightarrow> Event \<Rightarrow>
    bytes option \<times> string option" where
  "BroadcastEvent marshal publish n event =
     (if \<not> nt_eventTopic n then (None, Some ''event topic not initialized'')
      else
        (case marshal event of
           Inl e \<Rightarrow> (None, Some (wrap ''failed to marshal event'' e))
         | Inr data \<Rightarrow>
             (case publish of
                Some e \<Rightarrow> (None, Some (wrap ''failed to publish event'' e))
              | None \<Rightarrow> (Some data, None))))"

definition BroadcastTransaction :: "(Transaction \<Rightarrow> string + bytes) \<Rightarrow> string option \<Rightarrow> 'h P2PNetwork \<Rightarrow> Transaction \<Rightarrow>
    bytes option \<times> string option" where
  "BroadcastTransaction marshal publish n tx =
     (if \<not> nt_txTopic n then (None, Some ''transaction topic not initialized'')
      else
        (case marshal tx of
           Inl e \<Rightarrow> (None, Some (wrap ''failed to marshal transaction'' e))
         | Inr data \<Rightarrow>
             (case publish of
                Some e \<Rightarrow> (None, Some (wrap ''failed to publish transaction'' e))
              | None \<Rightarrow> (Some data, None))))"

text \<open>\<open>peers\<close> and \<open>conns\<close> are the host's connected peers and the remote addresses of its
  connections to one.\<close>

definition GetPeerCount :: "('h \<Rightarrow> string list) \<Rightarrow> 'h P2PNetwork \<Rightarrow> nat" where
  "GetPeerCount peers n = (case nt_host n of None \<Rightarrow> 0 | Some h \<Rightarrow> length (peers h))"

record AddrInfo =
  ai_ID :: string
  ai_Addrs :: "string list"

definition GetPeers :: "('h \<Rightarrow> string list) \<Rightarrow> ('h \<Rightarrow> string \<Rightarrow> string list) \<Rightarrow> 'h P2PNetwork \<Rightarrow> AddrInfo list" where
  "GetPeers peers conns n =
     (case nt_host n of
        None \<Rightarrow> []
      | Some h \<Rightarrow>
          map (\<lambda>p. \<lparr>ai_ID = p, ai_Addrs = conns h p\<rparr>)
            (filter (\<lambda>p. length (conns h p) > 0) (peers h)))"

section \<open>Steps\<close>

text \<open>
  Any interleaving of the node's calls, the turns of the two loops and the readers of the
  channels, for given hash and signature functions and given decoders.
\<close>

inductive net_step :: "crypto_lib \<Rightarrow> (bytes \<Rightarrow> string + Event) \<Rightarrow> (bytes \<Rightarrow> string + Transaction) \<Rightarrow>
    'h P2PNetwork \<Rightarrow> 'h P2PNetwork \<Rightarrow> bool" for L ue ut where
  starts: "net_step L ue ut n (fst (net_Start A n))"
| stops: "net_Stop c n = Ret (n', r) \<Longrightarrow> net_step L ue ut n n'"
| event: "nt_handlers n \<Longrightarrow> handle_event ue m n = Ret n' \<Longrightarrow> net_step L ue ut n n'"
| tx: "nt_handlers n \<Longrightarrow> handle_tx L ut m n = Ret n' \<Longrightarrow> net_step L ue ut n n'"
| take_event: "nt_eventChan n = e # es \<Longrightarrow> net_step L ue ut n (n\<lparr>nt_eventChan := es\<rparr>)"
| take_tx: "nt_txChan n = t # ts \<Longrightarrow> net_step L ue ut n (n\<lparr>nt_txChan := ts\<rparr>)"

inductive_cases net_stepE: "net_step L ue ut n n'"

section \<open>What the steps keep\<close>

lemma handle_event_cases:
  assumes "handle_event ue m n = Ret n'"
  shows "n' = n \<or> (\<exists>e. net_validateEvent (Some e) = None \<and> length (nt_eventChan n) < netEventChan_cap \<and>
    n' = n\<lparr>nt_eventChan := nt_eventChan n @ [e]\<rparr>)"
proof (cases m)
  case (Inr data)
  then show ?thesis
    using assms by (cases "ue data") (simp_all add: handle_event_def split: if_split_asm, metis)
qed (use assms in \<open>simp add: handle_event_def\<close>)

lemma handle_tx_cases:
  assumes "handle_tx L ut m n = Ret n'"
  shows "n' = n \<or> (\<exists>t. net_validateTransaction L n (Some t) = None \<and> length (nt_txChan n) < netTxChan_cap \<and>
    n' = n\<lparr>nt_txChan := nt_txChan n @ [t]\<rparr>)"
proof (cases m)
  case (Inr data)
  then show ?thesis
    using assms by (cases "ut data") (simp_all add: handle_tx_def split: if_split_asm, metis)
qed (use assms in \<open>simp add: handle_tx_def\<close>)

lemma initHost_frame:
  "initHost A n = (n', r) \<Longrightarrow>
     nt_config n' = nt_config n \<and> nt_eventChan n' = nt_eventChan n \<and> nt_txChan n' = nt_txChan n \<and> nt_closed n' = nt_closed n"
  by (auto simp: initHost_def split: option.splits sum.splits)

lemma initPubSub_frame:
  "initPubSub A n = (n', r) \<Longrightarrow>
     nt_config n' = nt_config n \<and> nt_eventChan n' = nt_eventChan n \<and> nt_txChan n' = nt_txChan n \<and> nt_closed n' = nt_closed n"
  by (auto simp: initPubSub_def Let_def split: option.splits)

lemma net_Start_frame [simp]:
  "nt_config (fst (net_Start A n)) = nt_config n" "nt_eventChan (fst (net_Start A n)) = nt_eventChan n"
  "nt_txChan (fst (net_Start A n)) = nt_txChan n" "nt_closed (fst (net_Start A n)) = nt_closed n"
  by (auto simp: net_Start_def dest!: initHost_frame initPubSub_frame split: prod.splits option.splits)

lemma net_Stop_frame:
  "net_Stop c n = Ret (n', r) \<Longrightarrow>
     nt_config n' = nt_config n \<and> nt_eventChan n' = nt_eventChan n \<and> nt_txChan n' = nt_txChan n"
  by (auto simp: net_Stop_def Let_def split: if_splits)

text \<open>\<open>validateTransaction\<close> reads nothing of the network but its configuration.\<close>

lemma validateTransaction_config:
  "nt_config m = nt_config n \<Longrightarrow> net_validateTransaction L m tx = net_validateTransaction L n tx"
  by (simp add: net_validateTransaction_def split: option.splits)

definition gated :: "crypto_lib \<Rightarrow> 'h P2PNetwork \<Rightarrow> bool" where
  "gated L n \<longleftrightarrow> length (nt_eventChan n) \<le> netEventChan_cap \<and> length (nt_txChan n) \<le> netTxChan_cap \<and>
     (\<forall>e \<in> set (nt_eventChan n). net_validateEvent (Some e) = None) \<and>
     (\<forall>t \<in> set (nt_txChan n). net_validateTransaction L n (Some t) = None)"

lemma gated_tx_chan:
  "gated L n \<Longrightarrow> length ts \<le> netTxChan_cap \<Longrightarrow>
     \<forall>t \<in> set ts. t \<in> set (nt_txChan n) \<or> net_validateTransaction L n (Some t) = None \<Longrightarrow>
     gated L (n\<lparr>nt_txChan := ts\<rparr>)"
  using validateTransaction_config [of "n\<lparr>nt_txChan := ts\<rparr>" n L] by (auto simp: gated_def)

lemma gated_event_chan:
  "gated L n \<Longrightarrow> length es \<le> netEventChan_cap \<Longrightarrow>
     \<forall>e \<in> set es. e \<in> set (nt_eventChan n) \<or> net_validateEvent (Some e) = None \<Longrightarrow>
     gated L (n\<lparr>nt_eventChan := es\<rparr>)"
  using validateTransaction_config [of "n\<lparr>nt_eventChan := es\<rparr>" n L] by (auto simp: gated_def)

lemma gated_frame:
  "gated L n \<Longrightarrow> nt_config m = nt_config n \<Longrightarrow> nt_eventChan m = nt_eventChan n \<Longrightarrow>
     nt_txChan m = nt_txChan n \<Longrightarrow> gated L m"
  using validateTransaction_config [of m n L] by (simp add: gated_def)

lemma gated_step: "net_step L ue ut n n' \<Longrightarrow> gated L n \<Longrightarrow> nt_config n' = nt_config n \<and> gated L n'"
proof (induction rule: net_step.induct)
  case (starts n A)
  show ?case using gated_frame [OF starts, of "fst (net_Start A n)"] by simp
next
  case (stops c n n' r)
  show ?case using gated_frame [OF stops(2), of n'] net_Stop_frame [OF stops(1)] by simp
next
  case (event n m n')
  from handle_event_cases [OF event(2)] event(3) show ?case
    by (elim disjE exE) (auto intro!: gated_event_chan)
next
  case (tx n m n')
  from handle_tx_cases [OF tx(2)] tx(3) show ?case
    by (elim disjE exE) (auto intro!: gated_tx_chan)
next
  case (take_event n e es)
  then have "length (e # es) \<le> netEventChan_cap" by (metis gated_def)
  with take_event show ?case by (auto intro!: gated_event_chan)
next
  case (take_tx n t ts)
  then have "length (t # ts) \<le> netTxChan_cap" by (metis gated_def)
  with take_tx show ?case by (auto intro!: gated_tx_chan)
qed

interpretation gated_networks: keeping_steps "net_step L ue ut" "\<lambda>n. nt_config n = cfg \<and> gated L n" for L ue ut cfg
  by unfold_locales (use gated_step in fastforce)

lemma gated_steps:
  "(net_step L ue ut)\<^sup>*\<^sup>* n n' \<Longrightarrow> gated L n \<Longrightarrow> nt_config n' = nt_config n \<and> gated L n'"
  using gated_networks.run [of L ue ut n n' "nt_config n"] by simp

lemma validateEvent_iff:
  "net_validateEvent (Some e) = None \<longleftrightarrow>
     ev_Id e \<noteq> [] \<and> ev_Creator e \<noteq> [] \<and> (ev_Round e = 0 \<longrightarrow> ev_Parents e = []) \<and>
     length (ev_Signature e) = SignatureSize"
  by (auto simp: net_validateEvent_def VerifyEventSignature_def)

lemma validateTransaction_iff:
  "net_validateTransaction L n (Some t) = None \<longleftrightarrow>
     tx_Id t \<noteq> [] \<and> tx_ChainId t = nc_ChainID (cf_Network (nt_config n)) \<and>
     tx_NetworkId t = nc_NetworkID (cf_Network (nt_config n)) \<and> tx_Nonce t \<noteq> 0 \<and>
     cs_MinGasPrice (cf_Consensus (nt_config n)) \<le> tx_Fee t \<and> VerifyTransactionSignature L t"
  by (auto simp: net_validateTransaction_def not_less)

section \<open>Delivery\<close>

text \<open>
  Of gossip only this is assumed: what it delivers was published. It may leave messages out, repeat
  them and deliver them in any order, and \<open>Next\<close> may answer errors in between. Of protobuf it is
  assumed that it decodes what it encoded; some events it does not encode.
\<close>

definition decodes :: "(Event \<Rightarrow> string + bytes) \<Rightarrow> (bytes \<Rightarrow> string + Event) \<Rightarrow> bool" where
  "decodes marshal unmarshal \<longleftrightarrow> (\<forall>e data. marshal e = Inr data \<longrightarrow> unmarshal data = Inr e)"

definition published :: "(Event \<Rightarrow> string + bytes) \<Rightarrow> 'h P2PNetwork \<Rightarrow> Event set \<Rightarrow> bytes set" where
  "published marshal s es = {data. \<exists>e \<in> es. fst (BroadcastEvent marshal None s e) = Some data}"

text \<open>The messages among the answers of \<open>Next\<close>; the event of a message; what the handler lets pass.\<close>

definition delivered :: "(string + bytes) list \<Rightarrow> bytes list" where
  "delivered = List.map_filter (\<lambda>m. case m of Inl _ \<Rightarrow> None | Inr data \<Rightarrow> Some data)"

definition passes :: "(Event \<Rightarrow> string + bytes) \<Rightarrow> Event \<Rightarrow> bool" where
  "passes marshal e \<longleftrightarrow> net_validateEvent (Some e) = None \<and>
     (case marshal e of Inl _ \<Rightarrow> False | Inr data \<Rightarrow> length data \<le> maxGossipSize)"

lemma delivered_simps [simp]:
  "delivered [] = []" "delivered (Inl e # ms) = delivered ms" "delivered (Inr data # ms) = data # delivered ms"
  by (simp_all add: delivered_def List.map_filter_def)

lemma published_iff: "data \<in> published marshal s es \<longleftrightarrow> nt_eventTopic s \<and> (\<exists>e \<in> es. marshal e = Inr data)"
proof -
  have "fst (BroadcastEvent marshal None s e) = Some data \<longleftrightarrow> nt_eventTopic s \<and> marshal e = Inr data" for e
    by (cases "marshal e") (auto simp: BroadcastEvent_def)
  then show ?thesis by (auto simp: published_def)
qed

lemma delivery:
  assumes "decodes marshal unmarshal" and "nt_ctx n = Some Live" and "\<not> nt_closed n"
    and "map marshal evs = map Inr (delivered ms)" and "length (nt_eventChan n) \<le> netEventChan_cap"
  shows "handleEventMessages unmarshal ms n = Ret (n\<lparr>nt_eventChan :=
    take netEventChan_cap (nt_eventChan n @ filter (passes marshal) evs)\<rparr>)"
  using assms(2-5)
proof (induction ms arbitrary: n evs)
  case (Cons m ms)
  show ?case
  proof (cases m)
    case (Inl err)
    then show ?thesis using Cons.IH [of n evs] Cons.prems by (simp add: handle_event_def)
  next
    case (Inr data)
    then obtain e evs' where evs: "evs = e # evs'" "marshal e = Inr data" "map marshal evs' = map Inr (delivered ms)"
      using Cons.prems(3) by (auto simp: Cons_eq_map_conv)
    have un: "unmarshal data = Inr e" using assms(1) evs(2) by (auto simp: decodes_def)
    have pass: "passes marshal e \<longleftrightarrow> net_validateEvent (Some e) = None \<and> length data \<le> maxGossipSize"
      by (simp add: passes_def evs(2))
    show ?thesis
    proof (cases "passes marshal e \<and> length (nt_eventChan n) < netEventChan_cap")
      case True
      then have "handle_event unmarshal (Inr data) n = Ret (n\<lparr>nt_eventChan := nt_eventChan n @ [e]\<rparr>)"
        using un Cons.prems(2) pass by (simp add: handle_event_def)
      then show ?thesis
        using True Inr Cons.IH [of "n\<lparr>nt_eventChan := nt_eventChan n @ [e]\<rparr>" evs'] Cons.prems(1,2) evs by simp
    next
      case False
      then have "handle_event unmarshal (Inr data) n = Ret n"
        using un Cons.prems(2) pass by (auto simp: handle_event_def)
      moreover have "take netEventChan_cap (nt_eventChan n @ filter (passes marshal) evs) =
          take netEventChan_cap (nt_eventChan n @ filter (passes marshal) evs')"
        using False Cons.prems(4) by (auto simp: evs(1))
      ultimately show ?thesis using Inr Cons.IH [of n evs'] Cons.prems evs(3) by simp
    qed
  qed
qed simp

section \<open>Properties\<close>

text \<open>C31: whatever is started, stopped, received and taken in whatever order, the two channels never
  hold more than 1000 events and 5000 transactions, and everything on them has passed the checks:
  a reader of the transaction channel gets only transactions of its own chain and network with a
  nonce, the minimal fee and a valid signature.\<close>

theorem channels_gated:
  assumes "NewP2PNetwork cfg = Inr n0" and "(net_step L ue ut)\<^sup>*\<^sup>* n0 n"
  shows "length (nt_eventChan n) \<le> 1000 \<and> length (nt_txChan n) \<le> 5000 \<and>
    (\<forall>e \<in> set (nt_eventChan n). ev_Id e \<noteq> [] \<and> ev_Creator e \<noteq> [] \<and>
       (ev_Round e = 0 \<longrightarrow> ev_Parents e = []) \<and> length (ev_Signature e) = 64) \<and>
    (\<forall>t \<in> set (nt_txChan n). tx_ChainId t = nc_ChainID (cf_Network cfg) \<and>
       tx_NetworkId t = nc_NetworkID (cf_Network cfg) \<and> tx_Nonce t \<noteq> 0 \<and>
       cs_MinGasPrice (cf_Consensus cfg) \<le> tx_Fee t \<and> VerifyTransactionSignature L t)"
proof -
  have n0: "nt_config n0 = cfg" "gated L n0"
    using assms(1) by (auto simp: NewP2PNetwork_def gated_def split: if_splits)
  from gated_steps [OF assms(2) n0(2)] n0(1) have n: "nt_config n = cfg" "gated L n" by simp_all
  then have "\<forall>e \<in> set (nt_eventChan n). ev_Id e \<noteq> [] \<and> ev_Creator e \<noteq> [] \<and>
       (ev_Round e = 0 \<longrightarrow> ev_Parents e = []) \<and> length (ev_Signature e) = 64"
    by (simp only: gated_def validateEvent_iff SignatureSize_def) blast
  moreover have "\<forall>t \<in> set (nt_txChan n). tx_ChainId t = nc_ChainID (cf_Network cfg) \<and>
       tx_NetworkId t = nc_NetworkID (cf_Network cfg) \<and> tx_Nonce t \<noteq> 0 \<and>
       cs_MinGasPrice (cf_Consensus cfg) \<le> tx_Fee t \<and> VerifyTransactionSignature L t"
    using n by (simp only: gated_def validateTransaction_iff) blast
  ultimately show ?thesis
    using n(2) by (simp add: gated_def netEventChan_cap_def netTxChan_cap_def)
qed

text \<open>A network whose libp2p works, and an event of round 1 with a 64-byte signature.\<close>

definition sample_answers :: "unit start_answers" where
  "sample_answers = \<lparr>sa_listen = None, sa_host = Inr (), sa_gossip = None, sa_join = (\<lambda>_. None),
     sa_subscribe = (\<lambda>_. None), sa_address = (\<lambda>_. None), sa_peerInfo = (\<lambda>_. None), sa_connect = (\<lambda>_. None)\<rparr>"

definition sample_net :: "unit P2PNetwork" where
  "sample_net = (case NewP2PNetwork DefaultConfig of Inr n \<Rightarrow> fst (net_Start sample_answers n))"

definition gossip_event :: "string \<Rightarrow> Event" where
  "gossip_event i = (mk_event i ''v'' [] 1)\<lparr>ev_Signature := replicate 64 0\<rparr>"

definition sample_decode :: "bytes \<Rightarrow> string + Event" where
  "sample_decode d = (if d = [0] then Inr (mk_event ''u'' ''v'' [] 1)
     else if d = [1] then Inr (gossip_event ''a'')
     else if d = [2] then Inr (gossip_event ''b'') else Inl ''cannot parse'')"

definition sample_encode :: "Event \<Rightarrow> string + bytes" where
  "sample_encode e = (if e = mk_event ''u'' ''v'' [] 1 then Inr [0] else if e = gossip_event ''a'' then Inr [1]
     else if e = gossip_event ''b'' then Inr [2] else Inl ''string field contains invalid UTF-8'')"

lemmas sample_net_defs = sample_net_def NewP2PNetwork_def DefaultConfig_def net_Start_def initHost_def
  initPubSub_def sample_answers_def connectToBootstraps_def

lemma sample_net_facts [simp]:
  "nt_eventTopic sample_net" "nt_ctx sample_net = Some Live" "\<not> nt_closed sample_net"
  "nt_eventChan sample_net = []" "nt_txChan sample_net = []" "nt_handlers sample_net" "nt_host sample_net = Some ()"
  by (simp_all add: sample_net_defs)

lemma valid_gossip_event [simp]: "net_validateEvent (Some (gossip_event i)) = None \<longleftrightarrow> i \<noteq> []"
  by (simp add: validateEvent_iff gossip_event_def mk_event_def SignatureSize_def)

lemma gossip_event_round [simp]: "ev_Round (gossip_event i) = 1"
  by (simp add: gossip_event_def)

lemma unsigned_invalid [simp]: "net_validateEvent (Some (mk_event i c ps r)) \<noteq> None"
  by (simp only: validateEvent_iff) (simp add: mk_event_def zero_event_def SignatureSize_def)

lemma sample_handled:
  "handle_event sample_decode (Inr [1]) sample_net = Ret (sample_net\<lparr>nt_eventChan := [gossip_event ''a'']\<rparr>)"
  by (simp add: handle_event_def maxGossipSize_def sample_decode_def netEventChan_cap_def)

theorem channels_gated_witness:
  "length (nt_eventChan (sample_net\<lparr>nt_eventChan := [gossip_event ''a'']\<rparr>)) \<le> 1000 \<and>
   length (ev_Signature (gossip_event ''a'')) = 64"
proof -
  obtain n0 :: "unit P2PNetwork" where n0: "NewP2PNetwork DefaultConfig = Inr n0"
    by (simp add: NewP2PNetwork_def DefaultConfig_def)
  have "sample_net = fst (net_Start sample_answers n0)" by (simp add: sample_net_def n0)
  then have "net_step sample_lib sample_decode (\<lambda>_. Inl []) n0 sample_net"
    by (metis net_step.starts)
  moreover have "net_step sample_lib sample_decode (\<lambda>_. Inl []) sample_net (sample_net\<lparr>nt_eventChan := [gossip_event ''a'']\<rparr>)"
    by (rule net_step.event [OF sample_net_facts(6) sample_handled])
  ultimately have "(net_step sample_lib sample_decode (\<lambda>_. Inl []))\<^sup>*\<^sup>* n0 (sample_net\<lparr>nt_eventChan := [gossip_event ''a'']\<rparr>)"
    by (meson converse_rtranclp_into_rtranclp r_into_rtranclp)
  from channels_gated [OF n0 this] show ?thesis by simp
qed

text \<open>C32: what a node receives of another's broadcasts is what was broadcast. Gossip may drop, repeat
  and reorder messages; of those it delivers, as long as the network runs and nobody else touches
  the channel, exactly the valid events with encodings of up to 4 MiB come onto the event channel,
  each as it was broadcast, in the order of delivery, and what exceeds the channel's 1000 places
  is lost.\<close>

theorem broadcast_delivers:
  assumes "decodes marshal unmarshal" and "set (delivered ms) \<subseteq> published marshal s es"
    and "nt_ctx n = Some Live" and "\<not> nt_closed n" and "length (nt_eventChan n) \<le> 1000"
  shows "\<exists>evs. set evs \<subseteq> es \<and> map marshal evs = map Inr (delivered ms) \<and>
    handleEventMessages unmarshal ms n = Ret (n\<lparr>nt_eventChan :=
      take 1000 (nt_eventChan n @ filter (\<lambda>e. net_validateEvent (Some e) = None \<and>
        (\<exists>data. marshal e = Inr data \<and> length data \<le> 4194304)) evs)\<rparr>)"
proof -
  have "\<forall>data \<in> set (delivered ms). \<exists>e \<in> es. marshal e = Inr data"
    using assms(2) by (auto simp: published_iff)
  then obtain f where f: "\<And>data. data \<in> set (delivered ms) \<Longrightarrow> f data \<in> es \<and> marshal (f data) = Inr data"
    by metis
  let ?evs = "map f (delivered ms)"
  have evs: "set ?evs \<subseteq> es" "map marshal ?evs = map Inr (delivered ms)" using f by auto
  have "passes marshal = (\<lambda>e. net_validateEvent (Some e) = None \<and> (\<exists>data. marshal e = Inr data \<and> length data \<le> 4194304))"
    by (auto simp: fun_eq_iff passes_def maxGossipSize_def split: sum.splits)
  with delivery [OF assms(1,3,4) evs(2)] assms(5) evs show ?thesis
    by (intro exI [of _ ?evs]) (simp add: netEventChan_cap_def)
qed

text \<open>The two events arrive out of order, one of them twice, with an error and an invalid event between.\<close>

theorem broadcast_delivers_witness:
  "handleEventMessages sample_decode [Inr [2], Inl ''timeout'', Inr [0], Inr [1], Inr [2]] sample_net =
    Ret (sample_net\<lparr>nt_eventChan := [gossip_event ''b'', gossip_event ''a'', gossip_event ''b'']\<rparr>)"
proof -
  let ?u = "mk_event ''u'' ''v'' [] 1"
  have d: "decodes sample_encode sample_decode"
    by (simp add: decodes_def sample_encode_def sample_decode_def)
  have ne: "gossip_event ''a'' \<noteq> gossip_event ''b''" "gossip_event i \<noteq> ?u" for i
    by (auto simp: gossip_event_def mk_event_def zero_event_def)
  note ne' = ne [THEN not_sym]
  have enc: "sample_encode (gossip_event ''a'') = Inr [1]" "sample_encode (gossip_event ''b'') = Inr [2]"
    "sample_encode ?u = Inr [0]"
    using ne ne' by (simp_all add: sample_encode_def)
  have dec: "sample_encode e = Inr [2] \<longleftrightarrow> e = gossip_event ''b''" "sample_encode e = Inr [1] \<longleftrightarrow> e = gossip_event ''a''"
    "sample_encode e = Inr [0] \<longleftrightarrow> e = ?u" for e
    using ne ne' by (auto simp: sample_encode_def)
  let ?ms = "[Inr [2], Inl ''timeout'', Inr [0], Inr [1], Inr [2]] :: (string + bytes) list"
  have "set (delivered ?ms) \<subseteq> published sample_encode sample_net {gossip_event ''a'', ?u, gossip_event ''b''}"
    using enc by (auto simp: published_iff)
  note run = broadcast_delivers [OF d this sample_net_facts(2,3)]
  obtain evs where evs: "map sample_encode evs = map Inr (delivered ?ms)" and
    run: "handleEventMessages sample_decode ?ms sample_net =
      Ret (sample_net\<lparr>nt_eventChan := take 1000 (nt_eventChan sample_net @ filter (\<lambda>e. net_validateEvent (Some e) = None \<and>
        (\<exists>data. sample_encode e = Inr data \<and> length data \<le> 4194304)) evs)\<rparr>)"
    by (rule exE [OF run]) (simp only: sample_net_facts list.size, blast+)
  from evs have "evs = [gossip_event ''b'', ?u, gossip_event ''a'', gossip_event ''b'']"
    by (simp add: map_eq_Cons_conv dec)
  with run show ?thesis by (simp add: enc)
qed

text \<open>Events are not authenticated. Whoever sends an event under any other creator, with any
  transactions, parents and bytes of signature, has it accepted like the event of the creator, as
  long as the creator is named, the signature is 64 bytes long and the round is not 0.\<close>

theorem forged_event_accepted:
  assumes "net_validateEvent (Some e) = None" and "ev_Round e \<noteq> 0" and "creator \<noteq> []" and "length sig = 64"
    and "unmarshal data = Inr (e\<lparr>ev_Creator := creator, ev_Parents := ps, ev_Transactions := ts, ev_Signature := sig\<rparr>)"
    and "length data \<le> maxGossipSize" and "\<not> nt_closed n" and "length (nt_eventChan n) < netEventChan_cap"
  shows "handle_event unmarshal (Inr data) n = Ret (n\<lparr>nt_eventChan := nt_eventChan n @
    [e\<lparr>ev_Creator := creator, ev_Parents := ps, ev_Transactions := ts, ev_Signature := sig\<rparr>]\<rparr>)"
proof -
  have "net_validateEvent (Some (e\<lparr>ev_Creator := creator, ev_Parents := ps, ev_Transactions := ts,
      ev_Signature := sig\<rparr>)) = None"
    using assms(1-4) by (simp add: validateEvent_iff SignatureSize_def)
  then show ?thesis using assms(5-8) by (simp add: handle_event_def)
qed

theorem forged_event_accepted_witness:
  "handle_event (\<lambda>_. Inr ((gossip_event ''a'')\<lparr>ev_Creator := ''w'', ev_Parents := [''p''], ev_Transactions := [],
      ev_Signature := replicate 64 9\<rparr>)) (Inr []) sample_net =
    Ret (sample_net\<lparr>nt_eventChan := [(gossip_event ''a'')\<lparr>ev_Creator := ''w'', ev_Parents := [''p''],
      ev_Transactions := [], ev_Signature := replicate 64 9\<rparr>]\<rparr>)"
  using forged_event_accepted [where e = "gossip_event ''a''" and creator = "''w''" and sig = "replicate 64 9"
      and ps = "[''p'']" and ts = "[]" and data = "[]" and n = sample_net
      and unmarshal = "\<lambda>_. Inr ((gossip_event ''a'')\<lparr>ev_Creator := ''w'', ev_Parents := [''p''],
        ev_Transactions := [], ev_Signature := replicate 64 9\<rparr>)"]
  by (simp add: netEventChan_cap_def)

text \<open>
  A network that was started keeps its channels open: \<open>Stop\<close> returns what closing the host
  returns and never reaches the lines that close them, so a reader waits for ever. One whose
  \<open>Start\<close> failed has no host: its first \<open>Stop\<close> closes the channels, a second one panics.
\<close>

theorem Stop_leaves_channels_open:
  assumes "net_Start A n = (n1, None)" and "\<not> nt_closed n"
  shows "\<exists>n2. net_Stop c n1 = Ret (n2, c) \<and> \<not> nt_closed n2"
proof -
  have "nt_host n1 \<noteq> None" "\<not> nt_closed n1"
    using assms by (auto simp: net_Start_def initHost_def initPubSub_def Let_def split: option.splits sum.splits)
  then show ?thesis by (simp add: net_Stop_def Let_def)
qed

theorem second_Stop_panics:
  assumes "net_Stop c n = Ret (n1, r)" and "nt_host n = None"
  shows "net_Stop c' n1 = Panic ''close of closed channel''"
  using assms by (auto simp: net_Stop_def Let_def split: if_splits)

end
