(* ===== verification/Genesis.thy ===== *)
theory Genesis
  imports Proto
begin

text \<open>
  The genesis event, \<open>internal/genesis/genesis.go\<close>: its construction from a configuration, the
  three networks' configurations, its ids and its validation. Go's text format of messages
  (\<open>%v\<close>), the JSON library, the file system, the clock and key generation are parameters, and so
  is the order in which Go visits the map of accounts.
\<close>

section \<open>Configuration\<close>

record ValidatorInfo =
  vi_Address :: string
  vi_PublicKey :: bytes
  vi_Stake :: u64
  vi_CommissionRate :: u64
  vi_MaxCommissionRate :: u64
  vi_CommissionChangeRate :: u64
  vi_Moniker :: string
  vi_Identity :: string
  vi_Website :: string
  vi_Details :: string

record AccountInfo =
  ai_Address :: string
  ai_Balance :: u64
  ai_Nonce :: u64
  ai_PublicKey :: bytes

record GenesisConfig =
  gc_Network :: string
  gc_ChainID :: string
  gc_NetworkID :: string
  gc_InitialSupply :: u64
  gc_GenesisTime :: i64
  gc_TreasuryAddr :: string
  gc_Validators :: "ValidatorInfo list"
  gc_TokenRegistry :: "(string \<times> Token) list option"
  gc_AccountStates :: "(string \<times> AccountInfo) list"

definition validateGenesisConfig :: "GenesisConfig \<Rightarrow> string option" where
  "validateGenesisConfig config =
     (if gc_ChainID config = [] then Some ''chain_id cannot be empty''
      else if gc_NetworkID config = [] then Some ''network_id cannot be empty''
      else if gc_InitialSupply config = 0 then Some ''initial_supply must be greater than 0''
      else if gc_TreasuryAddr config = [] then Some ''treasury_addr cannot be empty''
      else if sint (gc_GenesisTime config) \<le> 0 then Some ''genesis_time must be positive''
      else None)"

section \<open>Ids and the state hash\<close>

text \<open>No hash: the first 32 bytes, padded with zeros.\<close>

definition hashData :: "bytes \<Rightarrow> string" where
  "hashData data = hex_encode (take 32 (data @ replicate 32 0))"

definition generateGenesisTxID :: "string \<Rightarrow> i64 \<Rightarrow> string" where
  "generateGenesisTxID networkID timestamp =
     hashData (bytes_of_string (''genesis-tx-'' @ networkID @ ''-'' @ fmt_i64 timestamp))"

definition generateGenesisEventID :: "string \<Rightarrow> i64 \<Rightarrow> string" where
  "generateGenesisEventID networkID timestamp =
     hashData (bytes_of_string (''genesis-event-'' @ networkID @ ''-'' @ fmt_i64 timestamp))"

text \<open>
  \<open>[]byte(data)[:32]\<close>: the slice may reach into the capacity of the array, which Go rounds up
  to a multiple of eight, and panics beyond it.
\<close>

type_synonym text_format = "AccountStates \<Rightarrow> ValidatorSet \<Rightarrow> (string \<times> Token) list \<Rightarrow> string"

definition calculateGenesisStateHash :: "text_format \<Rightarrow> AccountStates \<Rightarrow> ValidatorSet \<Rightarrow>
    (string \<times> Token) list \<Rightarrow> bytes outcome" where
  "calculateGenesisStateHash sprint accountStates validatorSet tokenRegistry =
     (let data = bytes_of_string (sprint accountStates validatorSet tokenRegistry) in
      if length data \<le> 24 then Panic ''slice bounds out of range''
      else Ret (take 32 (data @ replicate 32 0)))"

section \<open>The event\<close>

definition genesis_validator :: "ValidatorInfo \<Rightarrow> Validator" where
  "genesis_validator valInfo = \<lparr>va_Address = vi_Address valInfo, va_PublicKey = vi_PublicKey valInfo,
     va_Stake = vi_Stake valInfo, va_CommissionRate = vi_CommissionRate valInfo,
     va_MaxCommissionRate = vi_MaxCommissionRate valInfo,
     va_CommissionChangeRate = vi_CommissionChangeRate valInfo, va_Moniker = vi_Moniker valInfo,
     va_Identity = vi_Identity valInfo, va_Website = vi_Website valInfo,
     va_Details = vi_Details valInfo, va_Jailed = False, va_VotingPower = vi_Stake valInfo\<rparr>"

definition genesis_account :: "AccountInfo \<Rightarrow> Account" where
  "genesis_account accInfo = \<lparr>ac_Address = ai_Address accInfo, ac_Balance = ai_Balance accInfo,
     ac_Nonce = ai_Nonce accInfo, ac_PublicKey = ai_PublicKey accInfo, ac_DelegatedStake = 0,
     ac_Validator = [], ac_Tokens = None\<rparr>"

definition add_validator :: "ValidatorInfo \<Rightarrow> ValidatorSet \<Rightarrow> ValidatorSet" where
  "add_validator valInfo vs = vs\<lparr>vs_Validators := vs_Validators vs @ [genesis_validator valInfo],
     vs_TotalStake := vs_TotalStake vs + vi_Stake valInfo\<rparr>"

definition validator_set :: "ValidatorInfo list \<Rightarrow> ValidatorSet" where
  "validator_set infos =
     (let vs = fold add_validator infos \<lparr>vs_Validators = [], vs_TotalStake = 0, vs_QuorumThreshold = 0\<rparr>
      in vs\<lparr>vs_QuorumThreshold := (vs_TotalStake vs * 2) div 3\<rparr>)"

text \<open>\<open>ks\<close> is the order in which the loop over \<open>config.AccountStates\<close> visits its keys.\<close>

definition account_states :: "string list \<Rightarrow> GenesisConfig \<Rightarrow> AccountStates" where
  "account_states ks config =
     (let treasuryAccount = \<lparr>ac_Address = gc_TreasuryAddr config,
            ac_Balance = gc_InitialSupply config, ac_Nonce = 0, ac_PublicKey = [],
            ac_DelegatedStake = 0, ac_Validator = [], ac_Tokens = None\<rparr>
      in \<lparr>as_Accounts =
            fold (\<lambda>accInfo accounts. accounts @ [genesis_account accInfo])
              (range_values ks (gc_AccountStates config)) [treasuryAccount]\<rparr>)"

definition GenerateGenesis :: "text_format \<Rightarrow> string list \<Rightarrow> GenesisConfig \<Rightarrow>
    (string + Event) outcome" where
  "GenerateGenesis sprint ks config =
     (case validateGenesisConfig config of
        Some err \<Rightarrow> Ret (Inl (''invalid genesis config: '' @ err))
      | None \<Rightarrow>
          let validatorSet = validator_set (gc_Validators config);
              accountStates = account_states ks config;
              registry = (case gc_TokenRegistry config of None \<Rightarrow> [] | Some m \<Rightarrow> m)
          in bind_outcome (calculateGenesisStateHash sprint accountStates validatorSet registry)
               (\<lambda>stateHash.
                  let genesisTx = zero_transaction\<lparr>
                        tx_Id := generateGenesisTxID (gc_NetworkID config) (gc_GenesisTime config),
                        tx_ChainId := gc_ChainID config, tx_NetworkId := gc_NetworkID config,
                        tx_Nonce := 0, tx_Fee := 0, tx_GasLimit := 10000000,
                        tx_Timestamp := gc_GenesisTime config,
                        tx_Payload := Genesis_Payload \<lparr>gp_Treasury = gc_TreasuryAddr config,
                          gp_InitialSupply = gc_InitialSupply config,
                          gp_ValidatorSet = Some validatorSet,
                          gp_AccountStates = Some accountStates, gp_TokenRegistry = Some registry,
                          gp_StateHash = stateHash\<rparr>\<rparr>
                  in Ret (Inr \<lparr>
                        ev_Id = generateGenesisEventID (gc_NetworkID config) (gc_GenesisTime config),
                        ev_Creator = ''genesis'', ev_Parents = [],
                        ev_Timestamp = gc_GenesisTime config, ev_Round = 0, ev_Signature = [],
                        ev_Transactions = [genesisTx], ev_VrfProof = [],
                        ev_RewardClaim = Some \<lparr>rc_Validator = ''genesis'', rc_Amount = 0,
                          rc_Epoch = 0, rc_Proof = []\<rparr>,
                        ev_StateHash = stateHash,
                        ev_Metadata = Some \<lparr>md_IsWitness = True, md_IsFamous = True,
                          md_IsFinalized = True, md_RoundReceived = 0\<rparr>\<rparr>)))"

section \<open>The networks\<close>

definition network_config :: "string \<Rightarrow> string \<Rightarrow> i64 \<Rightarrow> ValidatorInfo list \<Rightarrow> GenesisConfig" where
  "network_config network treasury now validators =
     \<lparr>gc_Network = network, gc_ChainID = ''ndag-'' @ network @ ''-v1'',
       gc_NetworkID = ''ndag-'' @ network, gc_InitialSupply = 100000000000000,
       gc_GenesisTime = now, gc_TreasuryAddr = treasury, gc_Validators = validators,
       gc_TokenRegistry = Some [], gc_AccountStates = []\<rparr>"

definition CreateTestnetGenesis :: "text_format \<Rightarrow> string list \<Rightarrow> i64 \<Rightarrow> ValidatorInfo list \<Rightarrow>
    (string + Event) outcome" where
  "CreateTestnetGenesis sprint ks now validators =
     GenerateGenesis sprint ks
       (network_config ''testnet'' ''ndag1testnet00000000000000000000000000000'' now validators)"

definition CreateMainnetGenesis :: "text_format \<Rightarrow> string list \<Rightarrow> i64 \<Rightarrow> ValidatorInfo list \<Rightarrow>
    (string + Event) outcome" where
  "CreateMainnetGenesis sprint ks now validators =
     GenerateGenesis sprint ks
       (network_config ''mainnet'' ''ndag1mainnet00000000000000000000000000000'' now validators)"

definition key_address :: "bytes \<Rightarrow> string" where
  "key_address pubKey = ''ndag'' @ hex_encode (take 8 pubKey)"

definition devnet_validator :: "bytes \<Rightarrow> ValidatorInfo" where
  "devnet_validator pubKey = \<lparr>vi_Address = key_address pubKey, vi_PublicKey = pubKey,
     vi_Stake = 10000000, vi_CommissionRate = 10000000, vi_MaxCommissionRate = 20000000,
     vi_CommissionChangeRate = 500000, vi_Moniker = ''devnet-validator-1'', vi_Identity = [],
     vi_Website = [], vi_Details = ''Development network validator''\<rparr>"

definition add_test_account :: "bytes \<Rightarrow> (string \<times> AccountInfo) list \<Rightarrow> (string \<times> AccountInfo) list" where
  "add_test_account pubKey m =
     (let addr = key_address pubKey
      in AList.update addr \<lparr>ai_Address = addr, ai_Balance = 10000000000, ai_Nonce = 0,
           ai_PublicKey = pubKey\<rparr> m)"

text \<open>
  \<open>key\<close> is the answer of the first call of \<open>ed25519.GenerateKey\<close>, \<open>ks5\<close> the public keys of the
  five calls in the loop; their error is ignored there, and the nil key it comes with panics.
\<close>

definition CreateDevnetGenesis :: "text_format \<Rightarrow> string list \<Rightarrow> i64 \<Rightarrow> string + bytes \<Rightarrow> bytes list \<Rightarrow>
    (string + Event) outcome" where
  "CreateDevnetGenesis sprint ks now key ks5 =
     (case key of
        Inl err \<Rightarrow> Ret (Inl err)
      | Inr pubKey \<Rightarrow>
          if \<exists>k \<in> set ks5. length k < 8 then Panic ''slice bounds out of range''
          else GenerateGenesis sprint ks
            ((network_config ''devnet'' ''ndag1devnet000000000000000000000000000000'' now
                [devnet_validator pubKey])
             \<lparr>gc_AccountStates := fold add_test_account ks5 []\<rparr>))"

section \<open>Files and validation\<close>

definition LoadGenesisFromFile :: "(bytes \<Rightarrow> string + Event) \<Rightarrow> string + bytes \<Rightarrow> string + Event" where
  "LoadGenesisFromFile unmarshal read =
     (case read of Inl err \<Rightarrow> Inl err | Inr data \<Rightarrow> unmarshal data)"

definition SaveGenesisToFile :: "(Event \<Rightarrow> string + bytes) \<Rightarrow> string option \<Rightarrow> Event \<Rightarrow> string + bytes" where
  "SaveGenesisToFile marshal write genesis =
     (case marshal genesis of
        Inl err \<Rightarrow> Inl err
      | Inr data \<Rightarrow> (case write of Some err \<Rightarrow> Inl err | None \<Rightarrow> Inr data))"

definition ValidateGenesis :: "Event \<Rightarrow> string option" where
  "ValidateGenesis genesis =
     (if ev_Id genesis = [] then Some ''genesis event missing ID''
      else if ev_Round genesis \<noteq> 0 then Some ''genesis round must be 0''
      else case ev_Transactions genesis of
        [genesisTx] \<Rightarrow>
          (case tx_Payload genesisTx of
             Genesis_Payload p \<Rightarrow>
               if gp_InitialSupply p = 0 then Some ''genesis supply must be > 0''
               else if gp_ValidatorSet p = None then Some ''genesis missing validator set''
               else if gp_AccountStates p = None then Some ''genesis missing account states''
               else None
           | _ \<Rightarrow> Some ''genesis transaction must have GenesisPayload'')
      | _ \<Rightarrow> Some ''genesis must have exactly 1 transaction'')"

section \<open>The validator set\<close>

lemma add_validators:
  "vs_Validators (fold add_validator infos vs) = vs_Validators vs @ map genesis_validator infos"
  "vs_TotalStake (fold add_validator infos vs) = vs_TotalStake vs + sum_list (map vi_Stake infos)"
  by (induction infos arbitrary: vs) (simp_all add: add_validator_def add.assoc)

lemma validator_set_simps:
  "vs_Validators (validator_set infos) = map genesis_validator infos"
  "vs_TotalStake (validator_set infos) = sum_list (map vi_Stake infos)"
  "vs_QuorumThreshold (validator_set infos) = (sum_list (map vi_Stake infos) * 2) div 3"
  by (simp_all add: validator_set_def Let_def add_validators)

text \<open>The stake of the validators at some positions.\<close>

definition stake_at :: "ValidatorInfo list \<Rightarrow> nat set \<Rightarrow> nat" where
  "stake_at infos A = (\<Sum>i \<in> A. unat (vi_Stake (infos ! i)))"

lemma stake_at_all: "stake_at infos {..<length infos} = sum_list (map (\<lambda>v. unat (vi_Stake v)) infos)"
  by (simp add: stake_at_def sum_list_sum_nth atLeast0LessThan)

text \<open>C35: as long as the total stake is below 2 to the 63, so that its double does not wrap, the
  quorum threshold is two thirds of the stake rounded down, and two groups of validators whose
  stake exceeds it each have a validator in common.\<close>

theorem genesis_quorums_intersect:
  assumes "stake_at infos {..<length infos} < 9223372036854775808"
    and "A \<subseteq> {..<length infos}" and "B \<subseteq> {..<length infos}"
    and "unat (vs_QuorumThreshold (validator_set infos)) < stake_at infos A"
    and "unat (vs_QuorumThreshold (validator_set infos)) < stake_at infos B"
  shows "unat (vs_QuorumThreshold (validator_set infos)) = 2 * stake_at infos {..<length infos} div 3 \<and>
    A \<inter> B \<noteq> {}"
proof -
  let ?T = "stake_at infos {..<length infos}"
  have t: "unat (sum_list (map vi_Stake infos)) = ?T"
    using assms(1) by (subst unat_sum_list) (simp_all add: stake_at_all)
  have "unat (sum_list (map vi_Stake infos) * 2) = ?T * 2"
    using assms(1) t by (simp add: unat_word_ariths)
  then have q: "unat (vs_QuorumThreshold (validator_set infos)) = 2 * ?T div 3"
    by (simp add: validator_set_simps unat_div mult.commute)
  have "A \<inter> B \<noteq> {}"
  proof
    assume "A \<inter> B = {}"
    moreover have "finite A" "finite B" using assms(2,3) finite_subset by blast+
    ultimately have "stake_at infos A + stake_at infos B = stake_at infos (A \<union> B)"
      by (simp add: stake_at_def sum.union_disjoint)
    also have "\<dots> \<le> ?T" using assms(2,3) by (auto simp: stake_at_def intro!: sum_mono2)
    finally show False using assms(4,5) q by linarith
  qed
  with q show ?thesis by simp
qed

definition sample_info :: "u64 \<Rightarrow> ValidatorInfo" where
  "sample_info st = \<lparr>vi_Address = ''v'', vi_PublicKey = [], vi_Stake = st, vi_CommissionRate = 0,
     vi_MaxCommissionRate = 0, vi_CommissionChangeRate = 0, vi_Moniker = [], vi_Identity = [],
     vi_Website = [], vi_Details = []\<rparr>"

theorem genesis_quorums_intersect_witness:
  "({0, 1, 2} :: nat set) \<inter> {1, 2, 3} \<noteq> {} \<and>
     unat (vs_QuorumThreshold (validator_set (map sample_info [10, 10, 10, 10]))) = 26"
proof -
  let ?v = "map sample_info [10, 10, 10, 10]"
  have a: "stake_at ?v {..<length ?v} = 40"
    by (subst stake_at_all) (simp add: sample_info_def)
  have b: "stake_at ?v {0, 1, 2} = 30" "stake_at ?v {1, 2, 3} = 30"
    by (simp_all add: stake_at_def sample_info_def)
  have q: "unat (vs_QuorumThreshold (validator_set ?v)) = 26"
    by (simp add: validator_set_simps sample_info_def unat_div)
  have "{0, 1, 2} \<subseteq> {..<length ?v}" "{1, 2, 3} \<subseteq> {..<length ?v}" by auto
  with genesis_quorums_intersect [of ?v "{0, 1, 2}" "{1, 2, 3}", unfolded a b q] q show ?thesis by simp
qed

text \<open>With a total of 2 to the 63 the double wraps to zero and so does the threshold.\<close>

lemma genesis_quorum_wraps:
  "unat (vs_QuorumThreshold (validator_set [sample_info 9223372036854775808])) = 0"
  by (simp add: validator_set_simps sample_info_def)

section \<open>Ids\<close>

text \<open>The ids of the genesis event and transaction are the first 32 bytes of their
  preimages: for a network id of 21 letters or more they do not depend on the time at all, and
  for shorter ones only on its leading digits.\<close>

theorem genesis_ids_forget_time:
  assumes "21 \<le> length n"
  shows "generateGenesisEventID n t = generateGenesisEventID n t' \<and>
    generateGenesisTxID n t = generateGenesisTxID n t' \<and>
    generateGenesisEventID ''ndag-mainnet'' 1700000000000000000 =
      generateGenesisEventID ''ndag-mainnet'' 1700099999999999999"
proof -
  have same: "hashData (a @ b) = hashData (a @ c)" if "32 \<le> length a" for a b c
    using that by (simp add: hashData_def)
  have e: "generateGenesisEventID n t =
      hashData (bytes_of_string (''genesis-event-'' @ n) @ bytes_of_string (''-'' @ fmt_i64 t))" for n t
    by (simp only: generateGenesisEventID_def append_assoc bytes_of_string_append)
  have x: "generateGenesisTxID n t =
      hashData (bytes_of_string (''genesis-tx-'' @ n) @ bytes_of_string (''-'' @ fmt_i64 t))" for n t
    by (simp only: generateGenesisTxID_def append_assoc bytes_of_string_append)
  have "generateGenesisEventID n t = generateGenesisEventID n t'"
    unfolding e using assms by (intro same) simp
  moreover have "generateGenesisTxID n t = generateGenesisTxID n t'"
    unfolding x using assms by (intro same) simp
  moreover have "generateGenesisEventID ''ndag-mainnet'' 1700000000000000000 =
      generateGenesisEventID ''ndag-mainnet'' 1700099999999999999"
  proof -
    have m: "generateGenesisEventID ''ndag-mainnet'' t =
        hashData (bytes_of_string ''genesis-event-ndag-mainnet-17000'' @ bytes_of_string r)"
      if "fmt_i64 t = ''17000'' @ r" for t r
      by (simp only: generateGenesisEventID_def that flip: bytes_of_string_append) simp
    have "fmt_i64 1700000000000000000 = ''17000'' @ ''00000000000000''"
      "fmt_i64 1700099999999999999 = ''17000'' @ ''99999999999999''"
      by (simp_all add: fmt_i64_def digits.simps) code_simp+
    note m [OF this(1)] m [OF this(2)]
    then show ?thesis by (simp only:) (rule same, simp)
  qed
  ultimately show ?thesis by simp
qed

theorem genesis_ids_forget_time_witness:
  "generateGenesisEventID ''ndag-private-network-7'' 1 = generateGenesisEventID ''ndag-private-network-7'' 2"
  using genesis_ids_forget_time [of "''ndag-private-network-7''" 1 2] by simp

section \<open>Generation\<close>

lemma account_states_accounts:
  "as_Accounts (account_states ks config) =
     \<lparr>ac_Address = gc_TreasuryAddr config, ac_Balance = gc_InitialSupply config, ac_Nonce = 0,
       ac_PublicKey = [], ac_DelegatedStake = 0, ac_Validator = [], ac_Tokens = None\<rparr> #
     map genesis_account (range_values ks (gc_AccountStates config))"
proof -
  have "fold (\<lambda>accInfo accounts. accounts @ [genesis_account accInfo]) xs as = as @ map genesis_account xs"
    for xs as
    by (induction xs arbitrary: as) simp_all
  then show ?thesis by (simp add: account_states_def Let_def)
qed

text \<open>The payload of a genesis event.\<close>

definition genesis_payload :: "Event \<Rightarrow> GenesisPayload option" where
  "genesis_payload e = (case ev_Transactions e of
     [t] \<Rightarrow> (case tx_Payload t of Genesis_Payload p \<Rightarrow> Some p | _ \<Rightarrow> None) | _ \<Rightarrow> None)"

text \<open>C34: from a configuration that passes the checks GenerateGenesis makes an event that passes
  ValidateGenesis, whatever the order in which the accounts are visited. The treasury comes first
  and holds the whole initial supply; the configured accounts follow and are paid on top of it,
  so the balances sum to more than the recorded supply whenever there are any.\<close>

theorem generated_genesis_validates:
  assumes "validateGenesisConfig config = None"
    and "24 < length (sprint (account_states ks config) (validator_set (gc_Validators config))
           (case gc_TokenRegistry config of None \<Rightarrow> [] | Some m \<Rightarrow> m))"
  shows "\<exists>e p accs. GenerateGenesis sprint ks config = Ret (Inr e) \<and> ValidateGenesis e = None \<and>
    genesis_payload e = Some p \<and> gp_AccountStates p = Some accs \<and>
    gp_ValidatorSet p = Some (validator_set (gc_Validators config)) \<and>
    length (ev_StateHash e) = 32 \<and> gp_StateHash p = ev_StateHash e \<and>
    map (\<lambda>a. (ac_Address a, ac_Balance a)) (as_Accounts accs) =
      (gc_TreasuryAddr config, gp_InitialSupply p) #
      map (\<lambda>a. (ai_Address a, ai_Balance a)) (range_values ks (gc_AccountStates config))"
proof -
  have "length (hashData bs) = 64" for bs by (simp add: hashData_def)
  then have i: "generateGenesisEventID n t \<noteq> []" for n t
    unfolding generateGenesisEventID_def by (metis list.size(3) zero_neq_numeral)
  have positive: "gc_InitialSupply config \<noteq> 0"
    using assms(1) by (auto simp: validateGenesisConfig_def split: if_splits)
  have accs: "map (\<lambda>a. (ac_Address a, ac_Balance a)) (as_Accounts (account_states ks config)) =
      (gc_TreasuryAddr config, gc_InitialSupply config) #
      map (\<lambda>a. (ai_Address a, ai_Balance a)) (range_values ks (gc_AccountStates config))"
    by (simp add: account_states_accounts genesis_account_def comp_def)
  show ?thesis
    using assms(2) i positive accs
    by (simp add: GenerateGenesis_def assms(1) calculateGenesisStateHash_def Let_def
        ValidateGenesis_def genesis_payload_def zero_transaction_def del: take_append)
qed

theorem generated_genesis_validates_witness:
  "\<exists>e. GenerateGenesis (\<lambda>a v t. replicate 40 CHR ''x'') []
     (network_config ''testnet'' ''ndag1treasury'' 1700000000000000000 [sample_info 5]) = Ret (Inr e) \<and>
   ValidateGenesis e = None"
proof -
  have "validateGenesisConfig
      (network_config ''testnet'' ''ndag1treasury'' 1700000000000000000 [sample_info 5]) = None"
    by (simp add: validateGenesisConfig_def network_config_def)
  from generated_genesis_validates [OF this, of "\<lambda>a v t. replicate 40 CHR ''x''" "[]"] show ?thesis by auto
qed

end
