(* ===== verification/Node.thy ===== *)
theory Node
  imports Executor Mempool Network Genesis
begin

text \<open>
  The node of \<open>pkg/node/node_production.go\<close>: its construction, the genesis file, one tick of the
  event loop (an event made of pending transactions, the check of finality with the execution of
  finalized events, network events, cleanup), start and stop; and the older node of \<open>node.go\<close>.
  The executor's state holds the database and the engine, and the engine the graph: the code's
  objects share them by pointers. Two methods the file calls are defined nowhere and are
  parameters: \<open>Sign\<close> of an event and \<open>processNetworkEvents\<close>. So are protobuf, the file system,
  the clock and the run-time system. Logging, metrics and garbage collection are left out.
\<close>

section \<open>State\<close>

record ('d, 'h) NodeProduction =
  np_config :: Config
  np_exec :: "'d exec_state"
  np_mempool :: Mempool
  np_network :: "'h P2PNetwork option"
  np_apiServer :: bool
  np_running :: bool

abbreviation np_engine :: "('d, 'h) NodeProduction \<Rightarrow> Engine" where
  "np_engine n \<equiv> xs_consensus (np_exec n)"

abbreviation np_dag :: "('d, 'h) NodeProduction \<Rightarrow> DAG" where
  "np_dag n \<equiv> en_dag (np_engine n)"

definition set_engine :: "Engine \<Rightarrow> ('d, 'h) NodeProduction \<Rightarrow> ('d, 'h) NodeProduction" where
  "set_engine e n = n\<lparr>np_exec := (np_exec n)\<lparr>xs_consensus := e\<rparr>\<rparr>"

record 'd node_env =
  ne_exec :: "'d exec_env"
  ne_sign :: "Event \<Rightarrow> string + Event"
  ne_marshalEvent :: "Event \<Rightarrow> string + bytes"
  ne_unmarshalEvent :: "bytes \<Rightarrow> string + Event"

text \<open>What one tick gets from outside: the clock, the orders in which Go visits the events before
  and after an event is made, and the answer of the topic.\<close>

record tick_inputs =
  ti_nano :: i64
  ti_unix :: i64
  ti_before :: "string list"
  ti_after :: "string list"
  ti_publish :: "string option"

section \<open>Making events\<close>

definition prod_generateEventID :: "i64 \<Rightarrow> i64 \<Rightarrow> string" where
  "prod_generateEventID nano unix = ''event-'' @ fmt_i64 nano @ ''-'' @ fmt_i64 unix"

text \<open>The network section is no pointer; the last branch is never taken.\<close>

definition prod_getNodeID :: "Config \<Rightarrow> string" where
  "prod_getNodeID cfg =
     (if vc_Enabled (cf_Validator cfg) \<and> vc_Address (cf_Validator cfg) \<noteq> [] then vc_Address (cf_Validator cfg)
      else ''ndag-node-'' @ nc_ChainID (cf_Network cfg))"

text \<open>The loop starts at the last witness but one.\<close>

function parents_loop :: "Event list \<Rightarrow> int \<Rightarrow> string list" where
  "parents_loop witnesses i =
     (if i < int (length witnesses) \<and> i \<ge> 0 then ev_Id (witnesses ! nat i) # parents_loop witnesses (i + 1) else [])"
  by pat_completeness auto
termination by (relation "measure (\<lambda>(ws, i). nat (int (length ws) - i))") auto

declare parents_loop.simps [simp del]

definition getLatestParents :: "string list \<Rightarrow> Engine \<Rightarrow> Engine \<times> string list" where
  "getLatestParents ks e =
     (let (e1, latestRound) = CurrentRound ks e; witnesses = GetWitnesses (en_dag e1) latestRound in
      (e1, if length witnesses > 0 then parents_loop witnesses (int (length witnesses) - 2) else []))"

text \<open>The node afterwards and the message broadcast, whose failure is only logged.\<close>

definition prod_processMempool :: "'d node_env \<Rightarrow> tick_inputs \<Rightarrow> ('d, 'h) NodeProduction \<Rightarrow>
    ('d, 'h) NodeProduction \<times> bytes option" where
  "prod_processMempool E inp n =
     (let (m1, pending) = GetPending (np_mempool n) 100; n1 = n\<lparr>np_mempool := m1\<rparr> in
      if length pending = 0 then (n1, None)
      else
        let (e1, parents) = getLatestParents (ti_before inp) (np_engine n1);
            (e2, r) = CurrentRound (ti_before inp) e1;
            event = zero_event\<lparr>ev_Id := prod_generateEventID (ti_nano inp) (ti_unix inp),
              ev_Creator := prod_getNodeID (np_config n), ev_Parents := parents, ev_Timestamp := ti_nano inp,
              ev_Round := r, ev_Transactions := pending\<rparr>;
            n2 = set_engine e2 n1
        in case ne_sign E event of
             Inl err \<Rightarrow> (n2, None)
           | Inr event \<Rightarrow>
               (case AddEvent (en_dag e2) (Some event) of
                  (d, Some err) \<Rightarrow> (set_engine (e2\<lparr>en_dag := d\<rparr>) n2, None)
                | (d, None) \<Rightarrow>
                    (let n3 = set_engine (e2\<lparr>en_dag := d\<rparr>) n2 in
                     (n3\<lparr>np_mempool := fold (\<lambda>tx m. Mempool_Remove m (tx_Id tx)) pending m1\<rparr>,
                      case np_network n of None \<Rightarrow> None
                      | Some net \<Rightarrow> fst (BroadcastEvent (ne_marshalEvent E) (ti_publish inp) net event)))))"

section \<open>Finality and execution\<close>

fun executeFinalizedEvent :: "'d exec_env \<Rightarrow> Transaction list \<Rightarrow> 'd exec_state \<Rightarrow> 'd exec_state \<times> unit outcome" where
  "executeFinalizedEvent E [] st = (st, Ret ())"
| "executeFinalizedEvent E (tx # txs) st =
     (case Execute E st (Some tx) of
        (st1, Panic m) \<Rightarrow> (st1, Panic m)
      | (st1, Ret _) \<Rightarrow> executeFinalizedEvent E txs st1)"

fun finality_witnesses :: "'d exec_env \<Rightarrow> Event list \<Rightarrow> 'd exec_state \<Rightarrow> 'd exec_state \<times> unit outcome" where
  "finality_witnesses E [] st = (st, Ret ())"
| "finality_witnesses E (w # ws) st =
     (let (e1, final) = CheckFinality (xs_consensus st) (ev_Id w); st1 = st\<lparr>xs_consensus := e1\<rparr> in
      if final then
        (case executeFinalizedEvent E (ev_Transactions w) st1 of
           (st2, Panic m) \<Rightarrow> (st2, Panic m)
         | (st2, Ret _) \<Rightarrow> finality_witnesses E ws st2)
      else finality_witnesses E ws st1)"

text \<open>The loop over the rounds on 64-bit words: \<open>None\<close> when it never ends.\<close>

partial_function (option) finality_rounds :: "'d exec_env \<Rightarrow> u64 \<Rightarrow> u64 \<Rightarrow> 'd exec_state \<Rightarrow>
    ('d exec_state \<times> unit outcome) option" where
  "finality_rounds E latestRound r st =
     (if r \<le> latestRound then
        (case finality_witnesses E (GetWitnesses (en_dag (xs_consensus st)) r) st of
           (st1, Panic m) \<Rightarrow> Some (st1, Panic m)
         | (st1, Ret _) \<Rightarrow> finality_rounds E latestRound (r + 1) st1)
      else Some (st, Ret ()))"

definition prod_checkFinality :: "'d exec_env \<Rightarrow> string list \<Rightarrow> 'd exec_state \<Rightarrow> ('d exec_state \<times> unit outcome) option" where
  "prod_checkFinality E ks st =
     (let (e1, latestRound) = CurrentRound ks (xs_consensus st) in
      finality_rounds E latestRound 0 (st\<lparr>xs_consensus := e1\<rparr>))"

section \<open>The event loop\<close>

definition prod_cleanup :: "('d, 'h) NodeProduction \<Rightarrow> ('d, 'h) NodeProduction" where
  "prod_cleanup n =
     (if Mempool_Size (np_mempool n) > 10000 then n\<lparr>np_mempool := Mempool_Clear (np_mempool n)\<rparr> else n)"

definition processTick :: "'d node_env \<Rightarrow> (('d, 'h) NodeProduction \<Rightarrow> ('d, 'h) NodeProduction) \<Rightarrow> tick_inputs \<Rightarrow>
    ('d, 'h) NodeProduction \<Rightarrow> (('d, 'h) NodeProduction \<times> unit outcome) option" where
  "processTick E processNetworkEvents inp n =
     (let n1 = fst (prod_processMempool E inp n) in
      case prod_checkFinality (ne_exec E) (ti_after inp) (np_exec n1) of
        None \<Rightarrow> None
      | Some (st, Panic m) \<Rightarrow> Some (n1\<lparr>np_exec := st\<rparr>, Panic m)
      | Some (st, Ret _) \<Rightarrow>
          let n2 = n1\<lparr>np_exec := st\<rparr>;
              n3 = (if np_network n2 \<noteq> None then processNetworkEvents n2 else n2)
          in Some (prod_cleanup n3, Ret ()))"

definition shouldEmergencyShutdown :: "u64 \<Rightarrow> nat \<Rightarrow> bool" where
  "shouldEmergencyShutdown alloc numGoroutine \<longleftrightarrow> alloc > 2 * 1024 * 1024 * 1024 \<or> numGoroutine > 10000"

section \<open>Start and stop\<close>

text \<open>A failed start of the network leaves the node running.\<close>

definition prod_Start :: "'h start_answers \<Rightarrow> ('d, 'h) NodeProduction \<Rightarrow> ('d, 'h) NodeProduction \<times> string option" where
  "prod_Start A n =
     (if np_running n then (n, Some ''node is already running'')
      else
        let n1 = n\<lparr>np_running := True\<rparr> in
        case np_network n1 of
          None \<Rightarrow> (n1, None)
        | Some net \<Rightarrow>
            (case net_Start A net of
               (net1, Some e) \<Rightarrow> (n1\<lparr>np_network := Some net1\<rparr>, Some (wrap ''failed to start network'' e))
             | (net1, None) \<Rightarrow> (n1\<lparr>np_network := Some net1\<rparr>, None)))"

text \<open>
  The errors of the parts are logged, their panics go on to the caller after the deferred reset
  of \<open>running\<close>. \<open>close_host\<close> is what closing the host answers.
\<close>

definition stop_network :: "string option \<Rightarrow> ('d, 'h) NodeProduction \<Rightarrow> ('d, 'h) NodeProduction outcome" where
  "stop_network close_host n =
     (case np_network n of
        None \<Rightarrow> Ret n
      | Some net \<Rightarrow> bind_outcome (net_Stop close_host net) (\<lambda>(net1, err). Ret (n\<lparr>np_network := Some net1\<rparr>)))"

definition stop_mempool :: "('d, 'h) NodeProduction \<Rightarrow> ('d, 'h) NodeProduction outcome" where
  "stop_mempool n = bind_outcome (Mempool_Stop (np_mempool n)) (\<lambda>m. Ret (n\<lparr>np_mempool := m\<rparr>))"

definition stop_consensus :: "('d, 'h) NodeProduction \<Rightarrow> ('d, 'h) NodeProduction outcome" where
  "stop_consensus n = bind_outcome (StopEngine (np_engine n)) (\<lambda>e. Ret (set_engine e n))"

definition prod_Stop :: "string option \<Rightarrow> ('d, 'h) NodeProduction \<Rightarrow> ('d, 'h) NodeProduction outcome" where
  "prod_Stop close_host n =
     (if \<not> np_running n then Ret n
      else bind_outcome (stop_network close_host n) (\<lambda>n1.
        bind_outcome (stop_mempool n1) (\<lambda>n2.
          bind_outcome (stop_consensus n2) (\<lambda>n3. Ret (n3\<lparr>np_running := False\<rparr>)))))"

section \<open>Genesis\<close>

definition prod_createGenesisEvent :: "Config \<Rightarrow> u64 \<Rightarrow> i64 \<Rightarrow> Event" where
  "prod_createGenesisEvent cfg initialSupply now =
     zero_event\<lparr>ev_Id := ''genesis-event-1'', ev_Creator := ''genesis'', ev_Parents := [], ev_Timestamp := now,
       ev_Round := 0,
       ev_Transactions := [zero_transaction\<lparr>tx_Id := ''genesis-tx-1'', tx_ChainId := nc_ChainID (cf_Network cfg),
         tx_NetworkId := nc_NetworkID (cf_Network cfg), tx_Nonce := 0, tx_Fee := 0, tx_GasLimit := 1000000,
         tx_Timestamp := now,
         tx_Payload := Genesis_Payload \<lparr>gp_Treasury = ''genesis-treasury'', gp_InitialSupply = initialSupply,
           gp_ValidatorSet = None, gp_AccountStates = None, gp_TokenRegistry = None, gp_StateHash = []\<rparr>,
         tx_PublicKey := bytes_of_string ''genesis-key'', tx_Signature := bytes_of_string ''genesis-sig''\<rparr>],
       ev_Metadata := Some (zero_metadata\<lparr>md_IsWitness := True, md_IsFamous := True, md_IsFinalized := True\<rparr>)\<rparr>"

definition mustMarshal :: "(Event \<Rightarrow> string + bytes) \<Rightarrow> Event \<Rightarrow> bytes outcome" where
  "mustMarshal marshal msg =
     (case marshal msg of Inl err \<Rightarrow> Panic (''marshal error: '' @ err) | Inr data \<Rightarrow> Ret data)"

text \<open>
  The file system answers whether the genesis file exists, whether it can be written, and what
  it reads given what was written last. \<open>AddEvent\<close>'s error is logged; what \<open>CheckFinality\<close>
  returns is dropped.
\<close>

record genesis_files =
  gf_missing :: bool
  gf_write :: "string option"
  gf_read :: "bytes option \<Rightarrow> string + bytes"
  gf_now :: i64

definition prod_genesis_file :: "'d node_env \<Rightarrow> genesis_files \<Rightarrow> Config \<Rightarrow> (string + bytes option) outcome" where
  "prod_genesis_file E F cfg =
     (if gf_missing F then
        bind_outcome (mustMarshal (ne_marshalEvent E) (prod_createGenesisEvent cfg 100000000000000 (gf_now F)))
          (\<lambda>data. Ret (case gf_write F of Some e \<Rightarrow> Inl (wrap ''failed to write genesis'' e) | None \<Rightarrow> Inr (Some data)))
      else Ret (Inr None))"

definition loadGenesis :: "'d node_env \<Rightarrow> genesis_files \<Rightarrow> ('d, 'h) NodeProduction \<Rightarrow>
    (('d, 'h) NodeProduction \<times> string option) outcome" where
  "loadGenesis E F n =
     bind_outcome (prod_genesis_file E F (np_config n)) (\<lambda>written.
       case written of
         Inl e \<Rightarrow> Ret (n, Some e)
       | Inr w \<Rightarrow>
           (case gf_read F w of
              Inl e \<Rightarrow> Ret (n, Some (wrap ''failed to read genesis'' e))
            | Inr data \<Rightarrow>
                (case ne_unmarshalEvent E data of
                   Inl e \<Rightarrow> Ret (n, Some (wrap ''failed to unmarshal genesis'' e))
                 | Inr genesis \<Rightarrow>
                     let e1 = (np_engine n)\<lparr>en_dag := fst (AddEvent (np_dag n) (Some genesis))\<rparr> in
                     Ret (set_engine (fst (CheckFinality e1 (ev_Id genesis))) n, None))))"

definition new_network :: "Config \<Rightarrow> string + 'h P2PNetwork option" where
  "new_network cfg = (if pc_Enabled (cf_P2P cfg) then map_sum id Some (NewP2PNetwork cfg) else Inr None)"

text \<open>\<open>mkdir\<close> and \<open>opened\<close> are the answers of the system and of LevelDB, \<open>home\<close> the home directory.
  An error of \<open>loadGenesis\<close> is logged.\<close>

definition NewNodeProduction :: "'d node_env \<Rightarrow> string \<Rightarrow> string option \<Rightarrow> string + 'd \<Rightarrow> genesis_files \<Rightarrow> Config \<Rightarrow>
    (string + ('d, 'h) NodeProduction) outcome" where
  "NewNodeProduction E home mkdir opened F cfg =
     (let storagePath = GetFullDataDir home cfg in
      case mkdir of
        Some e \<Rightarrow> Ret (Inl (wrap ''failed to create storage directory'' e))
      | None \<Rightarrow>
          (case NewStore opened storagePath of
             Inl e \<Rightarrow> Ret (Inl (wrap ''failed to initialize storage'' e))
           | Inr store \<Rightarrow>
               (case new_network cfg of
                  Inl e \<Rightarrow> Ret (Inl (wrap ''failed to initialize P2P network'' e))
                | Inr net \<Rightarrow>
                    bind_outcome (loadGenesis E F
                        \<lparr>np_config = cfg, np_exec = \<lparr>xs_db = store, xs_consensus = NewConsensusEngine NewDAG\<rparr>,
                         np_mempool = NewMempool (cs_MaxGasPerRound (cf_Consensus cfg)), np_network = net,
                         np_apiServer = ap_Enabled (cf_API cfg), np_running = False\<rparr>)
                      (\<lambda>(n, err). Ret (Inr n)))))"

section \<open>The older node\<close>

text \<open>\<open>node.go\<close>: the same parts without an API server. Its events have no parents and no signature,
  and its check of finality executes nothing.\<close>

definition NewNode :: "string \<Rightarrow> string + 'd \<Rightarrow> Config \<Rightarrow> string + ('d, 'h) NodeProduction" where
  "NewNode home opened cfg =
     (case NewStore opened (filepath_join (GetFullDataDir home cfg) (sc_Path (cf_Storage cfg))) of
        Inl e \<Rightarrow> Inl (wrap ''failed to initialize storage'' e)
      | Inr store \<Rightarrow>
          (case new_network cfg of
             Inl e \<Rightarrow> Inl (wrap ''failed to initialize P2P network'' e)
           | Inr net \<Rightarrow> Inr \<lparr>np_config = cfg, np_exec = \<lparr>xs_db = store, xs_consensus = NewConsensusEngine NewDAG\<rparr>,
               np_mempool = NewMempool (cs_MaxGasPerRound (cf_Consensus cfg)), np_network = net,
               np_apiServer = False, np_running = False\<rparr>))"

definition node_generateEventID :: "i64 \<Rightarrow> string" where
  "node_generateEventID nano = ''event-'' @ fmt_i64 nano"

definition getNodeCreator :: "Config \<Rightarrow> string" where
  "getNodeCreator cfg =
     (if vc_Enabled (cf_Validator cfg) \<and> vc_Address (cf_Validator cfg) \<noteq> [] then vc_Address (cf_Validator cfg)
      else ''anonymous-node'')"

definition node_processMempool :: "tick_inputs \<Rightarrow> ('d, 'h) NodeProduction \<Rightarrow> ('d, 'h) NodeProduction" where
  "node_processMempool inp n =
     (let (m1, pending) = GetPending (np_mempool n) 100; n1 = n\<lparr>np_mempool := m1\<rparr> in
      if length pending = 0 then n1
      else
        let (e1, r) = CurrentRound (ti_before inp) (np_engine n1);
            event = zero_event\<lparr>ev_Id := node_generateEventID (ti_nano inp), ev_Creator := getNodeCreator (np_config n),
              ev_Timestamp := ti_nano inp, ev_Round := r, ev_Transactions := pending\<rparr>
        in case AddEvent (en_dag e1) (Some event) of
             (d, Some err) \<Rightarrow> set_engine (e1\<lparr>en_dag := d\<rparr>) n1
           | (d, None) \<Rightarrow>
               (set_engine (fst (CheckFinality (e1\<lparr>en_dag := d\<rparr>) (ev_Id event))) n1)
                 \<lparr>np_mempool := fold (\<lambda>tx m. Mempool_Remove m (tx_Id tx)) pending m1\<rparr>)"

definition check_witnesses :: "Event list \<Rightarrow> Engine \<Rightarrow> Engine" where
  "check_witnesses ws e = fold (\<lambda>w e. fst (CheckFinality e (ev_Id w))) ws e"

partial_function (option) node_finality_rounds :: "u64 \<Rightarrow> u64 \<Rightarrow> Engine \<Rightarrow> Engine option" where
  "node_finality_rounds latestRound r e =
     (if r \<le> latestRound
      then node_finality_rounds latestRound (r + 1) (check_witnesses (GetWitnesses (en_dag e) r) e)
      else Some e)"

definition node_checkFinality :: "string list \<Rightarrow> Engine \<Rightarrow> Engine option" where
  "node_checkFinality ks e = (let (e1, latestRound) = CurrentRound ks e in node_finality_rounds latestRound 0 e1)"

definition node_tick :: "tick_inputs \<Rightarrow> ('d, 'h) NodeProduction \<Rightarrow> ('d, 'h) NodeProduction option" where
  "node_tick inp n =
     (let n1 = node_processMempool inp n in
      map_option (\<lambda>e. set_engine e n1) (node_checkFinality (ti_after inp) (np_engine n1)))"

definition node_Start :: "'h start_answers \<Rightarrow> ('d, 'h) NodeProduction \<Rightarrow> ('d, 'h) NodeProduction \<times> string option" where
  "node_Start A n =
     (case np_network n of
        None \<Rightarrow> (n, None)
      | Some net \<Rightarrow>
          (case net_Start A net of
             (net1, Some e) \<Rightarrow> (n\<lparr>np_network := Some net1\<rparr>, Some (wrap ''failed to start P2P network'' e))
           | (net1, None) \<Rightarrow> (n\<lparr>np_network := Some net1\<rparr>, None)))"

definition node_Stop :: "string option \<Rightarrow> ('d, 'h) NodeProduction \<Rightarrow> ('d, 'h) NodeProduction outcome" where
  "node_Stop close_host n =
     bind_outcome (stop_network close_host n) (\<lambda>n1. bind_outcome (stop_mempool n1) stop_consensus)"

end
