(* ===== verification/ExecutorLedger.thy ===== *)
theory ExecutorLedger
  imports Executor
begin

text \<open>
  What the executor does to the accounts. The documented behaviour of protobuf and of the
  database are named hypotheses; \<open>ledger\<close> abstracts a store to the map of its accounts,
  every read and write of the code becomes a lookup and an update of it. The lemmas here say
  what each handler keeps of that map and what one execution and a sequence of executions do
  to the nonces; the properties are in \<open>ExecutorProps\<close>.
\<close>

section \<open>Hypotheses on the libraries\<close>

text \<open>
  A message decodes to what was encoded, but for two points: the order of a map is not kept,
  and an empty map decodes to nil. Encoding refuses only strings that are not UTF-8.
\<close>

definition same_account :: "Account \<Rightarrow> Account \<Rightarrow> bool" where
  "same_account a b \<longleftrightarrow>
     ac_Address b = ac_Address a \<and> ac_Balance b = ac_Balance a \<and> ac_Nonce b = ac_Nonce a \<and>
     ac_PublicKey b = ac_PublicKey a \<and> ac_DelegatedStake b = ac_DelegatedStake a \<and>
     ac_Validator b = ac_Validator a \<and> tokens_get (ac_Tokens b) = tokens_get (ac_Tokens a) \<and>
     (ac_Tokens b = None \<longleftrightarrow> ac_Tokens a = None \<or> ac_Tokens a = Some [])"

definition ascii :: "string \<Rightarrow> bool" where
  "ascii s \<longleftrightarrow> (\<forall>c \<in> set s. of_char c < (128 :: nat))"

definition ascii_account :: "AccountState \<Rightarrow> bool" where
  "ascii_account a \<longleftrightarrow> ascii (ast_Address a) \<and> ascii (ast_Validator a) \<and>
     (case ast_Tokens a of None \<Rightarrow> True | Some m \<Rightarrow> (\<forall>t \<in> fst ` set m. ascii t))"

definition codec_ok :: "'d exec_env \<Rightarrow> bool" where
  "codec_ok E \<longleftrightarrow>
     (\<forall>a data. xe_marshalAccount E a = Inr data \<longrightarrow>
        (\<exists>b. xe_unmarshalAccount E data = Inr b \<and> same_account a b)) \<and>
     (\<forall>a. ascii_account (account_of_pb a) \<longrightarrow> (\<exists>data. xe_marshalAccount E a = Inr data))"

text \<open>The collections, whose store operations the repository lacks, leave the accounts alone.\<close>

definition collections_ok :: "'d exec_env \<Rightarrow> ('d \<Rightarrow> bytes \<rightharpoonup> bytes) \<Rightarrow> bool" where
  "collections_ok E view \<longleftrightarrow>
     (\<forall>d i x a. view (fst (xe_PutCollection E d i x)) (account_key a) = view d (account_key a))"

definition env_ok :: "'d exec_env \<Rightarrow> ('d \<Rightarrow> bytes \<rightharpoonup> bytes) \<Rightarrow> bool" where
  "env_ok E view \<longleftrightarrow> ldb_ok (xe_ldb E) view \<and> codec_ok E \<and> collections_ok E view"

lemma env_okD:
  "env_ok E view \<Longrightarrow> ldb_ok (xe_ldb E) view" "env_ok E view \<Longrightarrow> codec_ok E"
  "env_ok E view \<Longrightarrow> collections_ok E view"
  by (simp_all add: env_ok_def)

section \<open>The ledger\<close>

record holding =
  ho_balance :: u64
  ho_nonce :: u64
  ho_key :: bytes
  ho_tokens :: "string \<Rightarrow> u64"
  ho_delegated :: u64
  ho_validator :: string

definition holding_of :: "AccountState \<Rightarrow> holding" where
  "holding_of a = \<lparr>ho_balance = ast_Balance a, ho_nonce = ast_Nonce a, ho_key = ast_PublicKey a,
     ho_tokens = tokens_get (ast_Tokens a), ho_delegated = ast_Delegated a,
     ho_validator = ast_Validator a\<rparr>"

definition ledger :: "'d exec_env \<Rightarrow> 'd exec_state \<Rightarrow> string \<Rightarrow> holding option" where
  "ledger E st a = (case getAccount E st a of Inl _ \<Rightarrow> None | Inr acc \<Rightarrow> Some (holding_of acc))"

text \<open>Every account is stored under its own address.\<close>

definition keyed :: "'d exec_env \<Rightarrow> 'd exec_state \<Rightarrow> bool" where
  "keyed E st \<longleftrightarrow> (\<forall>a acc. getAccount E st a = Inr acc \<longrightarrow> ast_Address acc = a)"

lemma keyedD: "keyed E st \<Longrightarrow> getAccount E st a = Inr acc \<Longrightarrow> ast_Address acc = a"
  by (simp add: keyed_def)

lemma ledger_Some: "getAccount E st a = Inr acc \<Longrightarrow> ledger E st a = Some (holding_of acc)"
  by (simp add: ledger_def)

lemma ledger_SomeE:
  assumes "ledger E st a = Some h"
  obtains acc where "getAccount E st a = Inr acc" "holding_of acc = h"
  using assms by (auto simp: ledger_def split: sum.splits)

lemma account_pb_roundtrip [simp]:
  "ast_Address (account_of_pb (pb_of_account a)) = ast_Address a"
  "ast_Balance (account_of_pb (pb_of_account a)) = ast_Balance a"
  "ast_Nonce (account_of_pb (pb_of_account a)) = ast_Nonce a"
  "ast_Tokens (account_of_pb (pb_of_account a)) = ast_Tokens a"
  "ast_Validator (account_of_pb (pb_of_account a)) = ast_Validator a"
  "ascii_account (account_of_pb (pb_of_account a)) = ascii_account a"
  by (simp_all add: account_of_pb_def pb_of_account_def ascii_account_def)

text \<open>Reads depend on the accounts' entries of the database only.\<close>

lemma getAccount_cong:
  assumes "env_ok E view" and "view (xs_db st') (account_key a) = view (xs_db st) (account_key a)"
  shows "getAccount E st' a = getAccount E st a"
  using assms
  by (simp add: getAccount_def StateStore_GetAccount_def Engine_Get_ok [OF env_okD(1)])

lemma getAccount_consensus [simp]: "getAccount E (st\<lparr>xs_consensus := c\<rparr>) a = getAccount E st a"
  by (simp add: getAccount_def)

lemma getAccount_put:
  assumes "env_ok E view" and "xe_marshalAccount E (pb_of_account acc) = Inr data"
    and "view (xs_db st') = (view (xs_db st))(account_key (ast_Address acc) \<mapsto> data)"
  shows "\<exists>acc'. getAccount E st' (ast_Address acc) = Inr acc' \<and> holding_of acc' = holding_of acc \<and>
      ast_Address acc' = ast_Address acc \<and>
      (ast_Tokens acc' = None \<longleftrightarrow> ast_Tokens acc = None \<or> ast_Tokens acc = Some [])"
    and "a \<noteq> ast_Address acc \<Longrightarrow> getAccount E st' a = getAccount E st a"
proof -
  obtain b where b: "xe_unmarshalAccount E data = Inr b" "same_account (pb_of_account acc) b"
    using env_okD(2) [OF assms(1)] assms(2) unfolding codec_ok_def by blast
  have "StateStore_GetAccount (xe_ldb E) (xs_db st') (ast_Address acc) = Inr data"
    by (simp add: StateStore_GetAccount_def Engine_Get_ok [OF env_okD(1) [OF assms(1)]] assms(3))
  then have "getAccount E st' (ast_Address acc) = Inr (account_of_pb b)"
    by (simp add: getAccount_def b(1))
  with b(2) have "getAccount E st' (ast_Address acc) = Inr (account_of_pb b) \<and>
      holding_of (account_of_pb b) = holding_of acc \<and>
      ast_Address (account_of_pb b) = ast_Address acc \<and>
      (ast_Tokens (account_of_pb b) = None \<longleftrightarrow> ast_Tokens acc = None \<or> ast_Tokens acc = Some [])"
    by (simp add: same_account_def pb_of_account_def account_of_pb_def holding_of_def)
  then show "\<exists>acc'. getAccount E st' (ast_Address acc) = Inr acc' \<and>
      holding_of acc' = holding_of acc \<and> ast_Address acc' = ast_Address acc \<and>
      (ast_Tokens acc' = None \<longleftrightarrow> ast_Tokens acc = None \<or> ast_Tokens acc = Some [])"
    by (rule exI)
  show "getAccount E st' a = getAccount E st a" if "a \<noteq> ast_Address acc"
  proof (rule getAccount_cong [OF assms(1)])
    have "account_key a \<noteq> account_key (ast_Address acc)" using that account_table.inj by blast
    then show "view (xs_db st') (account_key a) = view (xs_db st) (account_key a)"
      by (simp add: assms(3))
  qed
qed

text \<open>A save is an update of the ledger; it fails only where the encoding does.\<close>

lemma saveAccount_cases:
  assumes "env_ok E view"
  obtains (saved) data st' where "xe_marshalAccount E (pb_of_account acc) = Inr data"
      "saveAccount E st acc = (st', None)" "xs_consensus st' = xs_consensus st"
      "view (xs_db st') = (view (xs_db st))(account_key (ast_Address acc) \<mapsto> data)"
  | (refused) err where "saveAccount E st acc = (st, Some err)" "\<not> ascii_account acc"
proof (cases "xe_marshalAccount E (pb_of_account acc)")
  case (Inl m)
  moreover from this have "\<not> ascii_account acc"
    using env_okD(2) [OF assms] by (metis codec_ok_def account_pb_roundtrip(6) sum.distinct(1))
  ultimately show thesis using refused by (simp add: saveAccount_def)
next
  case (Inr data)
  obtain d' where d': "Engine_Put (xe_ldb E) (xs_db st) (account_key (ast_Address acc)) data = (d', None)"
    "view d' = (view (xs_db st))(account_key (ast_Address acc) \<mapsto> data)"
    using Engine_Put_ok [OF env_okD(1) [OF assms]] by blast
  show thesis
    using d' by (intro saved [OF Inr, of "st\<lparr>xs_db := d'\<rparr>"])
      (simp_all add: saveAccount_def Inr StateStore_PutAccount_def)
qed

lemma saveAccount_ledger:
  assumes "env_ok E view" and "saveAccount E st acc = (st', None)"
  shows "ledger E st' = (ledger E st)(ast_Address acc \<mapsto> holding_of acc)"
    and "keyed E st \<Longrightarrow> keyed E st'"
    and "\<exists>acc'. getAccount E st' (ast_Address acc) = Inr acc' \<and> holding_of acc' = holding_of acc \<and>
      ast_Address acc' = ast_Address acc \<and>
      (ast_Tokens acc' = None \<longleftrightarrow> ast_Tokens acc = None \<or> ast_Tokens acc = Some [])"
    and "a \<noteq> ast_Address acc \<Longrightarrow> getAccount E st' a = getAccount E st a"
proof -
  obtain data where m: "xe_marshalAccount E (pb_of_account acc) = Inr data"
    and v: "view (xs_db st') = (view (xs_db st))(account_key (ast_Address acc) \<mapsto> data)"
    using assms(2) by (cases rule: saveAccount_cases [OF assms(1), of acc st]) auto
  show *: "\<exists>acc'. getAccount E st' (ast_Address acc) = Inr acc' \<and> holding_of acc' = holding_of acc \<and>
      ast_Address acc' = ast_Address acc \<and>
      (ast_Tokens acc' = None \<longleftrightarrow> ast_Tokens acc = None \<or> ast_Tokens acc = Some [])"
    by (rule getAccount_put(1) [OF assms(1) m v])
  have other: "b \<noteq> ast_Address acc \<Longrightarrow> getAccount E st' b = getAccount E st b" for b
    by (rule getAccount_put(2) [OF assms(1) m v])
  show "a \<noteq> ast_Address acc \<Longrightarrow> getAccount E st' a = getAccount E st a" by (rule other)
  show "ledger E st' = (ledger E st)(ast_Address acc \<mapsto> holding_of acc)"
    using * other by (auto simp: fun_eq_iff ledger_def)
  show "keyed E st'" if "keyed E st"
    unfolding keyed_def
  proof (intro allI impI)
    fix b acc' assume "getAccount E st' b = Inr acc'"
    then show "ast_Address acc' = b"
      using * other [of b] that by (cases "b = ast_Address acc") (auto simp: keyed_def)
  qed
qed

lemma getOrCreateAccount_holding:
  "holding_of (getOrCreateAccount E st a) =
     (case ledger E st a of None \<Rightarrow> holding_of (fresh_account a) | Some h \<Rightarrow> h)"
  by (simp add: getOrCreateAccount_def ledger_def split: sum.splits)

lemma getOrCreateAccount_address: "keyed E st \<Longrightarrow> ast_Address (getOrCreateAccount E st a) = a"
  by (simp add: getOrCreateAccount_def keyed_def split: sum.splits)

section \<open>What every handler keeps\<close>

text \<open>
  Accounts stay under their addresses, none disappears, and no handler touches a stored nonce.
\<close>

definition keeps :: "'d exec_env \<Rightarrow> 'd exec_state \<Rightarrow> 'd exec_state \<Rightarrow> bool" where
  "keeps E st st' \<longleftrightarrow> (keyed E st \<longrightarrow> keyed E st') \<and>
     (\<forall>a h. ledger E st a = Some h \<longrightarrow>
        (\<exists>h'. ledger E st' a = Some h' \<and> ho_nonce h' = ho_nonce h))"

lemma keeps_refl [simp]: "keeps E st st"
  by (simp add: keeps_def)

lemma keeps_trans: "keeps E st st1 \<Longrightarrow> keeps E st1 st2 \<Longrightarrow> keeps E st st2"
  unfolding keeps_def by metis

lemma keeps_same: "(\<And>a. getAccount E st' a = getAccount E st a) \<Longrightarrow> keeps E st st'"
  by (simp add: keeps_def keyed_def ledger_def)

lemma keeps_consensus [simp]: "keeps E st (st\<lparr>xs_consensus := c\<rparr>)"
  by (rule keeps_same) simp

lemma keeps_saveAccount:
  assumes "env_ok E view" and "saveAccount E st acc = (st', r)"
    and "\<And>h. ledger E st (ast_Address acc) = Some h \<Longrightarrow> ast_Nonce acc = ho_nonce h"
  shows "keeps E st st'"
proof (cases r)
  case None
  with assms(2) have s: "saveAccount E st acc = (st', None)" by simp
  then show ?thesis
    using saveAccount_ledger(1,2) [OF assms(1) s] assms(3) by (auto simp: keeps_def holding_of_def)
next
  case (Some e)
  with assms(2) have "st' = st"
    by (cases rule: saveAccount_cases [OF assms(1), of acc st]) auto
  then show ?thesis by simp
qed

text \<open>Writes of the other tables leave every account alone.\<close>

lemma getAccount_other:
  assumes "env_ok E view" and "Engine_Put (xe_ldb E) d k v = (d', r)" and "\<And>a. account_key a \<noteq> k"
  shows "getAccount E \<lparr>xs_db = d', xs_consensus = c\<rparr> a = getAccount E \<lparr>xs_db = d, xs_consensus = c'\<rparr> a"
proof -
  obtain d'' where "Engine_Put (xe_ldb E) d k v = (d'', None)" "view d'' = (view d)(k \<mapsto> v)"
    using Engine_Put_ok [OF env_okD(1) [OF assms(1)]] by blast
  with assms(2,3) show ?thesis by (intro getAccount_cong [OF assms(1)]) auto
qed

lemma account_keys_apart [simp]:
  "account_key a \<noteq> token_key t" "account_key a \<noteq> validator_key v" "account_key a \<noteq> nft_key c n"
  by (simp_all add: keys_apart)

lemma keeps_put:
  assumes "env_ok E view" and "Engine_Put (xe_ldb E) (xs_db st) k v = (d', r)" and "\<And>a. account_key a \<noteq> k"
  shows "keeps E st \<lparr>xs_db = d', xs_consensus = c\<rparr>" "keeps E st (st\<lparr>xs_db := d'\<rparr>)"
    "ledger E \<lparr>xs_db = d', xs_consensus = c\<rparr> = ledger E st"
    "ledger E (st\<lparr>xs_db := d'\<rparr>) = ledger E st"
    "getOrCreateAccount E (st\<lparr>xs_db := d'\<rparr>) = getOrCreateAccount E st"
    "getAccount E (st\<lparr>xs_db := d'\<rparr>) = getAccount E st"
proof -
  have *: "getAccount E \<lparr>xs_db = d', xs_consensus = e\<rparr> a = getAccount E st a" for a e
    using getAccount_other [OF assms, of e a "xs_consensus st"] by (cases st) simp
  have **: "getAccount E (st\<lparr>xs_db := d'\<rparr>) a = getAccount E st a" for a
    using * [of "xs_consensus st" a] by (cases st) simp
  show "keeps E st \<lparr>xs_db = d', xs_consensus = c\<rparr>" by (rule keeps_same) (rule *)
  show "keeps E st (st\<lparr>xs_db := d'\<rparr>)" by (rule keeps_same) (rule **)
  show "ledger E \<lparr>xs_db = d', xs_consensus = c\<rparr> = ledger E st"
    "ledger E (st\<lparr>xs_db := d'\<rparr>) = ledger E st"
    "getOrCreateAccount E (st\<lparr>xs_db := d'\<rparr>) = getOrCreateAccount E st"
    "getAccount E (st\<lparr>xs_db := d'\<rparr>) = getAccount E st"
    by (simp_all add: fun_eq_iff ledger_def getOrCreateAccount_def * **)
qed

lemma keeps_collection:
  assumes "env_ok E view" and "xe_PutCollection E (xs_db st) i x = (d', r)"
  shows "keeps E st (st\<lparr>xs_db := d'\<rparr>)"
proof (rule keeps_same)
  fix a
  have "view d' (account_key a) = view (xs_db st) (account_key a)"
    using env_okD(3) [OF assms(1)] assms(2) unfolding collections_ok_def by (metis fst_conv)
  then show "getAccount E (st\<lparr>xs_db := d'\<rparr>) a = getAccount E st a"
    by (intro getAccount_cong [OF assms(1)]) simp
qed

text \<open>A handler may change the sender's holdings in the context, not who it is.\<close>

definition same_sender :: "ExecutionContext \<Rightarrow> ExecutionContext \<Rightarrow> bool" where
  "same_sender ctx ctx' \<longleftrightarrow> ec_Tx ctx' = ec_Tx ctx \<and> ec_Refund ctx' = ec_Refund ctx \<and>
     ast_Address (ec_Sender ctx') = ast_Address (ec_Sender ctx) \<and>
     ast_Nonce (ec_Sender ctx') = ast_Nonce (ec_Sender ctx)"

lemma same_sender_refl [simp]: "same_sender ctx ctx"
  by (simp add: same_sender_def)

lemma same_sender_update [simp]:
  "same_sender ctx (ctx\<lparr>ec_Sender := s\<rparr>) \<longleftrightarrow>
     ast_Address s = ast_Address (ec_Sender ctx) \<and> ast_Nonce s = ast_Nonce (ec_Sender ctx)"
  by (simp add: same_sender_def)

definition handled_ok :: "'d exec_env \<Rightarrow> 'd exec_state \<Rightarrow> ExecutionContext \<Rightarrow> 'd handled \<Rightarrow> bool" where
  "handled_ok E st ctx h \<longleftrightarrow> (case h of (st', ctx', r) \<Rightarrow> keeps E st st' \<and> same_sender ctx ctx')"

lemma handled_ok_ret [simp]:
  "handled_ok E st ctx (st', ctx', r) \<longleftrightarrow> keeps E st st' \<and> same_sender ctx ctx'"
  by (simp add: handled_ok_def)

lemma succeed_eq:
  "\<exists>ev c. succeed E st ctx m g cr = (st\<lparr>xs_consensus := c\<rparr>, ctx,
      Ret (Inr (NewExecutionResult (tx_Id (ec_Tx ctx)) True m g [ev])))"
  by (simp add: succeed_def emit_event_def split: prod.splits) blast

lemma handled_ok_succeed [simp]:
  "handled_ok E st ctx (succeed E st' ctx' m g c) \<longleftrightarrow> keeps E st st' \<and> same_sender ctx ctx'"
proof -
  obtain ev e where "succeed E st' ctx' m g c = (st'\<lparr>xs_consensus := e\<rparr>, ctx',
      Ret (Inr (NewExecutionResult (tx_Id (ec_Tx ctx')) True m g [ev])))"
    using succeed_eq by blast
  moreover have "keeps E st (st'\<lparr>xs_consensus := e\<rparr>) = keeps E st st'"
    by (simp add: keeps_def keyed_def ledger_def)
  ultimately show ?thesis by simp
qed

text \<open>The context the code builds: the sender as it is stored.\<close>

definition ctx_ok :: "'d exec_env \<Rightarrow> 'd exec_state \<Rightarrow> ExecutionContext \<Rightarrow> bool" where
  "ctx_ok E st ctx \<longleftrightarrow> keyed E st \<and>
     ledger E st (ast_Address (ec_Sender ctx)) = Some (holding_of (ec_Sender ctx))"

text \<open>Saving an account as it was read, whatever happened to its holdings.\<close>

lemma keeps_save_read:
  assumes "env_ok E view" and "keyed E st" and "saveAccount E st1 acc = (st', r)" and "keeps E st st1"
    and "ledger E st1 = ledger E st"
    and "ast_Address acc = a" and "ast_Nonce acc = ast_Nonce (getOrCreateAccount E st a)"
  shows "keeps E st st'"
proof -
  have "keeps E st1 st'"
  proof (rule keeps_saveAccount [OF assms(1,3)])
    fix h assume "ledger E st1 (ast_Address acc) = Some h"
    then have "holding_of (getOrCreateAccount E st a) = h"
      using assms(5,6) by (simp add: getOrCreateAccount_holding)
    with assms(7) show "ast_Nonce acc = ho_nonce h" by (auto simp: holding_of_def)
  qed
  with assms(4) show ?thesis by (rule keeps_trans)
qed

subsection \<open>The handlers\<close>

lemma transfer_handled:
  assumes "env_ok E view" and "ctx_ok E st ctx"
  shows "handled_ok E st ctx (ex_executeTransfer E st ctx p)"
proof -
  have k: "keyed E st" using assms(2) by (simp add: ctx_ok_def)
  let ?r = "getOrCreateAccount E st (tp_To p)"
  obtain st1 e where s: "saveAccount E st (?r\<lparr>ast_Balance := ast_Balance ?r + tp_Amount p\<rparr>) = (st1, e)"
    by (cases "saveAccount E st (?r\<lparr>ast_Balance := ast_Balance ?r + tp_Amount p\<rparr>)")
  have "keeps E st st1"
    by (rule keeps_save_read [OF assms(1) k s, of "tp_To p"]) (simp_all add: getOrCreateAccount_address [OF k])
  then show ?thesis by (simp add: ex_executeTransfer_def Let_def s split: option.splits)
qed

lemma createValidator_handled:
  assumes "env_ok E view"
  shows "handled_ok E st ctx (ex_executeCreateValidator E st ctx p)"
  by (auto simp: ex_executeCreateValidator_def Let_def ValidatorStore_PutValidator_def
      split: sum.splits prod.splits option.splits
      intro: keeps_put [OF assms])

lemma delegateStake_handled:
  assumes "env_ok E view"
  shows "handled_ok E st ctx (ex_executeDelegateStake E st ctx p)"
  by (auto simp: ex_executeDelegateStake_def Let_def ValidatorStore_PutValidator_def
      split: sum.splits prod.splits option.splits
      intro: keeps_put [OF assms])

lemma account_add_tokens_same:
  "account_add_tokens acc t v = Some acc' \<Longrightarrow>
     ast_Address acc' = ast_Address acc \<and> ast_Nonce acc' = ast_Nonce acc \<and>
     ast_Balance acc' = ast_Balance acc"
  by (auto simp: account_add_tokens_def)

lemma createToken_handled:
  assumes "env_ok E view" and "ctx_ok E st ctx"
  shows "handled_ok E st ctx (ex_executeCreateToken E st ctx p)"
proof -
  have k: "keyed E st" using assms(2) by (simp add: ctx_ok_def)
  have put: "keeps E st (st\<lparr>xs_db := d\<rparr>)" "ledger E (st\<lparr>xs_db := d\<rparr>) = ledger E st"
    "getOrCreateAccount E (st\<lparr>xs_db := d\<rparr>) = getOrCreateAccount E st"
    if "TokenStore_PutToken (xe_ldb E) (xs_db st) t x = (d, e)" for t x d e
    using keeps_put(2,4,5) [OF assms(1)] that by (simp_all add: TokenStore_PutToken_def)
  have "keeps E st st2"
    if "TokenStore_PutToken (xe_ldb E) (xs_db st) t x = (d, e)"
      "saveAccount E (st\<lparr>xs_db := d\<rparr>) ((getOrCreateAccount E st a)\<lparr>ast_Tokens := b\<rparr>) = (st2, r)"
    for t x d e a b st2 r
    by (rule keeps_save_read [OF assms(1) k that(2) put(1,2) [OF that(1)], of a])
      (simp_all add: getOrCreateAccount_address [OF k])
  then show ?thesis
    by (auto simp: ex_executeCreateToken_def Let_def put split: sum.splits prod.splits option.splits)
qed

lemma mintToken_handled:
  assumes "env_ok E view" and "ctx_ok E st ctx"
  shows "handled_ok E st ctx (ex_executeMintToken E st ctx p)"
proof -
  have k: "keyed E st" using assms(2) by (simp add: ctx_ok_def)
  have put: "keeps E st (st\<lparr>xs_db := d\<rparr>)" "ledger E (st\<lparr>xs_db := d\<rparr>) = ledger E st"
    if "TokenStore_PutToken (xe_ldb E) (xs_db st) t x = (d, e)" for t x d e
    using keeps_put(2,4) [OF assms(1)] that by (simp_all add: TokenStore_PutToken_def)
  have "keeps E st st2"
    if "TokenStore_PutToken (xe_ldb E) (xs_db st) t x = (d, e)"
      "account_add_tokens (getOrCreateAccount E st a) t' v = Some acc"
      "saveAccount E (st\<lparr>xs_db := d\<rparr>) acc = (st2, r)"
    for t x d e a t' v acc st2 r
    using account_add_tokens_same [OF that(2)]
    by (intro keeps_save_read [OF assms(1) k that(3) put(1,2) [OF that(1)], of a])
      (simp_all add: getOrCreateAccount_address [OF k])
  then show ?thesis
    by (auto simp: ex_executeMintToken_def Let_def put split: sum.splits prod.splits option.splits)
qed

text \<open>An account is written, then another that was read before the first was written.\<close>

lemma keeps_two_saves:
  assumes "env_ok E view" and k: "keyed E st" and "saveAccount E st s1 = (st1, e)" and k1: "keeps E st st1"
    and ne: "ledger E st a = None \<Longrightarrow> a \<noteq> ast_Address s1"
    and r1: "ast_Address r1 = a" "ast_Nonce r1 = ast_Nonce (getOrCreateAccount E st a)"
    and "saveAccount E st1 r1 = (st2, e')"
  shows "keeps E st st2"
proof (rule keeps_trans [OF k1 keeps_saveAccount [OF assms(1,8)]])
  fix h assume h: "ledger E st1 (ast_Address r1) = Some h"
  have nonce: "ast_Nonce r1 = (case ledger E st a of None \<Rightarrow> 0 | Some h \<Rightarrow> ho_nonce h)"
    using arg_cong [where f = ho_nonce, OF getOrCreateAccount_holding [of E st a]]
    by (simp add: r1(2) holding_of_def split: option.splits)
  show "ast_Nonce r1 = ho_nonce h"
  proof (cases "ledger E st a")
    case (Some h0)
    with k1 have "ho_nonce h = ho_nonce h0" using h r1(1) unfolding keeps_def by force
    with Some show ?thesis by (simp add: nonce)
  next
    case None
    have "ledger E st1 a = None"
      using saveAccount_cases [OF assms(1), of s1 st] assms(3) None ne
        saveAccount_ledger(1) [OF assms(1), of st s1 st1] by (metis fun_upd_other prod.inject)
    with h r1(1) show ?thesis by simp
  qed
qed

lemma transferToken_handled:
  assumes "env_ok E view" and "ctx_ok E st ctx"
  shows "handled_ok E st ctx (ex_executeTransferToken E st ctx p)"
proof -
  have k: "keyed E st" and c: "ledger E st (ast_Address (ec_Sender ctx)) = Some (holding_of (ec_Sender ctx))"
    using assms(2) by (simp_all add: ctx_ok_def)
  have one: "keeps E st st1" "keyed E st1"
    if "account_add_tokens (ec_Sender ctx) t v = Some s1" "saveAccount E st s1 = (st1, r)" for t v s1 st1 r
  proof -
    show "keeps E st st1"
      using account_add_tokens_same [OF that(1)] c
      by (intro keeps_saveAccount [OF assms(1) that(2)]) (auto simp: holding_of_def)
    with k show "keyed E st1" by (simp add: keeps_def)
  qed
  have two: "keeps E st st2"
    if "account_add_tokens (ec_Sender ctx) t v = Some s1" "saveAccount E st s1 = (st1, r)"
      "account_add_tokens (getOrCreateAccount E st a) t' v' = Some r1" "saveAccount E st1 r1 = (st2, r')"
    for t v s1 st1 r a t' v' r1 st2 r'
    using c account_add_tokens_same [OF that(1)] account_add_tokens_same [OF that(3)] getOrCreateAccount_address [OF k]
    by (intro keeps_two_saves [OF assms(1) k that(2) one(1) [OF that(1,2)] _ _ _ that(4), of a]) auto
  from one two show ?thesis
    by (auto simp: ex_executeTransferToken_def Let_def account_add_tokens_same
        split: sum.splits prod.splits option.splits)
qed

lemma mintNFT_handled:
  assumes "env_ok E view"
  shows "handled_ok E st ctx (ex_executeMintNFT E st ctx p)"
proof -
  have "keeps E st (st\<lparr>xs_consensus := c, xs_db := d\<rparr>)"
    if "NFTStore_PutNFT (xe_ldb E) (xs_db st) i n x = (d, e)" for i n x d e c
    using keeps_put(1) [OF assms, of st "nft_key i n" x d e c] that
    by (cases st) (simp add: NFTStore_PutNFT_def)
  then show ?thesis
    by (auto simp: ex_executeMintNFT_def Let_def split: sum.splits prod.splits option.splits)
qed

lemma createCollection_handled:
  assumes "env_ok E view"
  shows "handled_ok E st ctx (ex_executeCreateCollection E st ctx p)"
  by (auto simp: ex_executeCreateCollection_def Let_def split: sum.splits prod.splits option.splits
      intro: keeps_collection [OF assms])

text \<open>The payloads whose handler the repository defines.\<close>

definition has_handler :: "Transaction \<Rightarrow> bool" where
  "has_handler tx \<longleftrightarrow>
     (case tx_Payload tx of BurnToken _ \<Rightarrow> False | TransferNft _ \<Rightarrow> False | _ \<Rightarrow> True)"

lemma executeTransaction_handled:
  assumes "env_ok E view" and "ctx_ok E st ctx" and "has_handler (ec_Tx ctx)"
  shows "handled_ok E st ctx (ex_executeTransaction E st ctx)"
  using assms(3)
  by (auto simp: ex_executeTransaction_def has_handler_def transfer_handled [OF assms(1,2)]
      createValidator_handled [OF assms(1)] delegateStake_handled [OF assms(1)]
      createToken_handled [OF assms(1,2)] mintToken_handled [OF assms(1,2)]
      transferToken_handled [OF assms(1,2)] mintNFT_handled [OF assms(1)]
      createCollection_handled [OF assms(1)] simp del: handled_ok_ret
      split: payload.splits) (simp_all only: handled_ok_ret keeps_refl same_sender_refl)

section \<open>Execute\<close>

text \<open>The checks before a handler runs, and the context it gets.\<close>

definition admits :: "'d exec_env \<Rightarrow> 'd exec_state \<Rightarrow> Transaction \<Rightarrow> AccountState \<Rightarrow> bool" where
  "admits E st tx s \<longleftrightarrow> VerifyTransactionSignature (xe_lib E) tx \<and>
     getAccount E st (GetAddressFromPublicKey (xe_lib E) (tx_PublicKey tx)) = Inr s \<and>
     tx_Nonce tx = ast_Nonce s + 1 \<and> tx_Fee tx \<le> ast_Balance s"

definition context_of :: "Transaction \<Rightarrow> AccountState \<Rightarrow> ExecutionContext" where
  "context_of tx s = \<lparr>ec_Sender = s, ec_Tx = tx, ec_GasUsed = 0, ec_Refund = 0, ec_Events = []\<rparr>"

lemma context_of_simps [simp]:
  "ec_Sender (context_of tx s) = s" "ec_Tx (context_of tx s) = tx" "ec_Refund (context_of tx s) = 0"
  by (simp_all add: context_of_def)

definition final_sender :: "Transaction \<Rightarrow> ExecutionContext \<Rightarrow> AccountState" where
  "final_sender tx ctx = (ec_Sender ctx)\<lparr>ast_Nonce := tx_Nonce tx,
     ast_Balance := ast_Balance (ec_Sender ctx) - tx_Fee tx + ec_Refund ctx\<rparr>"

lemma final_sender_simps [simp]:
  "ast_Address (final_sender tx ctx) = ast_Address (ec_Sender ctx)"
  "ast_Nonce (final_sender tx ctx) = tx_Nonce tx"
  by (simp_all add: final_sender_def)

lemma Execute_admitted:
  assumes "admits E st tx s"
  shows "Execute E st (Some tx) =
    (case ex_executeTransaction E st (context_of tx s) of
       (st1, ctx, Panic m) \<Rightarrow> (st1, Panic m)
     | (st1, ctx, Ret (Inl err)) \<Rightarrow>
         (st1, refuse tx (''execution failed: '' @ err) err (ec_GasUsed ctx))
     | (st1, ctx, Ret (Inr result)) \<Rightarrow>
         (case saveAccount E st1 (final_sender tx ctx) of
            (st2, Some err) \<Rightarrow>
              (st2, refuse tx (''failed to save sender account: '' @ err) err (ec_GasUsed ctx))
          | (st2, None) \<Rightarrow> (st2, Ret (Some result, None))))"
proof -
  have "VerifyTransactionSignature (xe_lib E) tx"
    "getAccount E st (GetAddressFromPublicKey (xe_lib E) (tx_PublicKey tx)) = Inr s"
    "(tx_Nonce tx \<noteq> ast_Nonce s + 1) = False" "hasSufficientBalance s (tx_Fee tx)"
    using assms by (simp_all add: admits_def hasSufficientBalance_def)
  then show ?thesis
    unfolding Execute_def context_of_def final_sender_def Let_def
    by (simp only: option.case sum.case if_False if_True not_True_eq_False)
qed

lemma Execute_refused:
  assumes "\<And>s. \<not> admits E st tx s"
  shows "\<exists>m e. Execute E st (Some tx) = (st, refuse tx m e 0)"
  using assms
  by (auto simp: Execute_def admits_def hasSufficientBalance_def split: sum.splits)

lemma admits_ctx_ok: "keyed E st \<Longrightarrow> admits E st tx s \<Longrightarrow> ctx_ok E st (context_of tx s)"
  using keyedD [of E st] by (auto simp: ctx_ok_def admits_def dest: ledger_Some)

lemma admits_address:
  "keyed E st \<Longrightarrow> admits E st tx s \<Longrightarrow>
     ast_Address s = GetAddressFromPublicKey (xe_lib E) (tx_PublicKey tx)"
  using keyedD [of E st] by (auto simp: admits_def)

text \<open>What an execution that is admitted leaves behind: what its handler did, or that and the sender.\<close>

lemma Execute_saves:
  assumes "env_ok E view" and "admits E st tx s" and "Execute E st (Some tx) = (st', r)"
    and h: "ex_executeTransaction E st (context_of tx s) = (st1, ctx, r1)"
  shows "st' = st1 \<or> saveAccount E st1 (final_sender tx ctx) = (st', None)"
proof (cases rule: saveAccount_cases [OF assms(1), of "final_sender tx ctx" st1])
  case (1 data st2)
  with assms(3) h show ?thesis
    by (auto simp: Execute_admitted [OF assms(2)] split: outcome.splits sum.splits)
next
  case (2 err)
  with assms(3) h show ?thesis
    by (auto simp: Execute_admitted [OF assms(2)] split: outcome.splits sum.splits)
qed

text \<open>One execution: accounts stay under their addresses and a nonce stays or goes up by one.\<close>

lemma Execute_nonces:
  assumes "env_ok E view" and "keyed E st" and "has_handler tx"
    and "Execute E st (Some tx) = (st', r)"
  shows "keyed E st' \<and> (\<forall>a h. ledger E st a = Some h \<longrightarrow> (\<exists>h'. ledger E st' a = Some h' \<and>
    (ho_nonce h' = ho_nonce h \<or> ho_nonce h' = ho_nonce h + 1)))"
proof (cases "\<exists>s. admits E st tx s")
  case False
  with Execute_refused [of E st tx] assms(4) have "st' = st" by auto
  with assms(2) show ?thesis by auto
next
  case True
  then obtain s where s: "admits E st tx s" by blast
  obtain st1 ctx r1 where h: "ex_executeTransaction E st (context_of tx s) = (st1, ctx, r1)"
    by (cases "ex_executeTransaction E st (context_of tx s)")
  have "handled_ok E st (context_of tx s) (st1, ctx, r1)"
    using executeTransaction_handled [OF assms(1) admits_ctx_ok [OF assms(2) s]] assms(3) h by simp
  then have k: "keeps E st st1" and a: "ast_Address (ec_Sender ctx) = ast_Address s"
    by (simp_all add: same_sender_def)
  have k1: "keyed E st1" using k assms(2) by (simp add: keeps_def)
  have n: "tx_Nonce tx = ast_Nonce s + 1" using s by (simp add: admits_def)
  have sl: "ledger E st (ast_Address s) = Some (holding_of s)"
    using admits_ctx_ok [OF assms(2) s] by (simp add: ctx_ok_def)
  from Execute_saves [OF assms(1) s assms(4) h] show ?thesis
  proof
    assume "st' = st1"
    with k k1 show ?thesis unfolding keeps_def by metis
  next
    assume saved: "saveAccount E st1 (final_sender tx ctx) = (st', None)"
    have l: "ledger E st' = (ledger E st1)(ast_Address s \<mapsto> holding_of (final_sender tx ctx))"
      using saveAccount_ledger(1) [OF assms(1) saved] by (simp add: a)
    have "\<exists>h'. ledger E st' b = Some h' \<and> (ho_nonce h' = ho_nonce h \<or> ho_nonce h' = ho_nonce h + 1)"
      if "ledger E st b = Some h" for b h
      using that sl n k by (cases "b = ast_Address s") (auto simp: l holding_of_def keeps_def)
    with saveAccount_ledger(2) [OF assms(1) saved k1] show ?thesis by blast
  qed
qed

text \<open>A sequence of transactions, and what it does to the nonces.\<close>

definition execute_sequence :: "'d exec_env \<Rightarrow> Transaction list \<Rightarrow> 'd exec_state \<Rightarrow> 'd exec_state" where
  "execute_sequence E txs st = fold (\<lambda>tx s. fst (Execute E s (Some tx))) txs st"

lemma sequence_nonces:
  assumes "env_ok E view" and "keyed E st" and "list_all has_handler txs"
    and "ledger E st a = Some h" and "unat (ho_nonce h) + length txs < 18446744073709551616"
  shows "\<exists>h'. ledger E (execute_sequence E txs st) a = Some h' \<and>
    unat (ho_nonce h) \<le> unat (ho_nonce h') \<and> unat (ho_nonce h') \<le> unat (ho_nonce h) + length txs"
  using assms(2-)
proof (induction txs arbitrary: st h)
  case Nil
  then show ?case by (simp add: execute_sequence_def)
next
  case (Cons tx txs)
  obtain st1 r where e: "Execute E st (Some tx) = (st1, r)" by (cases "Execute E st (Some tx)")
  obtain h1 where h1: "keyed E st1" "ledger E st1 a = Some h1"
    "ho_nonce h1 = ho_nonce h \<or> ho_nonce h1 = ho_nonce h + 1"
    using Execute_nonces [OF assms(1) Cons.prems(1) _ e] Cons.prems(2,3) by auto
  have "unat (ho_nonce h) + unat (1 :: u64) < 18446744073709551616"
    using Cons.prems(4) by simp
  then have up: "unat (ho_nonce h) \<le> unat (ho_nonce h1)" "unat (ho_nonce h1) \<le> unat (ho_nonce h) + 1"
    using h1(3) by (auto simp only: unat_add_no_overflow unsigned_1)
  have "execute_sequence E (tx # txs) st = execute_sequence E txs st1"
    by (simp add: execute_sequence_def e)
  with Cons.IH [OF h1(1) _ h1(2)] Cons.prems(2,4) up show ?case by fastforce
qed

lemma Execute_success:
  assumes "Execute E st (Some tx) = (st', Ret (r, None))"
  obtains s st1 ctx result where "admits E st tx s"
    "ex_executeTransaction E st (context_of tx s) = (st1, ctx, Ret (Inr result))"
    "saveAccount E st1 (final_sender tx ctx) = (st', None)" "r = Some result"
proof -
  have "\<exists>s. admits E st tx s"
    using Execute_refused [of E st tx] assms by (auto simp: refuse_def)
  then obtain s where s: "admits E st tx s" by blast
  with assms that show thesis
    by (auto simp: Execute_admitted [OF s] refuse_def
        split: prod.splits outcome.splits sum.splits option.splits)
qed

end
