(* ===== verification/ExecutorProps.thy ===== *)
theory ExecutorProps
  imports ExecutorLedger Codec
begin

text \<open>
  The properties of the executor, over the ledger of \<open>ExecutorLedger\<close>, and a small codec and
  environment in which their hypotheses hold, for the witnesses.
\<close>

section \<open>A codec for the witnesses\<close>

text \<open>Built from the strings and words of \<open>Codec\<close>.\<close>

fun put_tokens :: "(string \<times> u64) list \<Rightarrow> bytes" where
  "put_tokens [] = [0]"
| "put_tokens ((t, v) # m) = 1 # put_string (bytes_of_string t) @ put_u64 v @ put_tokens m"

function get_tokens :: "bytes \<Rightarrow> (string \<times> u64) list option" where
  "get_tokens [] = None"
| "get_tokens (x # r) =
     (if x = 0 then Some []
      else case get_string r of
        None \<Rightarrow> None
      | Some (t, r1) \<Rightarrow>
          (case get_u64 r1 of
             None \<Rightarrow> None
           | Some (v, r2) \<Rightarrow>
               if length r2 < length (x # r)
               then map_option (\<lambda>m. (string_of_bytes t, v) # m) (get_tokens r2) else None))"
  by pat_completeness auto
termination get_tokens by (relation "measure length") auto

lemma get_put_tokens [simp]: "get_tokens (put_tokens m) = Some m"
proof (induction m)
  case (Cons p m)
  have "length (put_tokens m) < length (put_string s @ put_u64 v @ put_tokens m)" for s v
    by (cases s) auto
  with Cons.IH show ?case by (cases p) (simp add: less_Suc_eq)
qed simp

definition put_account :: "Account \<Rightarrow> bytes" where
  "put_account a = put_string (bytes_of_string (ac_Address a)) @ put_u64 (ac_Balance a) @
     put_u64 (ac_Nonce a) @ put_string (ac_PublicKey a) @ put_u64 (ac_DelegatedStake a) @
     put_string (bytes_of_string (ac_Validator a)) @
     put_tokens (case ac_Tokens a of None \<Rightarrow> [] | Some m \<Rightarrow> m)"

definition get_account :: "bytes \<Rightarrow> string + Account" where
  "get_account d0 =
     (case Option.bind (get_string d0) (\<lambda>(a, d1). Option.bind (get_u64 d1) (\<lambda>(b, d2).
        Option.bind (get_u64 d2) (\<lambda>(n, d3). Option.bind (get_string d3) (\<lambda>(k, d4).
        Option.bind (get_u64 d4) (\<lambda>(g, d5). Option.bind (get_string d5) (\<lambda>(v, d6).
        map_option (\<lambda>m. \<lparr>ac_Address = string_of_bytes a, ac_Balance = b, ac_Nonce = n,
          ac_PublicKey = k, ac_DelegatedStake = g, ac_Validator = string_of_bytes v,
          ac_Tokens = (if m = [] then None else Some m)\<rparr>) (get_tokens d6))))))) of
        None \<Rightarrow> Inl ''cannot parse'' | Some a \<Rightarrow> Inr a)"

lemma get_put_account:
  "get_account (put_account a) = Inr (a\<lparr>ac_Tokens :=
     (if ac_Tokens a = Some [] then None else ac_Tokens a)\<rparr>)"
  by (cases a) (simp add: get_account_def put_account_def split: option.splits)

definition sample_env :: "(bytes \<rightharpoonup> bytes) exec_env" where
  "sample_env = \<lparr>xe_lib = sample_lib, xe_ldb = mem_ldb,
     xe_marshalAccount = (\<lambda>a. Inr (put_account a)), xe_unmarshalAccount = get_account,
     xe_marshalValidator = (\<lambda>v. Inr (put_u64 (va_Stake v))),
     xe_unmarshalValidator = (\<lambda>d. case get_u64 d of None \<Rightarrow> Inl ''cannot parse''
       | Some (s, r) \<Rightarrow> Inr \<lparr>va_Address = [], va_PublicKey = [], va_Stake = s, va_CommissionRate = 0,
           va_MaxCommissionRate = 0, va_CommissionChangeRate = 0, va_Moniker = [], va_Identity = [],
           va_Website = [], va_Details = [], va_Jailed = False, va_VotingPower = 0\<rparr>),
     xe_marshalToken = (\<lambda>t. Inr (bytes_of_string (tk_TokenId t))),
     xe_unmarshalToken = (\<lambda>d. Inl ''cannot parse''),
     xe_marshalNFT = (\<lambda>n. Inr []), xe_marshalCollection = (\<lambda>c. Inr []),
     xe_unmarshalCollection = (\<lambda>d. Inl ''cannot parse''),
     xe_GetCollection = (\<lambda>d i. Inl ''key not found''),
     xe_PutCollection = (\<lambda>d i x. (d, None)),
     xe_executeBurnToken = (\<lambda>st ctx p. fail st ctx ''not supported''),
     xe_executeTransferNFT = (\<lambda>st ctx p. fail st ctx ''not supported''),
     xe_generateEventID = ''e'', xe_nowUnixNano = 0, xe_nowUnix = 0, xe_rounds = []\<rparr>"

lemma sample_env_ok: "env_ok sample_env (\<lambda>d. d)"
  unfolding env_ok_def
proof (intro conjI)
  show "ldb_ok (xe_ldb sample_env) (\<lambda>d. d)" by (simp add: sample_env_def mem_ldb_ok)
  show "codec_ok sample_env"
    by (auto simp: codec_ok_def sample_env_def get_put_account same_account_def tokens_get_def fun_eq_iff)
  show "collections_ok sample_env (\<lambda>d. d)" by (simp add: collections_ok_def sample_env_def)
qed

text \<open>Two parties: the holder of the sample key, and one with another address.\<close>

definition alice :: string where
  "alice = GetAddressFromPublicKey sample_lib (kp_Public sample_key)"

definition sample_account :: "string \<Rightarrow> u64 \<Rightarrow> AccountState" where
  "sample_account a b = (fresh_account a)\<lparr>ast_Balance := b\<rparr>"

definition sample_state :: "AccountState list \<Rightarrow> (bytes \<rightharpoonup> bytes) exec_state" where
  "sample_state as = fold (\<lambda>a st. fst (saveAccount sample_env st a)) as
     \<lparr>xs_db = Map.empty, xs_consensus = NewConsensusEngine NewDAG\<rparr>"

definition sample_tx :: "payload \<Rightarrow> u64 \<Rightarrow> Transaction" where
  "sample_tx p f = fst (SignTransaction sample_lib (zero_transaction\<lparr>tx_Nonce := 1, tx_Fee := f,
     tx_Payload := p, tx_PublicKey := kp_Public sample_key\<rparr>) sample_key)"

lemma sample_tx_simps [simp]:
  "tx_Nonce (sample_tx p f) = 1" "tx_Fee (sample_tx p f) = f" "tx_Payload (sample_tx p f) = p"
  "tx_PublicKey (sample_tx p f) = kp_Public sample_key"
  "VerifyTransactionSignature sample_lib (sample_tx p f)"
proof -
  define t where "t = zero_transaction\<lparr>tx_Nonce := 1, tx_Fee := f, tx_Payload := p,
     tx_PublicKey := kp_Public sample_key\<rparr>"
  have len: "length (kp_Private sample_key) = 64" by (simp add: sample_key_def)
  have e: "sample_tx p f = t\<lparr>tx_Id := hex_encode (HashTransaction sample_lib t),
      tx_Signature := cl_sign sample_lib (kp_Private sample_key) (HashTransaction sample_lib t),
      tx_PublicKey := kp_Public sample_key\<rparr>"
    by (simp add: sample_tx_def t_def SignTransaction_result [OF sample_lib_ok len])
  have k: "t\<lparr>tx_PublicKey := kp_Public sample_key\<rparr> = t" by (simp add: t_def)
  show "tx_Nonce (sample_tx p f) = 1" "tx_Fee (sample_tx p f) = f" "tx_Payload (sample_tx p f) = p"
    "tx_PublicKey (sample_tx p f) = kp_Public sample_key"
    by (simp_all add: e t_def)
  have "transactionToBytesForHashing (sample_tx p f) = transactionToBytesForHashing t"
    by (simp add: e t_def transactionToBytesForHashing_def)
  then have "HashTransaction sample_lib (sample_tx p f) = HashTransaction sample_lib t"
    by (simp add: HashTransaction_def)
  then show "VerifyTransactionSignature sample_lib (sample_tx p f)"
    by (subst VerifyTransactionSignature_sizes)
      (simp_all add: e lib_okD [OF sample_lib_ok] sample_key_public)
qed

lemma sample_save [simp]:
  "saveAccount sample_env st a = (st\<lparr>xs_db := (xs_db st)(account_key (ast_Address a) \<mapsto>
     put_account (pb_of_account a))\<rparr>, None)"
  by (simp add: saveAccount_def sample_env_def StateStore_PutAccount_def Engine_Put_def mem_ldb_def)

lemma sample_get:
  "xs_db st (account_key a) = Some (put_account (pb_of_account acc)) \<Longrightarrow>
     getAccount sample_env st a = Inr (acc\<lparr>ast_NFTs := [], ast_Tokens :=
       (if ast_Tokens acc = Some [] then None else ast_Tokens acc)\<rparr>)"
  by (cases acc) (simp add: getAccount_def sample_env_def StateStore_GetAccount_def Engine_Get_def
      mem_ldb_def get_put_account pb_of_account_def account_of_pb_def)

lemma sample_keyed: "keyed sample_env (sample_state as)"
proof -
  have "keyed sample_env (fold (\<lambda>a st. fst (saveAccount sample_env st a)) as st)"
    if "keyed sample_env st" for st
    using that
  proof (induction as arbitrary: st)
    case (Cons a as)
    have "keyed sample_env (fst (saveAccount sample_env st a))"
      using saveAccount_ledger(2) [OF sample_env_ok _ Cons.prems] by (metis sample_save fst_conv)
    then show ?case using Cons.IH by simp
  qed simp
  moreover have "keyed sample_env \<lparr>xs_db = Map.empty, xs_consensus = e\<rparr>" for e
    by (simp add: keyed_def getAccount_def sample_env_def StateStore_GetAccount_def Engine_Get_def
        mem_ldb_def)
  ultimately show ?thesis by (simp add: sample_state_def)
qed

definition read_back :: "AccountState \<Rightarrow> AccountState" where
  "read_back acc = acc\<lparr>ast_NFTs := [], ast_Tokens := None\<rparr>"

lemma sample_get_account:
  "getAccount sample_env (sample_state [sample_account a b]) a = Inr (read_back (sample_account a b))"
  by (rule trans [OF sample_get [of _ _ "sample_account a b"]])
    (simp_all add: sample_state_def sample_account_def read_back_def)

lemma sample_get_missing:
  "xs_db st (account_key c) = None \<Longrightarrow> getAccount sample_env st c = Inl (''account not found: '' @ c)"
  by (simp add: getAccount_def sample_env_def StateStore_GetAccount_def Engine_Get_def mem_ldb_def)

lemma sample_get_none:
  "a \<noteq> c \<Longrightarrow> getAccount sample_env (sample_state [sample_account a b]) c = Inl (''account not found: '' @ c)"
  using account_table.inj [of c a]
  by (intro sample_get_missing) (auto simp: sample_state_def sample_account_def)

lemma sample_admits:
  assumes "f \<le> b"
  shows "admits sample_env (sample_state [sample_account alice b]) (sample_tx p f)
    (read_back (sample_account alice b))"
  using assms sample_get_account [of alice b]
  by (simp add: admits_def alice_def read_back_def sample_account_def) (simp add: sample_env_def)

lemma alice_ascii: "ascii alice"
  unfolding ascii_def alice_def by code_simp

section \<open>Properties\<close>

text \<open>A native transfer on the map of accounts: the recipient first, then the sender over it.\<close>

definition ledger_transfer :: "(string \<rightharpoonup> holding) \<Rightarrow> string \<Rightarrow> string \<Rightarrow> u64 \<Rightarrow> u64 \<Rightarrow>
    (string \<rightharpoonup> holding)" where
  "ledger_transfer l from to amount fee =
     (let s = the (l from);
          r = (case l to of None \<Rightarrow> holding_of (fresh_account to) | Some h \<Rightarrow> h)
      in l(to \<mapsto> r\<lparr>ho_balance := ho_balance r + amount\<rparr>,
           from \<mapsto> s\<lparr>ho_nonce := ho_nonce s + 1, ho_balance := ho_balance s - amount - fee\<rparr>))"

lemma holding_of_update [simp]:
  "holding_of (a\<lparr>ast_Balance := b\<rparr>) = (holding_of a)\<lparr>ho_balance := b\<rparr>"
  "holding_of (a\<lparr>ast_Nonce := n\<rparr>) = (holding_of a)\<lparr>ho_nonce := n\<rparr>"
  "holding_of (a\<lparr>ast_Delegated := d\<rparr>) = (holding_of a)\<lparr>ho_delegated := d\<rparr>"
  "holding_of (a\<lparr>ast_Validator := v\<rparr>) = (holding_of a)\<lparr>ho_validator := v\<rparr>"
  "ho_balance (holding_of a) = ast_Balance a" "ho_nonce (holding_of a) = ast_Nonce a"
  by (simp_all add: holding_of_def)

lemma ascii_account_update [simp]:
  "ascii_account (a\<lparr>ast_Balance := b\<rparr>) = ascii_account a"
  "ascii_account (a\<lparr>ast_Nonce := n\<rparr>) = ascii_account a"
  "ascii_account (a\<lparr>ast_Delegated := d\<rparr>) = ascii_account a"
  by (simp_all add: ascii_account_def)

lemma saveAccount_ascii:
  assumes "env_ok E view" and "ascii_account acc"
  obtains st' where "saveAccount E st acc = (st', None)"
  using assms(2) by (cases rule: saveAccount_cases [OF assms(1), of acc st]) auto

text \<open>The last step of a successful execution, on the ledger.\<close>

lemma Execute_finish:
  assumes "env_ok E view" and "admits E st tx s"
    and "ex_executeTransaction E st (context_of tx s) = (st1, ctx, Ret (Inr r))"
    and "ascii_account (ec_Sender ctx)" and "ast_Address (ec_Sender ctx) = a" and "ec_Refund ctx = 0"
  shows "\<exists>st'. Execute E st (Some tx) = (st', Ret (Some r, None)) \<and>
    ledger E st' = (ledger E st1)(a \<mapsto> (holding_of (ec_Sender ctx))
      \<lparr>ho_nonce := tx_Nonce tx, ho_balance := ast_Balance (ec_Sender ctx) - tx_Fee tx\<rparr>)"
proof -
  have "ascii_account (final_sender tx ctx)" using assms(4) by (simp add: final_sender_def)
  then obtain st' where s: "saveAccount E st1 (final_sender tx ctx) = (st', None)"
    by (rule saveAccount_ascii [OF assms(1)])
  have "Execute E st (Some tx) = (st', Ret (Some r, None))"
    by (simp add: Execute_admitted [OF assms(2)] assms(3) s)
  moreover have "ledger E st' = (ledger E st1)(a \<mapsto> (holding_of (ec_Sender ctx))
      \<lparr>ho_nonce := tx_Nonce tx, ho_balance := ast_Balance (ec_Sender ctx) - tx_Fee tx\<rparr>)"
    using saveAccount_ledger(1) [OF assms(1) s] by (simp add: final_sender_def assms(5,6))
  ultimately show ?thesis by blast
qed

lemma succeed_ledger:
  "\<exists>st2 r. succeed E st1 ctx m g c = (st2, ctx, Ret (Inr r)) \<and> er_Success r \<and>
     ledger E st2 = ledger E st1"
proof -
  obtain ev e where "succeed E st1 ctx m g c = (st1\<lparr>xs_consensus := e\<rparr>, ctx,
      Ret (Inr (NewExecutionResult (tx_Id (ec_Tx ctx)) True m g [ev])))"
    using succeed_eq by blast
  then show ?thesis by (auto simp: NewExecutionResult_def ledger_def fun_eq_iff)
qed

lemma transfer_executes:
  assumes "env_ok E view" and "keyed E st" and "admits E st tx s" and "tx_Payload tx = Transfer p"
    and "tp_Amount p \<noteq> 0" and "tp_Amount p \<le> ast_Balance s"
    and "ascii_account s" and "ascii_account (getOrCreateAccount E st (tp_To p))"
  shows "\<exists>st' r. Execute E st (Some tx) = (st', Ret (Some r, None)) \<and> er_Success r \<and>
    ledger E st' = ledger_transfer (ledger E st) (ast_Address s) (tp_To p) (tp_Amount p) (tx_Fee tx)"
proof -
  let ?r = "getOrCreateAccount E st (tp_To p)"
  let ?ctx = "(context_of tx s)\<lparr>ec_Sender := s\<lparr>ast_Balance := ast_Balance s - tp_Amount p\<rparr>\<rparr>"
  obtain st1 where s1: "saveAccount E st (?r\<lparr>ast_Balance := ast_Balance ?r + tp_Amount p\<rparr>) = (st1, None)"
    using saveAccount_ascii [OF assms(1)] assms(8) by (metis ascii_account_update(1))
  obtain st2 r where r: "succeed E st1 ?ctx ''transfer successful'' 50000 ''system'' = (st2, ?ctx, Ret (Inr r))"
    "er_Success r" "ledger E st2 = ledger E st1"
    using succeed_ledger by blast
  have h: "ex_executeTransaction E st (context_of tx s) = (st2, ?ctx, Ret (Inr r))"
    using assms(5,6)
    by (simp add: ex_executeTransaction_def assms(4) ex_executeTransfer_def hasSufficientBalance_def
        Let_def s1 r(1))
  obtain st' where st': "Execute E st (Some tx) = (st', Ret (Some r, None))"
    "ledger E st' = (ledger E st2)(ast_Address s \<mapsto> (holding_of (ec_Sender ?ctx))
      \<lparr>ho_nonce := tx_Nonce tx, ho_balance := ast_Balance (ec_Sender ?ctx) - tx_Fee tx\<rparr>)"
    using Execute_finish [OF assms(1,3) h, of "ast_Address s"] assms(7) by auto
  have "ledger E st (ast_Address s) = Some (holding_of s)"
    using admits_ctx_ok [OF assms(2,3)] by (simp add: ctx_ok_def)
  moreover have "tx_Nonce tx = ast_Nonce s + 1" using assms(3) by (simp add: admits_def)
  moreover have "ho_balance (holding_of ?r) = ast_Balance ?r" by simp
  ultimately have "ledger E st' =
      ledger_transfer (ledger E st) (ast_Address s) (tp_To p) (tp_Amount p) (tx_Fee tx)"
    by (simp add: st'(2) r(3) saveAccount_ledger(1) [OF assms(1) s1] ledger_transfer_def Let_def
        getOrCreateAccount_address [OF assms(2)] flip: getOrCreateAccount_holding)
  with st'(1) r(2) show ?thesis by blast
qed

lemma delegate_executes:
  assumes "env_ok E view" and "keyed E st" and "admits E st tx s" and "tx_Payload tx = DelegateStake p"
    and "sp_Amount p \<noteq> 0" and "sp_Amount p \<le> ast_Balance s"
    and "getValidator E st (sp_ValidatorAddress p) = Inr v"
    and "xe_marshalValidator E (v\<lparr>va_Stake := va_Stake v + sp_Amount p\<rparr>) = Inr data"
    and "ast_Validator s = [] \<or> ast_Validator s = sp_ValidatorAddress p"
    and "ascii_account (s\<lparr>ast_Validator := sp_ValidatorAddress p\<rparr>)"
  shows "\<exists>st' r. Execute E st (Some tx) = (st', Ret (Some r, None)) \<and>
    ledger E st' = (ledger E st)(ast_Address s \<mapsto> (holding_of s)\<lparr>
      ho_delegated := ast_Delegated s + sp_Amount p, ho_validator := sp_ValidatorAddress p,
      ho_nonce := tx_Nonce tx, ho_balance := ast_Balance s - tx_Fee tx\<rparr>)"
proof -
  let ?s = "s\<lparr>ast_Delegated := ast_Delegated s + sp_Amount p, ast_Validator := sp_ValidatorAddress p\<rparr>"
  let ?ctx = "(context_of tx s)\<lparr>ec_Sender := ?s\<rparr>"
  obtain d' where put: "Engine_Put (xe_ldb E) (xs_db st) (validator_key (sp_ValidatorAddress p)) data = (d', None)"
    using Engine_Put_ok [OF env_okD(1) [OF assms(1)]] by blast
  let ?st1 = "\<lparr>xs_db = d', xs_consensus = set_stake (sp_ValidatorAddress p)
                  (va_Stake v + sp_Amount p) (xs_consensus st)\<rparr>"
  obtain st2 r where r: "succeed E ?st1 ?ctx ''delegation successful'' 200000 (ast_Address s) =
      (st2, ?ctx, Ret (Inr r))" "ledger E st2 = ledger E ?st1"
    using succeed_ledger by blast
  have h: "ex_executeTransaction E st (context_of tx s) = (st2, ?ctx, Ret (Inr r))"
    using assms(5,6,9)
    by (auto simp: ex_executeTransaction_def assms(4,7,8) ex_executeDelegateStake_def
        hasSufficientBalance_def Let_def ValidatorStore_PutValidator_def put r(1))
  have "ledger E ?st1 = ledger E st"
    by (rule keeps_put(3) [OF assms(1) put]) simp
  moreover obtain st' where "Execute E st (Some tx) = (st', Ret (Some r, None))"
    "ledger E st' = (ledger E st2)(ast_Address s \<mapsto> (holding_of (ec_Sender ?ctx))
      \<lparr>ho_nonce := tx_Nonce tx, ho_balance := ast_Balance (ec_Sender ?ctx) - tx_Fee tx\<rparr>)"
    using Execute_finish [OF assms(1,3) h, of "ast_Address s"] assms(10) by (auto simp: ascii_account_def)
  moreover have "(holding_of ?s)\<lparr>ho_nonce := tx_Nonce tx, ho_balance := ast_Balance s - tx_Fee tx\<rparr> =
      (holding_of s)\<lparr>ho_delegated := ast_Delegated s + sp_Amount p,
        ho_validator := sp_ValidatorAddress p, ho_nonce := tx_Nonce tx,
        ho_balance := ast_Balance s - tx_Fee tx\<rparr>"
    by simp
  ultimately show ?thesis using r(2) by simp
qed

text \<open>A stored account without tokens has a nil map.\<close>

lemma stored_without_tokens:
  assumes "env_ok E view" and "saveAccount E st0 acc = (st, None)"
    and "ast_Tokens acc = None \<or> ast_Tokens acc = Some []"
  shows "ast_Tokens (getOrCreateAccount E st (ast_Address acc)) = None"
  using saveAccount_ledger(3) [OF assms(1,2)] assms(3) by (auto simp: getOrCreateAccount_def)

lemma createToken_panics:
  assumes "env_ok E view" and "admits E st tx s" and "tx_Payload tx = CreateToken p"
    and "TokenStore_GetToken (xe_ldb E) (xs_db st) (ct_TokenId p) = Inl e"
    and "xe_marshalToken E (new_token p) = Inr data"
    and "ast_Tokens (getOrCreateAccount E st (ct_AdminAddress p)) = None"
  shows "\<exists>st'. Execute E st (Some tx) = (st', Panic nil_map) \<and>
    TokenStore_GetToken (xe_ldb E) (xs_db st') (ct_TokenId p) = Inr data"
proof -
  obtain d' where put: "Engine_Put (xe_ldb E) (xs_db st) (token_key (ct_TokenId p)) data = (d', None)"
    using Engine_Put_ok [OF env_okD(1) [OF assms(1)]] by blast
  have same: "getOrCreateAccount E (st\<lparr>xs_db := d'\<rparr>) = getOrCreateAccount E st"
    by (rule keeps_put(5) [OF assms(1) put]) simp
  have "ex_executeTransaction E st (context_of tx s) = (st\<lparr>xs_db := d'\<rparr>, context_of tx s, Panic nil_map)"
    by (simp add: ex_executeTransaction_def assms(3-6) ex_executeCreateToken_def TokenStore_PutToken_def
        put Let_def same tokens_set_def)
  moreover have "TokenStore_GetToken (xe_ldb E) d' (ct_TokenId p) = Inr data"
    using token_table.get_put [OF env_okD(1) [OF assms(1)], of "xs_db st" "ct_TokenId p" data "ct_TokenId p"]
    by (simp add: TokenStore_GetToken_def put)
  ultimately show ?thesis by (simp add: Execute_admitted [OF assms(2)])
qed

text \<open>C9: a native transfer is the transfer on the map of accounts. When the checks pass,
  \<open>Execute\<close> returns a success, the recipient (created if it had no account) holds the amount
  more, the sender is left with its balance less amount and fee and the next nonce, and every
  other account is as it was.\<close>

theorem transfer_refines_ledger:
  assumes "env_ok E view" and "keyed E st" and "admits E st tx s" and "tx_Payload tx = Transfer p"
    and "tp_Amount p \<noteq> 0" and "tp_Amount p \<le> ast_Balance s"
    and "ascii_account s" and "ascii_account (getOrCreateAccount E st (tp_To p))"
  shows "\<exists>st' r. Execute E st (Some tx) = (st', Ret (Some r, None)) \<and> er_Success r \<and>
    ledger E st' = ledger_transfer (ledger E st) (ast_Address s) (tp_To p) (tp_Amount p) (tx_Fee tx)"
  by (rule transfer_executes [OF assms])

lemma sample_ascii:
  "ascii_account (read_back (sample_account alice b))"
  "ascii a \<Longrightarrow> ascii_account (fresh_account a)"
  by (simp_all add: ascii_account_def read_back_def sample_account_def alice_ascii fresh_account_def)
    (simp_all add: ascii_def)

lemma sample_create_bob:
  "getOrCreateAccount sample_env (sample_state [sample_account alice b]) ''bob'' = fresh_account ''bob''"
proof -
  have "alice \<noteq> ''bob''" unfolding alice_def by code_simp
  then show ?thesis by (simp add: getOrCreateAccount_def sample_get_none)
qed

theorem transfer_refines_ledger_witness:
  "\<exists>st' r. Execute sample_env (sample_state [sample_account alice 100])
      (Some (sample_tx (Transfer \<lparr>tp_To = ''bob'', tp_Amount = 30, tp_Memo = None\<rparr>) 5)) =
        (st', Ret (Some r, None)) \<and> er_Success r \<and>
    ledger sample_env st' = ledger_transfer (ledger sample_env (sample_state [sample_account alice 100]))
      alice ''bob'' 30 5"
  using transfer_refines_ledger [OF sample_env_ok sample_keyed sample_admits, of 5 100
      "Transfer \<lparr>tp_To = ''bob'', tp_Amount = 30, tp_Memo = None\<rparr>"
      "\<lparr>tp_To = ''bob'', tp_Amount = 30, tp_Memo = None\<rparr>"] sample_ascii(1) [of 100]
  by (simp add: sample_create_bob sample_ascii(2) ascii_def) (simp add: read_back_def sample_account_def)

text \<open>Two subtractions that each fit but not together wrap around.\<close>

lemma sub_sub_wraps:
  fixes b x y h :: u64
  assumes "x \<le> b" and "unat b < unat x + unat y" and "h = b - x - y"
  shows "unat h + unat x + unat y = unat b + 18446744073709551616"
proof -
  have bx: "unat (b - x) = unat b - unat x" using assms(1) by (simp add: word_le_nat_alt)
  have "h + y = b - x" by (simp add: assms(3))
  then have sum: "(unat h + unat y) mod 18446744073709551616 = unat b - unat x"
    using bx unat_add_u64 [of h y] by simp
  have big: "18446744073709551616 \<le> unat h + unat y"
  proof (rule ccontr)
    assume "\<not> ?thesis"
    then have "unat h + unat y = unat b - unat x" using sum by simp
    with assms(1,2) show False by (simp add: word_le_nat_alt)
  qed
  moreover have "unat h + unat y - 18446744073709551616 < 18446744073709551616"
    using unat_u64_less [of h] unat_u64_less [of y] by linarith
  ultimately have "unat h + unat y - 18446744073709551616 = unat b - unat x"
    using sum by (simp add: le_mod_geq)
  with big assms(1) show ?thesis by (simp add: word_le_nat_alt)
qed

text \<open>C26: fee and amount are compared with the balance one by one. The transfer of a sender
  that can pay each but not both succeeds, the recipient is credited, and the sender's balance
  wraps: amount and fee are taken from its balance plus 2 to the 64.\<close>

theorem transfer_underflow:
  assumes "env_ok E view" and "keyed E st" and "admits E st tx s" and "tx_Payload tx = Transfer p"
    and "tp_Amount p \<noteq> 0" and "tp_Amount p \<le> ast_Balance s"
    and "ascii_account s" and "ascii_account (getOrCreateAccount E st (tp_To p))"
    and "unat (ast_Balance s) < unat (tp_Amount p) + unat (tx_Fee tx)"
  shows "\<exists>st' r h. Execute E st (Some tx) = (st', Ret (Some r, None)) \<and> er_Success r \<and>
    ledger E st' (ast_Address s) = Some h \<and>
    unat (ho_balance h) + unat (tp_Amount p) + unat (tx_Fee tx) =
      unat (ast_Balance s) + 18446744073709551616"
proof -
  obtain st' r where e: "Execute E st (Some tx) = (st', Ret (Some r, None))" "er_Success r"
    "ledger E st' = ledger_transfer (ledger E st) (ast_Address s) (tp_To p) (tp_Amount p) (tx_Fee tx)"
    using transfer_executes [OF assms(1-8)] by blast
  have "ledger E st (ast_Address s) = Some (holding_of s)"
    using admits_ctx_ok [OF assms(2,3)] by (simp add: ctx_ok_def)
  then obtain h where h: "ledger E st' (ast_Address s) = Some h"
    "ho_balance h = ast_Balance s - tp_Amount p - tx_Fee tx"
    by (simp add: e(3) ledger_transfer_def Let_def)
  with sub_sub_wraps [OF assms(6,9) h(2)] e(1,2) show ?thesis by auto
qed

lemma sample_transfer_admitted:
  "admits sample_env (sample_state [sample_account alice 100])
     (sample_tx (Transfer \<lparr>tp_To = t, tp_Amount = v, tp_Memo = None\<rparr>) 60)
     (read_back (sample_account alice 100))"
  by (rule sample_admits) simp

theorem transfer_underflow_witness:
  "\<exists>st' r h. Execute sample_env (sample_state [sample_account alice 100])
      (Some (sample_tx (Transfer \<lparr>tp_To = ''bob'', tp_Amount = 70, tp_Memo = None\<rparr>) 60)) =
        (st', Ret (Some r, None)) \<and> er_Success r \<and> ledger sample_env st' alice = Some h \<and>
    unat (ho_balance h) + 70 + 60 = 100 + 18446744073709551616"
  using transfer_underflow [OF sample_env_ok sample_keyed sample_transfer_admitted [of "''bob''" 70],
      of "\<lparr>tp_To = ''bob'', tp_Amount = 70, tp_Memo = None\<rparr>"]
    sample_ascii(1) [of 100]
  by (simp add: sample_create_bob sample_ascii(2) ascii_def) (simp add: read_back_def sample_account_def)

text \<open>A transfer to oneself destroys the amount: recipient and sender are two copies of one
  account, and the sender, saved last, keeps the debit only.\<close>

theorem self_transfer_burns:
  assumes "env_ok E view" and "keyed E st" and "admits E st tx s" and "tx_Payload tx = Transfer p"
    and "tp_Amount p \<noteq> 0" and "tp_Amount p \<le> ast_Balance s"
    and "ascii_account s" and "tp_To p = ast_Address s"
  shows "\<exists>st' r. Execute E st (Some tx) = (st', Ret (Some r, None)) \<and> er_Success r \<and>
    ledger E st' = (ledger E st)(ast_Address s \<mapsto> (holding_of s)\<lparr>ho_nonce := ast_Nonce s + 1,
      ho_balance := ast_Balance s - tp_Amount p - tx_Fee tx\<rparr>)"
proof -
  have g: "getAccount E st (ast_Address s) = Inr s"
    using admits_address [OF assms(2,3)] assms(3) by (simp add: admits_def)
  then have "ascii_account (getOrCreateAccount E st (tp_To p))"
    using assms(7,8) by (simp add: getOrCreateAccount_def)
  then obtain st' r where e: "Execute E st (Some tx) = (st', Ret (Some r, None))" "er_Success r"
    "ledger E st' = ledger_transfer (ledger E st) (ast_Address s) (tp_To p) (tp_Amount p) (tx_Fee tx)"
    using transfer_executes [OF assms(1-7)] by blast
  moreover from e(3) have "ledger E st' = (ledger E st)(ast_Address s \<mapsto> (holding_of s)
      \<lparr>ho_nonce := ast_Nonce s + 1, ho_balance := ast_Balance s - tp_Amount p - tx_Fee tx\<rparr>)"
    by (simp add: ledger_transfer_def Let_def assms(8) ledger_Some [OF g])
  ultimately show ?thesis by blast
qed

theorem self_transfer_burns_witness:
  "\<exists>st' r. Execute sample_env (sample_state [sample_account alice 100])
      (Some (sample_tx (Transfer \<lparr>tp_To = alice, tp_Amount = 30, tp_Memo = None\<rparr>) 60)) =
        (st', Ret (Some r, None)) \<and> er_Success r \<and>
    ledger sample_env st' = (ledger sample_env (sample_state [sample_account alice 100]))
      (alice \<mapsto> (holding_of (read_back (sample_account alice 100)))\<lparr>ho_nonce := 1, ho_balance := 10\<rparr>)"
  using self_transfer_burns [OF sample_env_ok sample_keyed sample_transfer_admitted [of alice 30],
      of "\<lparr>tp_To = alice, tp_Amount = 30, tp_Memo = None\<rparr>"]
    sample_ascii(1) [of 100]
  by simp (simp add: read_back_def sample_account_def)

text \<open>A token cannot be created for an admin that has an account without tokens. The map
  of a stored account without tokens decodes to nil, the write of the initial supply panics,
  and the token is in the store by then, so that it cannot be created again.\<close>

theorem create_token_panics:
  assumes "env_ok E view" and "saveAccount E st0 acc = (st, None)" and "ast_Tokens acc = Some []"
    and "admits E st tx s" and "tx_Payload tx = CreateToken p" and "ct_AdminAddress p = ast_Address acc"
    and "TokenStore_GetToken (xe_ldb E) (xs_db st) (ct_TokenId p) = Inl ErrNotFound"
    and "xe_marshalToken E (new_token p) = Inr data"
  shows "\<exists>st'. Execute E st (Some tx) = (st', Panic nil_map) \<and>
    TokenStore_GetToken (xe_ldb E) (xs_db st') (ct_TokenId p) = Inr data"
proof (rule createToken_panics [OF assms(1,4,5,7,8)])
  show "ast_Tokens (getOrCreateAccount E st (ct_AdminAddress p)) = None"
    using stored_without_tokens [OF assms(1,2)] assms(3) by (simp add: assms(6))
qed

definition sample_token :: CreateTokenPayload where
  "sample_token = \<lparr>ct_TokenId = ''T'', ct_Name = ''T'', ct_Symbol = ''T'', ct_Decimals = 0,
     ct_InitialSupply = 9, ct_AdminAddress = alice, ct_MetadataUri = [], ct_Mintable = True,
     ct_Burnable = True, ct_Pausable = False, ct_Blacklistable = False\<rparr>"

lemma sample_marshal_token:
  "xe_marshalToken sample_env (new_token sample_token) = Inr (bytes_of_string ''T'')"
  by (simp add: sample_token_def sample_env_def new_token_def)

lemma sample_token_missing:
  "d (token_key t) = None \<Longrightarrow> TokenStore_GetToken (xe_ldb sample_env) d t = Inl ErrNotFound"
  by (simp add: TokenStore_GetToken_def Engine_Get_def sample_env_def mem_ldb_def)

theorem create_token_panics_witness:
  "\<exists>st'. Execute sample_env (sample_state [sample_account alice 100])
      (Some (sample_tx (CreateToken sample_token) 5)) = (st', Panic nil_map) \<and>
    TokenStore_GetToken (xe_ldb sample_env) (xs_db st') ''T'' = Inr (bytes_of_string ''T'')"
proof -
  have save: "saveAccount sample_env \<lparr>xs_db = Map.empty, xs_consensus = NewConsensusEngine NewDAG\<rparr>
      (sample_account alice 100) = (sample_state [sample_account alice 100], None)"
    by (simp add: sample_state_def)
  have "xs_db (sample_state [sample_account alice 100]) (token_key ''T'') = None"
    by (simp add: sample_state_def sample_account_def keys_apart(6))
  then have none: "TokenStore_GetToken (xe_ldb sample_env) (xs_db (sample_state [sample_account alice 100]))
      (ct_TokenId sample_token) = Inl ErrNotFound"
    by (simp add: sample_token_missing sample_token_def)
  show ?thesis
    using create_token_panics [OF sample_env_ok save _ sample_admits [of 5 100 "CreateToken sample_token"], of sample_token
        "bytes_of_string ''T''"] none
    by (simp add: sample_account_def sample_marshal_token) (simp add: sample_token_def)
qed

lemma sample_transfer_success:
  fixes p defines "p \<equiv> \<lparr>tp_To = ''bob'', tp_Amount = 30, tp_Memo = None\<rparr>"
  shows "\<exists>st1 r. Execute sample_env (sample_state [sample_account alice 100]) (Some (sample_tx (Transfer p) 60)) =
    (st1, Ret (Some r, None))"
proof -
  have "ascii_account (getOrCreateAccount sample_env (sample_state [sample_account alice 100]) ''bob'')"
    unfolding sample_create_bob by (rule sample_ascii(2)) (simp add: ascii_def)
  then show ?thesis
    using transfer_executes [OF sample_env_ok sample_keyed sample_transfer_admitted [of "''bob''" 30], of p]
      sample_ascii(1) [of 100] by (auto simp: p_def read_back_def sample_account_def)
qed

text \<open>A success leaves the sender's account with the nonce of the transaction, and an account
  whose nonce has reached it refuses the transaction, unless the next nonce wraps around.\<close>

lemma Execute_spends:
  assumes "env_ok E view" and "keyed E st" and "has_handler tx" and "Execute E st (Some tx) = (st1, Ret (r, None))"
  shows "keyed E st1 \<and> VerifyTransactionSignature (xe_lib E) tx \<and>
    (\<exists>h. ledger E st1 (GetAddressFromPublicKey (xe_lib E) (tx_PublicKey tx)) = Some h \<and> ho_nonce h = tx_Nonce tx)"
proof -
  obtain s st0 ctx res where s: "admits E st tx s"
    "ex_executeTransaction E st (context_of tx s) = (st0, ctx, Ret (Inr res))"
    "saveAccount E st0 (final_sender tx ctx) = (st1, None)"
    by (rule Execute_success [OF assms(4)])
  have "handled_ok E st (context_of tx s) (st0, ctx, Ret (Inr res))"
    using executeTransaction_handled [OF assms(1) admits_ctx_ok [OF assms(2) s(1)]] assms(3) s(2) by simp
  then have k0: "keyed E st0" and a: "ast_Address (ec_Sender ctx) = GetAddressFromPublicKey (xe_lib E) (tx_PublicKey tx)"
    using assms(2) admits_address [OF assms(2) s(1)] by (simp_all add: same_sender_def keeps_def)
  have "keyed E st1" by (rule saveAccount_ledger(2) [OF assms(1) s(3) k0])
  moreover have "ledger E st1 (GetAddressFromPublicKey (xe_lib E) (tx_PublicKey tx)) = Some (holding_of (final_sender tx ctx))"
    using saveAccount_ledger(1) [OF assms(1) s(3)] a by simp
  moreover have "VerifyTransactionSignature (xe_lib E) tx" using s(1) by (simp add: admits_def)
  ultimately show ?thesis by simp
qed

lemma spent_refused:
  assumes "ledger E st (GetAddressFromPublicKey (xe_lib E) (tx_PublicKey tx)) = Some h"
    and "VerifyTransactionSignature (xe_lib E) tx"
    and "unat (tx_Nonce tx) \<le> unat (ho_nonce h)" and "unat (ho_nonce h) + 1 < 18446744073709551616"
  shows "\<exists>m. Execute E st (Some tx) = (st, refuse tx m ''invalid nonce'' 0)"
proof -
  from assms(1) obtain acc where acc: "getAccount E st (GetAddressFromPublicKey (xe_lib E) (tx_PublicKey tx)) = Inr acc"
    "ho_nonce h = ast_Nonce acc"
    by (auto elim!: ledger_SomeE)
  have "unat (ast_Nonce acc) + unat (1 :: u64) < 18446744073709551616" using assms(4) acc(2) by simp
  then have "unat (ast_Nonce acc + 1) = unat (ast_Nonce acc) + 1"
    by (simp only: unat_add_no_overflow unsigned_1)
  with assms(3) acc(2) have "tx_Nonce tx \<noteq> ast_Nonce acc + 1" by auto
  with assms(2) show ?thesis by (auto simp: Execute_def acc(1))
qed

text \<open>No replay. A transaction that succeeded is refused for its nonce, and changes
  nothing, after any sequence of further transactions whose handlers the repository defines.
  The bound, that the nonce and the number of transactions stay below 2 to the 64, excludes
  a nonce that wraps around.\<close>

theorem executed_not_replayable:
  assumes "env_ok E view" and "keyed E st" and "list_all has_handler (tx # txs)"
    and "Execute E st (Some tx) = (st1, Ret (r, None))"
    and "unat (tx_Nonce tx) + length txs + 1 < 18446744073709551616"
  shows "\<exists>m. Execute E (execute_sequence E txs st1) (Some tx) =
    (execute_sequence E txs st1, refuse tx m ''invalid nonce'' 0)"
proof -
  let ?a = "GetAddressFromPublicKey (xe_lib E) (tx_PublicKey tx)"
  obtain h where h: "keyed E st1" "VerifyTransactionSignature (xe_lib E) tx" "ledger E st1 ?a = Some h"
    "ho_nonce h = tx_Nonce tx"
    using Execute_spends [OF assms(1,2) _ assms(4)] assms(3) by auto
  then obtain h' where h': "ledger E (execute_sequence E txs st1) ?a = Some h'"
    "unat (tx_Nonce tx) \<le> unat (ho_nonce h')" "unat (ho_nonce h') \<le> unat (tx_Nonce tx) + length txs"
    using sequence_nonces [OF assms(1) h(1), of txs ?a h] assms(3,5) by auto
  show ?thesis by (rule spent_refused [OF h'(1) h(2) h'(2)]) (use h'(3) assms(5) in linarith)
qed

theorem executed_not_replayable_witness:
  "\<exists>st1 r m. Execute sample_env (sample_state [sample_account alice 100])
      (Some (sample_tx (Transfer \<lparr>tp_To = ''bob'', tp_Amount = 30, tp_Memo = None\<rparr>) 60)) =
        (st1, Ret (r, None)) \<and>
    Execute sample_env st1 (Some (sample_tx (Transfer \<lparr>tp_To = ''bob'', tp_Amount = 30, tp_Memo = None\<rparr>) 60)) =
      (st1, refuse (sample_tx (Transfer \<lparr>tp_To = ''bob'', tp_Amount = 30, tp_Memo = None\<rparr>) 60) m
        ''invalid nonce'' 0)"
proof -
  let ?st = "sample_state [sample_account alice 100]"
  let ?tx = "sample_tx (Transfer \<lparr>tp_To = ''bob'', tp_Amount = 30, tp_Memo = None\<rparr>) 60"
  obtain st1 r where e: "Execute sample_env ?st (Some ?tx) = (st1, Ret (Some r, None))"
    using sample_transfer_success by blast
  have "list_all has_handler [?tx]" by (simp add: has_handler_def)
  from executed_not_replayable [OF sample_env_ok sample_keyed this e] e show ?thesis
    by (auto simp: execute_sequence_def)
qed

text \<open>Delegated stake is never paid. A delegation adds the amount to the stake of the
  validator and to the sender's delegations but takes only the fee from the sender, so the
  same coins can be delegated again.\<close>

theorem delegation_is_free:
  assumes "env_ok E view" and "keyed E st" and "admits E st tx s" and "tx_Payload tx = DelegateStake p"
    and "sp_Amount p \<noteq> 0" and "sp_Amount p \<le> ast_Balance s"
    and "getValidator E st (sp_ValidatorAddress p) = Inr v"
    and "xe_marshalValidator E (v\<lparr>va_Stake := va_Stake v + sp_Amount p\<rparr>) = Inr data"
    and "ast_Validator s = [] \<or> ast_Validator s = sp_ValidatorAddress p"
    and "ascii_account (s\<lparr>ast_Validator := sp_ValidatorAddress p\<rparr>)"
  shows "\<exists>st' r. Execute E st (Some tx) = (st', Ret (Some r, None)) \<and>
    ledger E st' = (ledger E st)(ast_Address s \<mapsto> (holding_of s)\<lparr>
      ho_delegated := ast_Delegated s + sp_Amount p, ho_validator := sp_ValidatorAddress p,
      ho_nonce := tx_Nonce tx, ho_balance := ast_Balance s - tx_Fee tx\<rparr>)"
  by (rule delegate_executes [OF assms])

lemma sample_with_validator:
  fixes b
  defines "st \<equiv> sample_state [sample_account alice b]"
  defines "st1 \<equiv> st\<lparr>xs_db := (xs_db st)(validator_key ''v'' \<mapsto> put_u64 7)\<rparr>"
  shows "keyed sample_env st1"
    "f \<le> b \<Longrightarrow> admits sample_env st1 (sample_tx p f) (read_back (sample_account alice b))"
    "\<exists>v. getValidator sample_env st1 ''v'' = Inr v"
proof -
  have put: "Engine_Put (xe_ldb sample_env) (xs_db st) (validator_key ''v'') (put_u64 7) =
      ((xs_db st)(validator_key ''v'' \<mapsto> put_u64 7), None)"
    by (simp add: sample_env_def Engine_Put_def mem_ldb_def)
  have "keeps sample_env st st1" and g: "getAccount sample_env st1 = getAccount sample_env st"
    unfolding st1_def by (rule keeps_put [OF sample_env_ok put], simp)+
  then show "keyed sample_env st1"
    using sample_keyed [of "[sample_account alice b]"] by (simp add: keeps_def st_def)
  show "admits sample_env st1 (sample_tx p f) (read_back (sample_account alice b))" if "f \<le> b"
    using sample_admits [OF that, of p] by (simp add: admits_def g st_def)
  have "ValidatorStore_GetValidator (xe_ldb sample_env) (xs_db st1) ''v'' = Inr (put_u64 7)"
    by (simp add: ValidatorStore_GetValidator_def Engine_Get_def sample_env_def mem_ldb_def st1_def)
  then show "\<exists>v. getValidator sample_env st1 ''v'' = Inr v"
    using get_put_u64 [of 7 "[]"] by (simp add: getValidator_def) (simp add: sample_env_def)
qed

theorem delegation_is_free_witness:
  "\<exists>st st' r. Execute sample_env st (Some (sample_tx (DelegateStake
        \<lparr>sp_ValidatorAddress = ''v'', sp_Amount = 100\<rparr>) 5)) = (st', Ret (Some r, None)) \<and>
    ledger sample_env st' = (ledger sample_env st)(alice \<mapsto> (holding_of (read_back (sample_account alice 100)))
      \<lparr>ho_delegated := 100, ho_validator := ''v'', ho_nonce := 1, ho_balance := 95\<rparr>)"
proof -
  let ?p = "\<lparr>sp_ValidatorAddress = ''v'', sp_Amount = 100 :: u64\<rparr>"
  obtain v where v: "getValidator sample_env ((sample_state [sample_account alice 100])\<lparr>xs_db :=
      (xs_db (sample_state [sample_account alice 100]))(validator_key ''v'' \<mapsto> put_u64 7)\<rparr>) ''v'' = Inr v"
    using sample_with_validator(3) by blast
  have m: "xe_marshalValidator sample_env x = Inr (put_u64 (va_Stake x))" for x
    by (simp add: sample_env_def)
  have a: "ascii_account ((read_back (sample_account alice 100))\<lparr>ast_Validator := ''v''\<rparr>)"
    using alice_ascii by (simp add: ascii_account_def read_back_def sample_account_def) (simp add: ascii_def)
  have s: "ast_Balance (read_back (sample_account alice 100)) = 100"
    "ast_Validator (read_back (sample_account alice 100)) = []"
    "ast_Delegated (read_back (sample_account alice 100)) = 0"
    "ast_Address (read_back (sample_account alice 100)) = alice"
    by (simp_all add: read_back_def sample_account_def fresh_account_def)
  have "(5 :: u64) \<le> 100" by simp
  from delegation_is_free [OF sample_env_ok sample_with_validator(1) sample_with_validator(2) [OF this],
      of "DelegateStake ?p" ?p v] v m a s
  show ?thesis by auto
qed

text \<open>C25: every account is stored under its own address, and execution keeps it so, whatever
  the transaction and its outcome, panics included; no account disappears, and its nonce stays
  or goes up by one.\<close>

theorem ledger_well_formed:
  assumes "env_ok E view" and "keyed E st" and "has_handler tx"
  shows "keyed E (fst (Execute E st (Some tx))) \<and>
    (\<forall>a h. ledger E st a = Some h \<longrightarrow> (\<exists>h'. ledger E (fst (Execute E st (Some tx))) a = Some h' \<and>
       (ho_nonce h' = ho_nonce h \<or> ho_nonce h' = ho_nonce h + 1)))"
  using Execute_nonces [OF assms, of "fst (Execute E st (Some tx))" "snd (Execute E st (Some tx))"] by simp

theorem ledger_well_formed_witness:
  "keyed sample_env (fst (Execute sample_env (sample_state [sample_account alice 100])
     (Some (sample_tx (CreateToken sample_token) 5))))"
proof -
  have "has_handler (sample_tx (CreateToken sample_token) 5)" by (simp add: has_handler_def)
  from ledger_well_formed [OF sample_env_ok sample_keyed this] show ?thesis by blast
qed

end
