(* ===== verification/MempoolProps.thy ===== *)
theory MempoolProps
  imports Mempool
begin

text \<open>
  The properties of the pool: what \<open>GetPending\<close> returns and in which order, the consistency of
  every reachable pool, and how priorities grow with the fee.
\<close>

section \<open>The pending transactions as the queue sees them\<close>

lemma live_refs:
  assumes "mempool_inv m"
  shows "mset (filter (\<lambda>r. \<not> f64_less (mx_Priority (mp_objs m r)) (Finite 0)) (mp_queue m)) =
    mset (pending_refs m)"
proof -
  note inv = mempool_invD [OF assms]
  have "f64_less (mx_Priority (mp_objs m r)) (Finite 0) \<longleftrightarrow> r \<notin> set (pending_refs m)"
    if "r \<in> set (mp_queue m)" for r
  proof (cases "r \<in> set (pending_refs m)")
    case True
    then obtain i where "(i, r) \<in> set (mp_txs m)" by (auto simp: pending_refs_iff)
    from inv(7) [OF this] True show ?thesis by (simp add: tx_priority_not_negative)
  qed (simp add: inv(9) [OF that])
  then have "set (filter (\<lambda>r. \<not> f64_less (mx_Priority (mp_objs m r)) (Finite 0)) (mp_queue m)) =
      set (pending_refs m)"
    using inv(4) by auto
  then show ?thesis
    using inv(2,3) by (subst set_eq_iff_mset_eq_distinct [symmetric]) auto
qed

lemma entry_pending:
  assumes "mempool_inv m" and "r \<in> set (pending_refs m)"
  shows "entry_rank (entry (mp_objs m) r) = tx_rank (mx_Tx (mp_objs m r))"
  using assms mempool_invD(7,8) [OF assms(1)]
  by (auto simp: entry_rank_def entry_def tx_rank_def pending_refs_iff)

lemma tx_priority_NaN: "tx_priority tx = NaN \<longleftrightarrow> tx_Fee tx = 0 \<and> tx_GasLimit tx = 0"
proof -
  have z: "round53 (of_int (uint w)) = 0 \<longleftrightarrow> w = 0" for w :: u64
  proof (cases "w = 0")
    case False
    then have "0 < uint w" by (simp add: word_neq_0_conv word_less_def)
    then have "0 < round53 (of_int (uint w))" by (intro round53_pos) (simp only: of_int_0_less_iff)
    with False show ?thesis by simp
  qed simp
  show ?thesis by (auto simp: tx_priority_def f64_of_u64_def z [simplified])
qed

text \<open>Without NaN the queue is a heap of valid entries, whose live ones are the pending transactions.\<close>

lemma queue_valid:
  assumes "mempool_inv m" and "\<And>tx. tx \<in> set (pending m) \<Longrightarrow> tx_Fee tx \<noteq> 0 \<or> tx_GasLimit tx \<noteq> 0"
  shows "pq_valid \<lparr>pq_objs = mp_objs m, pq_refs = mp_queue m\<rparr>"
proof -
  have "mx_Priority (mp_objs m r) \<noteq> NaN" if "r \<in> set (mp_queue m)" for r
  proof (cases "r \<in> set (pending_refs m)")
    case True
    then obtain i where "(i, r) \<in> set (mp_txs m)" by (auto simp: pending_refs_iff)
    with mempool_invD(7) [OF assms(1) this] assms(2) [of "mx_Tx (mp_objs m r)"] True show ?thesis
      by (auto simp: pending_def tx_priority_NaN)
  qed (simp add: mempool_invD(9) [OF assms(1) that])
  then show ?thesis by (auto simp: pq_valid_def pq_items_def entry_def)
qed

lemma live_entries:
  assumes "mempool_inv m" and "mset es = filter_mset live (mset (pq_items \<lparr>pq_objs = mp_objs m, pq_refs = mp_queue m\<rparr>))"
  shows "set es \<subseteq> entry (mp_objs m) ` set (pending_refs m)" "image_mset fst (mset es) = mset (pending_refs m)"
proof -
  have "filter live (pq_items \<lparr>pq_objs = mp_objs m, pq_refs = mp_queue m\<rparr>) = map (entry (mp_objs m))
      (filter (\<lambda>r. \<not> f64_less (mx_Priority (mp_objs m r)) (Finite 0)) (mp_queue m))"
    by (simp add: pq_items_def filter_map live_def entry_def comp_def)
  then have "mset (filter live (pq_items \<lparr>pq_objs = mp_objs m, pq_refs = mp_queue m\<rparr>)) =
      image_mset (entry (mp_objs m)) (mset (pending_refs m))"
    by (simp only: mset_map live_refs [OF assms(1)])
  with assms(2) have ms: "mset es = mset (map (entry (mp_objs m)) (pending_refs m))" by simp
  have "image_mset fst (mset es) = mset (map fst (map (entry (mp_objs m)) (pending_refs m)))"
    unfolding ms by (simp only: mset_map)
  moreover have "map fst (map (entry (mp_objs m)) (pending_refs m)) = pending_refs m"
    by (simp add: entry_def comp_def)
  ultimately show "image_mset fst (mset es) = mset (pending_refs m)" by (simp only:)
  show "set es \<subseteq> entry (mp_objs m) ` set (pending_refs m)" using mset_eq_setD [OF ms] by simp
qed

section \<open>Properties\<close>

text \<open>C12: in every reachable pool in which no pending transaction has fee and gas limit both
  zero, \<open>GetPending\<close> takes its transactions greedily along a list of all pending
  transactions sorted by fee per gas, highest first, ties by timestamp.\<close>

theorem GetPending_best_first:
  assumes "mempool_reachable text_len m"
    and "\<And>tx. tx \<in> set (pending m) \<Longrightarrow> tx_Fee tx \<noteq> 0 \<or> tx_GasLimit tx \<noteq> 0"
  shows "\<exists>txs. mset txs = mset (pending m) \<and> sorted (map tx_rank txs) \<and>
    snd (GetPending m k) = take_pending k (mp_maxGas m) 0 txs"
proof -
  let ?q = "\<lparr>pq_objs = mp_objs m, pq_refs = mp_queue m\<rparr>"
  let ?h = "heap_Init pqLess pqSwap (length (pq_items ?q)) ?q"
  let ?tx = "\<lambda>r. mx_Tx (mp_objs m r)"
  have inv: "mempool_inv m" by (rule reachable_mempool_inv [OF assms(1)])
  note init = heap.Init_heap [OF queue_valid [OF inv assms(2)] refl]
  have "same_objs (mp_objs m) (pq_objs ?h)"
    using same_queue_Init [of ?q] by (simp add: same_queue_def pq_items_def)
  from pending_loop_sorted [OF init(1,3) this, of k "mp_maxGas m" "[]" 0]
  obtain es where es: "mset es = filter_mset live (mset (pq_items ?q))" "sorted (map entry_rank es)"
    "snd (pending_loop k (mp_maxGas m) ?h [] 0) = take_pending k (mp_maxGas m) 0 (map (?tx \<circ> fst) es)"
    using init(2) by (auto simp: comp_def)
  note live = live_entries [OF inv es(1)]
  show ?thesis
  proof (intro exI conjI)
    show "mset (map (?tx \<circ> fst) es) = mset (pending m)"
      using live by (metis image_mset.compositionality mset_map pending_def)
    have ranks: "map tx_rank (map (?tx \<circ> fst) es) = map entry_rank es"
      using live entry_pending [OF inv] by (auto simp: entry_def)
    show "sorted (map tx_rank (map (?tx \<circ> fst) es))" unfolding ranks by (rule es(2))
    show "snd (GetPending m k) = take_pending k (mp_maxGas m) 0 (map (?tx \<circ> fst) es)"
      using es(3) by (auto simp: GetPending_def Let_def pqLen_def pq_items_def split: prod.splits)
  qed
qed

text \<open>A pool of three, in the order of arrival the worst first.\<close>

definition mk_tx :: "string \<Rightarrow> u64 \<Rightarrow> u64 \<Rightarrow> Transaction" where
  "mk_tx i fee gas = zero_transaction\<lparr>tx_Id := i, tx_Fee := fee, tx_GasLimit := gas\<rparr>"

definition add_txs :: "Transaction list \<Rightarrow> Mempool \<Rightarrow> Mempool" where
  "add_txs txs m = fold (\<lambda>tx m. fst (Mempool_Add (\<lambda>_. 0) m tx)) txs m"

lemma add_txs_reachable:
  "mempool_reachable (\<lambda>_. 0) m \<Longrightarrow> mempool_reachable (\<lambda>_. 0) (add_txs txs m)"
  unfolding add_txs_def
  by (induction txs arbitrary: m) (auto intro: mempool_reachable.step mempool_step.add)

definition pool3 :: Mempool where
  "pool3 = add_txs [mk_tx ''a'' 10 100, mk_tx ''b'' 30 100, mk_tx ''c'' 20 100] (NewMempool 250)"

lemma pool3_reachable: "mempool_reachable (\<lambda>_. 0) pool3"
  unfolding pool3_def by (intro add_txs_reachable mempool_reachable.start)

lemma pool3_pending:
  "pending pool3 = [mk_tx ''a'' 10 100, mk_tx ''b'' 30 100, mk_tx ''c'' 20 100]"
  by code_simp

theorem GetPending_best_first_witness:
  "\<exists>txs. mset txs = mset [mk_tx ''a'' 10 100, mk_tx ''b'' 30 100, mk_tx ''c'' 20 100] \<and>
     sorted (map tx_rank txs) \<and> snd (GetPending pool3 5) = take_pending 5 (mp_maxGas pool3) 0 txs"
  by (rule GetPending_best_first [OF pool3_reachable, unfolded pool3_pending])
    (auto simp: mk_tx_def)

lemma pool3_result: "map tx_Id (snd (GetPending pool3 5)) = [''b'', ''c'']"
  by code_simp

lemma pending_loop_extends: "\<exists>ts. snd (pending_loop k maxGas q txs gas) = txs @ ts"
  by (induction q txs gas rule: pending_loop_turns [where k = k and maxGas = maxGas]) auto

text \<open>
  Whatever the priorities, the word sum of the gas of what is picked never exceeds the limit
  when anything is picked.
\<close>

lemma pending_loop_gas:
  "snd (pending_loop k maxGas q txs gas) = txs @ ts \<Longrightarrow>
     ts = [] \<or> gas + sum_list (map tx_GasLimit ts) \<le> maxGas"
proof (induction q txs gas arbitrary: ts rule: pending_loop_turns [where k = k and maxGas = maxGas])
  case (take q txs gas q1 r)
  let ?tx = "mx_Tx (pq_objs q1 r)"
  obtain ts' where ts': "snd (pending_loop k maxGas q1 (txs @ [?tx]) (gas + tx_GasLimit ?tx)) = (txs @ [?tx]) @ ts'"
    using pending_loop_extends by blast
  with take(6,8) have "ts = ?tx # ts'" by simp
  with take(7) [OF ts'] take(5) show ?case by (auto simp: ac_simps not_less)
qed auto

lemma GetPending_refs:
  assumes "mempool_inv m"
  shows "\<exists>rs. distinct rs \<and> set rs \<subseteq> set (pending_refs m) \<and>
    snd (GetPending m k) = map (\<lambda>r. mx_Tx (mp_objs m r)) rs \<and> int (length rs) \<le> max 0 k"
proof -
  let ?q = "\<lparr>pq_objs = mp_objs m, pq_refs = mp_queue m\<rparr>"
  let ?h = "heap_Init pqLess pqSwap (length (mp_queue m)) ?q"
  have "same_queue ?q ?h" using same_queue_Init [of ?q] by simp
  then have h: "set (pq_refs ?h) = set (mp_queue m)" "distinct (pq_refs ?h)"
    "same_objs (mp_objs m) (pq_objs ?h)"
    using mempool_invD(2) [OF assms] mset_eq_setD [of "pq_refs ?h" "mp_queue m"]
      mset_eq_imp_distinct_iff [of "pq_refs ?h" "mp_queue m"]
    by (auto simp: same_queue_def)
  have result: "snd (GetPending m k) = snd (pending_loop k (mp_maxGas m) ?h [] 0)"
    by (simp add: GetPending_def Let_def pqLen_def split: prod.splits)
  from pending_loop_sound [OF h(2,3), of k "mp_maxGas m" "[]" 0] obtain rs where rs: "distinct rs"
    "set rs \<subseteq> {r \<in> set (mp_queue m). \<not> f64_less (mx_Priority (mp_objs m r)) (Finite 0)}"
    "snd (GetPending m k) = map (\<lambda>r. mx_Tx (mp_objs m r)) rs" "int (length rs) \<le> max 0 k"
    by (auto simp: result h(1))
  moreover have "set rs \<subseteq> set (pending_refs m)"
    using rs(2) mset_eq_setD [OF live_refs [OF assms]] by auto
  ultimately show ?thesis by blast
qed

lemma GetPending_gas_words:
  "snd (GetPending m k) = [] \<or> sum_list (map tx_GasLimit (snd (GetPending m k))) \<le> mp_maxGas m"
  using pending_loop_gas [of k "mp_maxGas m" "heap_Init pqLess pqSwap (length (mp_queue m))
      \<lparr>pq_objs = mp_objs m, pq_refs = mp_queue m\<rparr>" "[]" 0 "snd (GetPending m k)"]
  by (simp add: GetPending_def Let_def pqLen_def split: prod.splits)

lemma pending_ids: "mempool_inv m \<Longrightarrow> r \<in> set (pending_refs m) \<Longrightarrow>
    map_of (mp_txs m) (tx_Id (mx_Tx (mp_objs m r))) = Some r"
  using mempool_invD(1,6) by (fastforce simp: pending_refs_iff keys_def)

lemma GetPending_sound:
  assumes "mempool_inv m"
  shows "distinct (map tx_Id (snd (GetPending m k)))" "set (snd (GetPending m k)) \<subseteq> set (pending m)"
    "int (length (snd (GetPending m k))) \<le> max 0 k"
proof -
  obtain rs where rs: "distinct rs" "set rs \<subseteq> set (pending_refs m)"
    "snd (GetPending m k) = map (\<lambda>r. mx_Tx (mp_objs m r)) rs" "int (length rs) \<le> max 0 k"
    using GetPending_refs [OF assms] by blast
  have "inj_on (\<lambda>r. tx_Id (mx_Tx (mp_objs m r))) (set (pending_refs m))"
    using pending_ids [OF assms] by (auto intro!: inj_onI) (metis option.inject)
  then show "distinct (map tx_Id (snd (GetPending m k)))"
    using rs(1-3) by (auto simp: distinct_map comp_def intro: inj_on_subset)
  show "set (snd (GetPending m k)) \<subseteq> set (pending m)" using rs(2) by (auto simp: rs(3) pending_def)
  show "int (length (snd (GetPending m k))) \<le> max 0 k" using rs(3,4) by simp
qed

lemma GetPending_gas_sum:
  assumes "mempool_inv m" and "sum_list (map (\<lambda>tx. unat (tx_GasLimit tx)) (pending m)) < 18446744073709551616"
  shows "sum_list (map (\<lambda>tx. unat (tx_GasLimit tx)) (snd (GetPending m k))) \<le> unat (mp_maxGas m)"
proof -
  let ?gas = "\<lambda>tx. unat (tx_GasLimit tx)" and ?tx = "\<lambda>r. mx_Tx (mp_objs m r)"
  obtain rs where rs: "distinct rs" "set rs \<subseteq> set (pending_refs m)" "snd (GetPending m k) = map ?tx rs"
    using GetPending_refs [OF assms(1)] by blast
  have "sum_list (map ?gas (snd (GetPending m k))) = (\<Sum>r \<in> set rs. ?gas (?tx r))"
    using rs(1) by (simp add: rs(3) sum_list_distinct_conv_sum_set comp_def)
  also have "\<dots> \<le> (\<Sum>r \<in> set (pending_refs m). ?gas (?tx r))"
    using rs(2) by (intro sum_mono2) auto
  also have "\<dots> = sum_list (map ?gas (pending m))"
    using mempool_invD(3) [OF assms(1)] by (simp add: pending_def sum_list_distinct_conv_sum_set comp_def)
  finally have "unat (sum_list (map tx_GasLimit (snd (GetPending m k)))) = sum_list (map ?gas (snd (GetPending m k)))"
    using assms(2) by (intro unat_sum_list) simp
  then show ?thesis using GetPending_gas_words [of m k] by (auto simp: word_le_nat_alt)
qed

text \<open>C27: whatever the priorities, what \<open>GetPending\<close> returns are at most the requested
  number of pending transactions with pairwise different ids, and unless the gas limits of
  the whole pool add up to \<open>2^64\<close> their gas stays within the limit of the pool.\<close>

theorem GetPending_bounds:
  assumes "mempool_reachable text_len m"
  shows "distinct (map tx_Id (snd (GetPending m k))) \<and>
    set (snd (GetPending m k)) \<subseteq> set (pending m) \<and>
    int (length (snd (GetPending m k))) \<le> max 0 k \<and>
    (sum_list (map (\<lambda>tx. unat (tx_GasLimit tx)) (pending m)) < 18446744073709551616 \<longrightarrow>
       sum_list (map (\<lambda>tx. unat (tx_GasLimit tx)) (snd (GetPending m k))) \<le> unat (mp_maxGas m))"
  using GetPending_sound [OF reachable_mempool_inv [OF assms]] GetPending_gas_sum [OF reachable_mempool_inv [OF assms]]
  by blast

theorem GetPending_bounds_witness:
  "distinct (map tx_Id (snd (GetPending pool3 5))) \<and>
   sum_list (map (\<lambda>tx. unat (tx_GasLimit tx)) (snd (GetPending pool3 5))) \<le> unat (mp_maxGas pool3)"
proof -
  have "sum_list (map (\<lambda>tx. unat (tx_GasLimit tx)) (pending pool3)) < 18446744073709551616"
    unfolding pool3_pending by (simp add: mk_tx_def)
  then show ?thesis using GetPending_bounds [OF pool3_reachable, of 5] by blast
qed

text \<open>The gas counter wraps: a reachable pool with a gas limit of 250 lets a transaction
  of gas limit \<open>2^64 - 1\<close> through after one of gas limit 1.\<close>

theorem GetPending_gas_wraps:
  "\<exists>m. mempool_reachable (\<lambda>_. 0) m \<and> mp_maxGas m = 250 \<and>
     sum_list (map (\<lambda>tx. unat (tx_GasLimit tx)) (snd (GetPending m 5))) = 2 ^ 64"
proof (intro exI conjI)
  let ?m = "add_txs [mk_tx ''a'' 10 1, mk_tx ''b'' 30 18446744073709551615] (NewMempool 250)"
  show "mempool_reachable (\<lambda>_. 0) ?m" by (intro add_txs_reachable mempool_reachable.start)
  show "mp_maxGas ?m = 250" by code_simp
  have "map tx_GasLimit (snd (GetPending ?m 5)) = [1, 18446744073709551615]" by code_simp
  then have "sum_list (map unat (map tx_GasLimit (snd (GetPending ?m 5)))) = 2 ^ 64" by simp
  then show "sum_list (map (\<lambda>tx. unat (tx_GasLimit tx)) (snd (GetPending ?m 5))) = 2 ^ 64"
    by (simp add: comp_def)
qed

text \<open>A transaction with fee and gas limit zero has priority NaN, and the order of the
  others is lost: a reachable pool hands out a transaction that pays 0.1 per gas and leaves
  one that pays 0.3 behind.\<close>

theorem NaN_breaks_order:
  "\<exists>m a b. mempool_reachable (\<lambda>_. 0) m \<and> a \<in> set (snd (GetPending m 2)) \<and> b \<in> set (pending m) \<and>
     b \<notin> set (snd (GetPending m 2)) \<and> tx_rank b < tx_rank a \<and>
     tx_GasLimit a = tx_GasLimit b \<and> tx_Fee a < tx_Fee b"
proof (intro exI conjI)
  let ?a = "mk_tx ''a'' 10 100" and ?b = "mk_tx ''b'' 30 100"
  let ?m = "add_txs [mk_tx ''c'' 90 100, mk_tx ''n'' 0 0, ?b, ?a] (NewMempool 1000)"
  show "mempool_reachable (\<lambda>_. 0) ?m" by (intro add_txs_reachable mempool_reachable.start)
  show "?a \<in> set (snd (GetPending ?m 2))" "?b \<in> set (pending ?m)"
    "?b \<notin> set (snd (GetPending ?m 2))" by code_simp+
  show "tx_rank ?b < tx_rank ?a" by code_simp
  show "tx_GasLimit ?a = tx_GasLimit ?b" "tx_Fee ?a < tx_Fee ?b" by (simp_all add: mk_tx_def)
qed

text \<open>C14: in every reachable pool the pending transactions have pairwise different ids, the
  index finds each of them, and their number is within the capacity.\<close>

theorem mempool_consistent:
  assumes "mempool_reachable text_len m"
  shows "distinct (map tx_Id (pending m)) \<and> Mempool_Size m \<le> mp_maxSize m \<and>
    (Mempool_Get m i = Some tx \<longleftrightarrow> tx \<in> set (pending m) \<and> tx_Id tx = i)"
proof -
  have inv: "mempool_inv m" by (rule reachable_mempool_inv [OF assms])
  have "map tx_Id (pending m) = keys (mp_txs m)"
    using mempool_invD(6) [OF inv] by (auto simp: pending_def pending_refs_def keys_def)
  then have "distinct (map tx_Id (pending m))" using mempool_invD(1) [OF inv] by simp
  moreover have "Mempool_Get m i = Some tx \<longleftrightarrow> (\<exists>r. (i, r) \<in> set (mp_txs m) \<and> mx_Tx (mp_objs m r) = tx)"
    using mempool_invD(1) [OF inv] by (auto simp: Mempool_Get_def keys_def dest: map_of_SomeD)
  moreover have "tx \<in> set (pending m) \<longleftrightarrow> (\<exists>j r. (j, r) \<in> set (mp_txs m) \<and> mx_Tx (mp_objs m r) = tx)"
    by (force simp: pending_def pending_refs_def)
  ultimately have "Mempool_Get m i = Some tx \<longleftrightarrow> tx \<in> set (pending m) \<and> tx_Id tx = i"
    using mempool_invD(6) [OF inv] by auto
  moreover note \<open>distinct (map tx_Id (pending m))\<close>
  ultimately show ?thesis using mempool_invD(10) [OF inv] by (simp add: Mempool_Size_def)
qed

theorem mempool_consistent_witness:
  "distinct (map tx_Id (pending pool3)) \<and> Mempool_Get pool3 ''b'' = Some (mk_tx ''b'' 30 100)"
  using mempool_consistent [OF pool3_reachable, of "''b''" "mk_tx ''b'' 30 100"]
  unfolding pool3_pending by (simp add: mk_tx_def)

lemma frac_le_nat:
  assumes "0 < b" "0 < d" "a * d \<le> c * b"
  shows "(of_nat a / of_nat b :: rat) \<le> of_nat c / of_nat d"
proof -
  have "(of_nat a * of_nat d :: rat) \<le> of_nat c * of_nat b"
    using assms(3) by (simp flip: of_nat_mult)
  with assms(1,2) show ?thesis by (simp add: divide_le_eq le_divide_eq mult.commute)
qed

text \<open>Fees and gas limits below \<open>2^53\<close> convert exactly, and then a transaction that pays at
  least as much per gas as another never has a lower priority, in spite of the rounding of
  the quotient.\<close>

theorem priority_monotone:
  assumes "unat (tx_Fee a) < 2 ^ 53" "unat (tx_GasLimit a) < 2 ^ 53"
    "unat (tx_Fee b) < 2 ^ 53" "unat (tx_GasLimit b) < 2 ^ 53"
    and "tx_GasLimit a \<noteq> 0" "tx_GasLimit b \<noteq> 0"
    and "unat (tx_Fee a) * unat (tx_GasLimit b) \<le> unat (tx_Fee b) * unat (tx_GasLimit a)"
  shows "tx_priority a \<le> tx_priority b"
proof -
  have exact: "round53 (of_int (uint w)) = of_nat (unat w)" if "unat w < 2 ^ 53" for w :: u64
    using round53_exact [OF that] by (simp flip: uint_nat)
  let ?q = "\<lambda>t. of_nat (unat (tx_Fee t)) / of_nat (unat (tx_GasLimit t)) :: rat"
  have pos: "0 < unat (tx_GasLimit a)" "0 < unat (tx_GasLimit b)"
    using assms(5,6) by (simp_all add: unat_gt_0)
  have "?q a \<le> ?q b" using pos assms(7) by (intro frac_le_nat)
  then have "round53 (?q a) \<le> round53 (?q b)" by (intro round53_mono) (simp_all only: divide_nonneg_nonneg of_nat_0_le_iff)
  moreover have nz: "(of_nat (unat (tx_GasLimit a)) :: rat) \<noteq> 0" "(of_nat (unat (tx_GasLimit b)) :: rat) \<noteq> 0"
    using pos by (simp_all only: of_nat_eq_0_iff)
  then have "tx_priority a = Finite (round53 (?q a))" "tx_priority b = Finite (round53 (?q b))"
    unfolding tx_priority_def f64_of_u64_def exact [OF assms(1)] exact [OF assms(2)]
      exact [OF assms(3)] exact [OF assms(4)] by (simp_all only: f64_div.simps nz if_False)
  ultimately show ?thesis by simp
qed

theorem priority_monotone_witness:
  "tx_priority (mk_tx ''a'' 10 100) \<le> tx_priority (mk_tx ''b'' 30 299)"
  by (rule priority_monotone) (simp_all add: mk_tx_def)

text \<open>A removed transaction leaves the index but never the queue until a clean-up deletes
  something: the queue of an empty pool can have any length.\<close>

theorem removed_stay_queued:
  "\<exists>m. mempool_reachable (\<lambda>_. 0) m \<and> pending m = [] \<and> length (mp_queue m) = n"
proof (induction n)
  case 0
  show ?case
    by (intro exI [of _ "NewMempool 0"] conjI mempool_reachable.start)
      (simp_all add: NewMempool_def pending_def pending_refs_def)
next
  case (Suc n)
  then obtain m where m: "mempool_reachable (\<lambda>_. 0) m" "pending m = []" "length (mp_queue m) = n" by blast
  let ?tx = "mk_tx ''a'' 1 1"
  let ?m = "fst (Mempool_Add (\<lambda>_. 0) m ?tx)"
  have empty: "mp_txs m = []" using m(2) by (simp add: pending_def pending_refs_def)
  show ?case
  proof (cases "mp_maxSize m = 0")
    case True
    with mempool_maxSize [OF m(1)] show ?thesis by simp
  next
    case False
    let ?q = "heap_Push pqLen pqLess pqSwap pqPush (mp_next m)
      \<lparr>pq_objs = (mp_objs m)(mp_next m := \<lparr>mx_Tx = ?tx, mx_Priority = tx_priority ?tx,
         mx_Timestamp = tx_Timestamp ?tx, mx_Size = 0, mx_Index = 0\<rparr>), pq_refs = mp_queue m\<rparr>"
    have "mp_queue ?m = pq_refs ?q" "mp_txs ?m = [(tx_Id ?tx, mp_next m)]"
      using empty False by (simp_all add: Mempool_Add_def Let_def)
    moreover have "length (pq_refs ?q) = Suc n"
      using heap_Push_frame(1) [of "mp_next m"] m(3) by (metis size_mset size_add_mset txPriorityQueue.select_convs(2))
    ultimately have "pending (Mempool_Remove ?m (tx_Id ?tx)) = []"
      "length (mp_queue (Mempool_Remove ?m (tx_Id ?tx))) = Suc n"
      by (simp_all add: Mempool_Remove_def pending_def pending_refs_def)
    moreover have "mempool_reachable (\<lambda>_. 0) (Mempool_Remove ?m (tx_Id ?tx))"
      by (rule mempool_reachable.step [OF mempool_reachable.step [OF m(1) mempool_step.add]
            mempool_step.remove])
    ultimately show ?thesis by blast
  qed
qed

end
