(* ===== verification/NodeProps.thy ===== *)
theory NodeProps
  imports Node ExecutorProps MempoolProps
begin

text \<open>
  What the node of \<open>Node\<close> does as a whole: when a check of finality returns, what a tick does with
  the pending transactions, that nothing is ever finalized or executed, and what becomes of the
  genesis event it creates.
\<close>

section \<open>The check of finality\<close>

lemma finality_witnesses_undecided:
  "undecided (en_dag (xs_consensus st)) \<Longrightarrow> finality_witnesses E ws st = (st, Ret ())"
  by (induction ws) (simp_all add: undecided_CheckFinality)

interpretation finality: round_loop "finality_rounds E latestRound" latestRound
  "\<lambda>r st. case finality_witnesses E (GetWitnesses (en_dag (xs_consensus st)) r) st of
      (st1, Panic m) \<Rightarrow> Inr (st1, Panic m) | (st1, Ret _) \<Rightarrow> Inl st1" "\<lambda>st. (st, Ret ())"
  for E latestRound
  by unfold_locales (subst finality_rounds.simps, simp split: prod.split outcome.split)

interpretation node_finality: round_loop "node_finality_rounds latestRound" latestRound
  "\<lambda>r e. Inl (check_witnesses (GetWitnesses (en_dag e) r) e)" "\<lambda>e. e"
  for latestRound
  by unfold_locales (subst node_finality_rounds.simps, simp)

lemma finality_rounds_undecided:
  assumes "undecided (en_dag (xs_consensus st))" and "latestRound < 18446744073709551615"
  shows "finality_rounds E latestRound r st = Some (st, Ret ())"
  by (rule finality.idle_returns [OF assms(2)]) (simp add: finality_witnesses_undecided [OF assms(1)])

text \<open>The older node's check of finality, which the stand-alone program shares.\<close>

lemma check_witnesses_undecided: "undecided (en_dag e) \<Longrightarrow> check_witnesses ws e = e"
  by (induction ws) (simp_all add: check_witnesses_def undecided_CheckFinality)

theorem node_checkFinality_undecided:
  assumes "undecided (en_dag e)" and "snd (CurrentRound ks e) < 18446744073709551615"
  shows "node_checkFinality ks e = Some (fst (CurrentRound ks e))"
proof -
  have "undecided (en_dag (fst (CurrentRound ks e)))" using assms(1) by (simp add: CurrentRound_frame(1))
  then have "node_finality_rounds (snd (CurrentRound ks e)) 0 (fst (CurrentRound ks e)) = Some (fst (CurrentRound ks e))"
    by (intro node_finality.idle_returns [OF assms(2)]) (simp add: check_witnesses_undecided)
  then show ?thesis by (simp add: node_checkFinality_def case_prod_beta)
qed

lemma finality_rounds_diverges:
  assumes "undecided (en_dag (xs_consensus st))"
  shows "finality_rounds E 18446744073709551615 r st = None"
proof (rule ccontr)
  assume "finality_rounds E 18446744073709551615 r st \<noteq> None"
  then obtain out where out: "finality_rounds E 18446744073709551615 r st = Some out" by blast
  let ?idle = "\<lambda>latestRound st. latestRound = (18446744073709551615 :: u64) \<and> undecided (en_dag (xs_consensus st))"
  have "\<not> ?idle 18446744073709551615 st"
  proof (rule finality_rounds.raw_induct [where P = "\<lambda>E latestRound r st out. \<not> ?idle latestRound st", OF _ out])
    fix rec E latestRound r and st :: "'a exec_state" and out
    assume IH: "\<And>E latestRound r st out. rec E latestRound r st = Some out \<Longrightarrow> \<not> ?idle latestRound st"
      and body: "(if r \<le> latestRound
        then case finality_witnesses E (GetWitnesses (en_dag (xs_consensus st)) r) st of
            (st1, Ret x) \<Rightarrow> rec E latestRound (r + 1) st1
          | (st1, Panic m) \<Rightarrow> Some (st1, Panic m)
        else Some (st, Ret ())) = Some out"
    show "\<not> ?idle latestRound st"
    proof
      assume a: "?idle latestRound st"
      with body have "rec E latestRound (r + 1) st = Some out"
        by (simp add: finality_witnesses_undecided)
      from IH [OF this] a show False by simp
    qed
  qed
  with assms show False by simp
qed

text \<open>Up to the greatest round of all the loop ends only by a panic.\<close>

lemma finality_rounds_greatest:
  assumes "finality_rounds E 18446744073709551615 r st = Some out"
  shows "\<exists>st' m. out = (st', Panic m)"
proof -
  have "18446744073709551615 = (18446744073709551615 :: u64) \<longrightarrow> (\<exists>st' m. out = (st', Panic m))"
  proof (rule finality_rounds.raw_induct [where
        P = "\<lambda>E latestRound r st out. latestRound = 18446744073709551615 \<longrightarrow> (\<exists>st' m. out = (st', Panic m))", OF _ assms])
    fix rec E latestRound r and st :: "'a exec_state" and out
    assume IH: "\<And>E latestRound r st out. rec E latestRound r st = Some out \<Longrightarrow>
        latestRound = 18446744073709551615 \<longrightarrow> (\<exists>st' m. out = (st', Panic m))"
      and body: "(if r \<le> latestRound
        then case finality_witnesses E (GetWitnesses (en_dag (xs_consensus st)) r) st of
            (st1, Ret x) \<Rightarrow> rec E latestRound (r + 1) st1
          | (st1, Panic m) \<Rightarrow> Some (st1, Panic m)
        else Some (st, Ret ())) = Some out"
    show "latestRound = 18446744073709551615 \<longrightarrow> (\<exists>st' m. out = (st', Panic m))"
    proof
      assume last: "latestRound = 18446744073709551615"
      obtain st1 o1 where t: "finality_witnesses E (GetWitnesses (en_dag (xs_consensus st)) r) st = (st1, o1)" by fastforce
      show "\<exists>st' m. out = (st', Panic m)"
        using body IH [of E latestRound "r + 1" st1 out] by (cases o1) (auto simp: t last)
    qed
  qed
  then show ?thesis by simp
qed

lemma CurrentRound_value:
  "snd (CurrentRound ks e) = max (LatestRound ks (en_dag e)) (en_currentRound e)"
  by (auto simp: CurrentRound_def Let_def max_def)

lemma Max_is_greatest:
  assumes "finite R" and "R \<noteq> {}"
  shows "Max R = (18446744073709551615 :: u64) \<longleftrightarrow> 18446744073709551615 \<in> R"
proof
  assume "18446744073709551615 \<in> R"
  with assms(1) have "18446744073709551615 \<le> Max R" by (rule Max_ge)
  then show "Max R = 18446744073709551615" using word_le_max [of "Max R"] by simp
qed (use Max_in [OF assms] in simp)

lemma max_is_greatest: "max a b = (18446744073709551615 :: u64) \<longleftrightarrow> a = 18446744073709551615 \<or> b = 18446744073709551615"
proof (cases "a \<le> b")
  case True
  then have "a = 18446744073709551615 \<Longrightarrow> b = 18446744073709551615" using word_le_max [of b] by simp
  with True show ?thesis by (auto simp: max_def)
next
  case False
  then have "b \<noteq> 18446744073709551615" using word_le_max [of a] by auto
  with False show ?thesis by (simp add: max_def)
qed

text \<open>The greatest round of all is the current one exactly if it was before or an event claims it.\<close>

lemma CurrentRound_greatest:
  assumes "range_order ks (dg_events (en_dag e))"
  shows "snd (CurrentRound ks e) = 18446744073709551615 \<longleftrightarrow>
    en_currentRound e = 18446744073709551615 \<or>
    (\<exists>i ev. event_of (en_dag e) i = Some ev \<and> ev_Round ev = 18446744073709551615)"
proof -
  let ?R = "insert 0 (ev_Round ` ran (event_of (en_dag e)))"
  have fin: "finite ?R" by (simp add: finite_ran)
  have "LatestRound ks (en_dag e) = 18446744073709551615 \<longleftrightarrow> 18446744073709551615 \<in> ?R"
    unfolding LatestRound_Max [OF assms]
    by (rule Max_is_greatest [OF fin]) simp
  also have "\<dots> \<longleftrightarrow> (\<exists>i ev. event_of (en_dag e) i = Some ev \<and> ev_Round ev = 18446744073709551615)"
    by (auto simp: ran_def image_def)
  finally show ?thesis unfolding CurrentRound_value max_is_greatest by blast
qed

section \<open>Nothing is decided\<close>

text \<open>A method \<open>processNetworkEvents\<close>, which the repository calls for a node with a network and
  defines nowhere, that neither decides on an event nor writes to the database.\<close>

definition decides_nothing :: "(('d, 'h) NodeProduction \<Rightarrow> ('d, 'h) NodeProduction) \<Rightarrow> bool" where
  "decides_nothing f \<longleftrightarrow> (\<forall>n. np_network n \<noteq> None \<and> undecided (np_dag n) \<longrightarrow>
     undecided (np_dag (f n)) \<and> xs_db (np_exec (f n)) = xs_db (np_exec n))"

text \<open>A node that has no network never calls it.\<close>

definition offline_or :: "(('d, 'h) NodeProduction \<Rightarrow> ('d, 'h) NodeProduction) \<Rightarrow> ('d, 'h) NodeProduction \<Rightarrow> bool" where
  "offline_or pne n \<longleftrightarrow> np_network n = None \<or> decides_nothing pne"

definition idle :: "'d \<Rightarrow> ('d, 'h) NodeProduction \<Rightarrow> bool" where
  "idle db n \<longleftrightarrow> undecided (np_dag n) \<and> xs_db (np_exec n) = db"

lemma set_engine_simps [simp]:
  "np_engine (set_engine e n) = e" "xs_db (np_exec (set_engine e n)) = xs_db (np_exec n)"
  "np_mempool (set_engine e n) = np_mempool n" "np_network (set_engine e n) = np_network n"
  "np_config (set_engine e n) = np_config n"
  by (simp_all add: set_engine_def)

lemma getLatestParents_dag [simp]: "en_dag (fst (getLatestParents ks e)) = en_dag e"
  by (simp add: getLatestParents_def split: prod.split)
    (metis CurrentRound_frame(1) fst_conv)

lemma AddEvent_failed: "AddEvent d (Some event) = (d', Some err) \<Longrightarrow> d' = d"
  using AddEvent_error [of d event] AddEvent_rejected [of d event] AddEvent_accepts_iff [of d event] by auto

text \<open>What making an event does to graph and pool.\<close>

lemma processMempool_cases:
  assumes "prod_processMempool E inp n = (n', b)"
  obtains (none) m1 e2 where "m1 = fst (GetPending (np_mempool n) 100)"
      "n' = n\<lparr>np_mempool := m1\<rparr> \<or> n' = set_engine e2 (n\<lparr>np_mempool := m1\<rparr>) \<and> en_dag e2 = np_dag n"
    | (made) ev event d where "ne_sign E ev = Inr event" "AddEvent (np_dag n) (Some event) = (d, None)"
      "ev_Transactions ev = snd (GetPending (np_mempool n) 100)" "snd (GetPending (np_mempool n) 100) \<noteq> []"
      "np_dag n' = d" "xs_db (np_exec n') = xs_db (np_exec n)"
      "np_mempool n' = fold (\<lambda>tx m. Mempool_Remove m (tx_Id tx)) (snd (GetPending (np_mempool n) 100))
        (fst (GetPending (np_mempool n) 100))"
proof -
  obtain m1 txs where g: "GetPending (np_mempool n) 100 = (m1, txs)" by fastforce
  obtain e1 ps where p: "getLatestParents (ti_before inp) (np_engine n) = (e1, ps)" by fastforce
  obtain e2 r where c: "CurrentRound (ti_before inp) e1 = (e2, r)" by fastforce
  have e: "en_dag e2 = np_dag n"
    using getLatestParents_dag [of "ti_before inp" "np_engine n"] CurrentRound_frame(1) [of "ti_before inp" e1]
    by (simp add: p c)
  let ?ev = "zero_event\<lparr>ev_Id := prod_generateEventID (ti_nano inp) (ti_unix inp),
    ev_Creator := prod_getNodeID (np_config n), ev_Parents := ps, ev_Timestamp := ti_nano inp,
    ev_Round := r, ev_Transactions := txs\<rparr>"
  have pn: "np_engine (n\<lparr>np_mempool := m1\<rparr>) = np_engine n" by simp
  note def = prod_processMempool_def [of E inp n, unfolded Let_def g prod.case pn p c set_engine_simps]
  show thesis
  proof (cases "txs = []")
    case True
    with def assms have "n' = n\<lparr>np_mempool := m1\<rparr>" by simp
    with g show ?thesis using none [of m1] by simp
  next
    case False
    show ?thesis
    proof (cases "ne_sign E ?ev")
      case (Inl err)
      with def assms False have "n' = set_engine e2 (n\<lparr>np_mempool := m1\<rparr>)" by simp
      with g e show ?thesis using none [of m1 e2] by simp
    next
      case (Inr event)
      obtain d err where a: "AddEvent (en_dag e2) (Some event) = (d, err)" by fastforce
      show ?thesis
      proof (cases err)
        case None
        with def assms False Inr a have "n' = set_engine (e2\<lparr>en_dag := d\<rparr>) (set_engine e2 (n\<lparr>np_mempool := m1\<rparr>))
            \<lparr>np_mempool := fold (\<lambda>tx m. Mempool_Remove m (tx_Id tx)) txs m1\<rparr>"
          by simp
        then show ?thesis using made [OF Inr, of d] a None False g e by simp
      next
        case (Some x)
        have "d = np_dag n" using AddEvent_failed a Some e by metis
        with def assms False Inr a Some have "n' = set_engine (e2\<lparr>en_dag := np_dag n\<rparr>) (n\<lparr>np_mempool := m1\<rparr>)"
          by (simp add: set_engine_def)
        then show ?thesis using none [of m1 "e2\<lparr>en_dag := np_dag n\<rparr>"] g by simp
      qed
    qed
  qed
qed

lemma idle_processMempool:
  assumes "idle db n" shows "idle db (fst (prod_processMempool E inp n))"
proof -
  obtain n' b where p: "prod_processMempool E inp n = (n', b)" by fastforce
  from p show ?thesis
  proof (cases rule: processMempool_cases)
    case (none m1 e2)
    then show ?thesis using assms p by (auto simp: idle_def)
  next
    case (made ev event d)
    then show ?thesis
      using assms p undecided_AddEvent [of "np_dag n" "Some event"] by (simp add: idle_def)
  qed
qed

lemma processMempool_network [simp]: "np_network (fst (prod_processMempool E inp n)) = np_network n"
  by (simp add: prod_processMempool_def Let_def split: prod.split sum.split option.split)

lemma cleanup_network [simp]: "np_network (prod_cleanup n) = np_network n"
  by (simp add: prod_cleanup_def)

lemma idle_cleanup: "idle db n \<Longrightarrow> idle db (prod_cleanup n)"
  by (simp add: idle_def prod_cleanup_def)

lemma checkFinality_idle:
  assumes "undecided (en_dag (xs_consensus st))" and "prod_checkFinality E ks st = Some (st1, o1)"
  shows "o1 = Ret () \<and> en_dag (xs_consensus st1) = en_dag (xs_consensus st) \<and> xs_db st1 = xs_db st"
proof -
  obtain e1 r where c: "CurrentRound ks (xs_consensus st) = (e1, r)" by fastforce
  have e1: "en_dag e1 = en_dag (xs_consensus st)" using CurrentRound_frame(1) [of ks "xs_consensus st"] by (simp add: c)
  let ?st = "st\<lparr>xs_consensus := e1\<rparr>"
  have u: "undecided (en_dag (xs_consensus ?st))" using assms(1) e1 by simp
  have "r \<noteq> 18446744073709551615"
    using assms(2) finality_rounds_diverges [OF u, of E 0] by (auto simp: prod_checkFinality_def c)
  then have "r < 18446744073709551615" using word_le_max [of r] by (simp add: order_less_le)
  from finality_rounds_undecided [OF u this, of E 0] assms(2) e1 show ?thesis
    by (auto simp: prod_checkFinality_def c)
qed

lemma idle_tick:
  assumes "offline_or pne n" and "idle db n" and "processTick E pne inp n = Some (n', r)"
  shows "idle db n' \<and> r = Ret () \<and> (np_network n = None \<longrightarrow> np_network n' = None)"
proof -
  let ?n1 = "fst (prod_processMempool E inp n)"
  have i1: "idle db ?n1" using assms(2) by (rule idle_processMempool)
  obtain st o1 where f: "prod_checkFinality (ne_exec E) (ti_after inp) (np_exec ?n1) = Some (st, o1)"
    using assms(3) by (auto simp: processTick_def Let_def split: option.splits)
  from checkFinality_idle [OF _ f] i1 have st: "o1 = Ret ()" "idle db (?n1\<lparr>np_exec := st\<rparr>)"
    by (simp_all add: idle_def)
  let ?n2 = "?n1\<lparr>np_exec := st\<rparr>"
  have "n' = prod_cleanup (if np_network ?n2 \<noteq> None then pne ?n2 else ?n2)" "r = Ret ()"
    using assms(3) f st(1) by (simp_all add: processTick_def Let_def)
  moreover have "idle db (pne ?n2)" if "np_network ?n2 \<noteq> None"
    using assms(1) st(2) that by (auto simp: offline_or_def decides_nothing_def idle_def)
  ultimately show ?thesis using st(2) idle_cleanup by auto
qed

section \<open>Steps\<close>

text \<open>
  Whatever happens to a node: its start and stop, its ticks, events that come from the network or
  the sync and are put into the graph, with or without the engine's loop, calls of
  \<open>CheckFinality\<close>, the engine's own stop, every operation on the pool and on the network.
  \<open>DetermineFame\<close> is none of them: only tests call it.
\<close>

inductive prod_step :: "'d node_env \<Rightarrow> (('d, 'h) NodeProduction \<Rightarrow> ('d, 'h) NodeProduction) \<Rightarrow>
    ('d, 'h) NodeProduction \<Rightarrow> ('d, 'h) NodeProduction \<Rightarrow> bool" for E pne where
  starts: "prod_step E pne n (fst (prod_Start A n))"
| stops: "prod_Stop close_host n = Ret n' \<Longrightarrow> prod_step E pne n n'"
| tick: "processTick E pne inp n = Some (n', r) \<Longrightarrow> prod_step E pne n n'"
| insert: "prod_step E pne n (set_engine ((np_engine n)\<lparr>en_dag := fst (AddEvent (np_dag n) ev)\<rparr>) n)"
| receive: "prod_step E pne n (set_engine (fst (ReceiveEvent (np_engine n) ev)) n)"
| loop: "process_event (np_engine n) ev = Ret e' \<Longrightarrow> prod_step E pne n (set_engine e' n)"
| check: "prod_step E pne n (set_engine (fst (CheckFinality (np_engine n) i)) n)"
| engine_stops: "StopEngine (np_engine n) = Ret e \<Longrightarrow> prod_step E pne n (set_engine e n)"
| pool: "mempool_step text_len (np_mempool n) m \<Longrightarrow> prod_step E pne n (n\<lparr>np_mempool := m\<rparr>)"
| network: "np_network n = Some net \<Longrightarrow> net_step L ue ut net net' \<Longrightarrow> prod_step E pne n (n\<lparr>np_network := Some net'\<rparr>)"

lemma idle_Start:
  "idle db n \<Longrightarrow> idle db (fst (prod_Start A n)) \<and> (np_network n = None \<longrightarrow> np_network (fst (prod_Start A n)) = None)"
  by (simp add: prod_Start_def idle_def Let_def split: option.split prod.split)

lemma idle_Stop:
  assumes "prod_Stop c n = Ret n'" and "idle db n"
  shows "idle db n' \<and> (np_network n = None \<longrightarrow> np_network n' = None)"
  using assms
  by (auto simp: prod_Stop_def stop_network_def stop_mempool_def stop_consensus_def StopEngine_def idle_def
      bind_outcome_Ret split: if_splits option.splits)

lemma idle_step: "prod_step E pne n n' \<Longrightarrow> offline_or pne n \<Longrightarrow> idle db n \<Longrightarrow> offline_or pne n' \<and> idle db n'"
proof (induction rule: prod_step.induct)
  case (starts n A)
  then show ?case using idle_Start [of db n A] by (auto simp: offline_or_def)
next
  case (stops c n n')
  then show ?case using idle_Stop [OF stops(1,3)] by (auto simp: offline_or_def)
next
  case (tick inp n n' r)
  show ?case using idle_tick [OF tick(2,3,1)] tick(2) by (auto simp: offline_or_def)
next
  case (loop n ev e')
  then show ?case using undecided_process_event [OF _ loop(1)] by (simp add: idle_def offline_or_def)
qed (auto simp: idle_def offline_or_def undecided_AddEvent undecided_CheckFinality StopEngine_def split: if_splits)

interpretation idle_nodes: keeping_steps "prod_step E pne" "\<lambda>n. offline_or pne n \<and> idle db n" for E pne db
  by unfold_locales (elim conjE, rule idle_step)

lemma idle_steps: "(prod_step E pne)\<^sup>*\<^sup>* n n' \<Longrightarrow> offline_or pne n \<Longrightarrow> idle db n \<Longrightarrow> idle db n'"
  using idle_nodes.run [where E = E and pne = pne and db = db and s = n and s' = n'] by simp

lemma idle_loadGenesis:
  assumes "loadGenesis E F n = Ret (n', err)" and "idle db n" shows "idle db n'"
proof -
  have "idle db (set_engine (fst (CheckFinality ((np_engine n)\<lparr>en_dag := fst (AddEvent (np_dag n) ev)\<rparr>) i)) n)" for ev i
    using assms(2) undecided_AddEvent [of "np_dag n" ev] by (simp add: idle_def undecided_CheckFinality)
  then show ?thesis
    using assms
    by (cases "prod_genesis_file E F (np_config n)") (auto simp: loadGenesis_def Let_def split: sum.splits)
qed

lemma idle_loaded:
  assumes "bind_outcome (loadGenesis E F n0) (\<lambda>(n, err). Ret (Inr n)) = Ret (Inr n)" and "idle db n0"
  shows "idle db n"
proof (cases "loadGenesis E F n0")
  case (Ret p)
  then show ?thesis using assms idle_loadGenesis [of E F n0 n] by (cases p) auto
qed (use assms in simp)

lemma idle_NewNodeProduction:
  fixes n :: "('d, 'h) NodeProduction"
  assumes "NewNodeProduction E home mkdir (Inr store) F cfg = Ret (Inr n)"
  shows "idle store n"
proof -
  obtain net :: "'h P2PNetwork option" where net: "new_network cfg = Inr net"
    using assms by (cases "new_network cfg :: string + 'h P2PNetwork option")
      (auto simp: NewNodeProduction_def NewStore_def NewLevelDBEngine_def Let_def split: option.split_asm)
  then show ?thesis
    using assms idle_loaded [of E F "\<lparr>np_config = cfg,
        np_exec = \<lparr>xs_db = store, xs_consensus = NewConsensusEngine NewDAG\<rparr>,
        np_mempool = NewMempool (cs_MaxGasPerRound (cf_Consensus cfg)), np_network = net,
        np_apiServer = ap_Enabled (cf_API cfg), np_running = False\<rparr>" n store]
    by (simp add: NewNodeProduction_def NewStore_def NewLevelDBEngine_def Let_def idle_def NewConsensusEngine_def
        split: option.split_asm)
qed

section \<open>Pool and graph\<close>

lemma Mempool_Remove_ids: "distinct (keys (mp_txs m)) \<Longrightarrow>
    set (keys (mp_txs (Mempool_Remove m i))) = set (keys (mp_txs m)) - {i} \<and> distinct (keys (mp_txs (Mempool_Remove m i)))"
  by (auto simp: Mempool_Remove_def map_of_None_keys keys_delete distinct_keys_delete split: option.split)

lemma remove_all_ids: "distinct (keys (mp_txs m)) \<Longrightarrow>
    set (keys (mp_txs (fold (\<lambda>tx m. Mempool_Remove m (tx_Id tx)) txs m))) = set (keys (mp_txs m)) - tx_Id ` set txs"
proof (induction txs arbitrary: m)
  case (Cons tx txs)
  from Mempool_Remove_ids [OF Cons.prems, of "tx_Id tx"] show ?case
    using Cons.IH [of "Mempool_Remove m (tx_Id tx)"] by auto
qed simp

section \<open>A node for the witnesses\<close>

definition sample_node_env :: "(bytes \<rightharpoonup> bytes) node_env" where
  "sample_node_env = \<lparr>ne_exec = sample_env, ne_sign = (\<lambda>e. Inr e), ne_marshalEvent = (\<lambda>_. Inr [1]),
     ne_unmarshalEvent = (\<lambda>_. Inr (prod_createGenesisEvent DefaultConfig 100000000000000 0))\<rparr>"

definition sample_files :: genesis_files where
  "sample_files = \<lparr>gf_missing = True, gf_write = None,
     gf_read = (\<lambda>w. case w of None \<Rightarrow> Inl ''no such file'' | Some d \<Rightarrow> Inr d), gf_now = 0\<rparr>"

definition sample_tick :: tick_inputs where
  "sample_tick = \<lparr>ti_nano = 1, ti_unix = 0, ti_before = [], ti_after = [], ti_publish = None\<rparr>"

definition new_node :: "(bytes \<rightharpoonup> bytes, unit) NodeProduction" where
  "new_node = (case NewNodeProduction sample_node_env ''/home/u'' None (Inr Map.empty) sample_files DefaultConfig of
     Ret (Inr n) \<Rightarrow> n)"

lemma new_network_default: "\<exists>net. (new_network DefaultConfig :: string + 'h P2PNetwork option) = Inr net"
  by (simp add: new_network_def NewP2PNetwork_def DefaultConfig_def)

lemma new_node_created:
  "NewNodeProduction sample_node_env ''/home/u'' None (Inr Map.empty) sample_files DefaultConfig = Ret (Inr new_node)"
proof -
  obtain net where "(new_network DefaultConfig :: string + unit P2PNetwork option) = Inr net"
    using new_network_default by blast
  then have "\<exists>n :: (bytes \<rightharpoonup> bytes, unit) NodeProduction.
      NewNodeProduction sample_node_env ''/home/u'' None (Inr Map.empty) sample_files DefaultConfig = Ret (Inr n)"
    by (simp add: NewNodeProduction_def NewStore_def NewLevelDBEngine_def Let_def loadGenesis_def
        prod_genesis_file_def mustMarshal_def sample_node_env_def sample_files_def)
  then show ?thesis by (auto simp: new_node_def)
qed

section \<open>Properties\<close>

text \<open>C15: no code of the repository finalizes or executes anything. From its construction on, through
  any sequence of starts, stops, ticks, incoming events and operations on pool and network, a
  production node has no famous and no final event, every call of \<open>CheckFinality\<close> answers no, and
  the database is the one it was opened with. The one way out is stated: a node with a network
  calls \<open>processNetworkEvents\<close>, which the repository defines nowhere, and nothing is assumed of it,
  so the node may decide or write only if that method, started on some node with a network and an
  undecided graph, does so itself. Fame, without which nothing is final, is only ever determined
  in tests.\<close>

theorem nothing_executed:
  assumes "NewNodeProduction E home mkdir (Inr store) F cfg = Ret (Inr n0)" and "(prod_step E pne)\<^sup>*\<^sup>* n0 n"
  shows "xs_db (np_exec n) = store \<and>
      (\<forall>i. \<not> dg_famous (np_dag n) i \<and> \<not> dg_finalized (np_dag n) i \<and> \<not> snd (CheckFinality (np_engine n) i)) \<or>
    np_network n0 \<noteq> None \<and> (\<exists>m. np_network m \<noteq> None \<and> undecided (np_dag m) \<and>
      (\<not> undecided (np_dag (pne m)) \<or> xs_db (np_exec (pne m)) \<noteq> xs_db (np_exec m)))"
proof (cases "offline_or pne n0")
  case True
  have "idle store n" using idle_steps [OF assms(2) True] idle_NewNodeProduction [OF assms(1)] by blast
  then show ?thesis by (simp add: idle_def undecided_CheckFinality) (simp add: undecided_def)
next
  case False
  then show ?thesis by (auto simp: offline_or_def decides_nothing_def)
qed

theorem nothing_executed_witness:
  "\<not> snd (CheckFinality (np_engine (set_engine ((np_engine new_node)\<lparr>en_dag :=
     fst (AddEvent (np_dag new_node) (Some (mk_event ''x'' ''v'' [''genesis-event-1''] 1)))\<rparr>) new_node)) ''genesis-event-1'')"
proof -
  let ?n = "set_engine ((np_engine new_node)\<lparr>en_dag :=
     fst (AddEvent (np_dag new_node) (Some (mk_event ''x'' ''v'' [''genesis-event-1''] 1)))\<rparr>) new_node"
  have "(prod_step sample_node_env (\<lambda>n. n))\<^sup>*\<^sup>* new_node ?n"
    by (rule r_into_rtranclp) (rule prod_step.insert)
  from nothing_executed [OF new_node_created this] show ?thesis by blast
qed

text \<open>C17: one event stops the node. The check of finality that every tick runs returns if neither the
  current round nor the round of an event in the graph is the greatest 64-bit number. Otherwise
  the loop over the rounds wraps: the check never returns, it can only be cut short by a panic in
  the execution of a finalized event; and in an undecided graph, where nothing is executed, it
  runs forever.\<close>

theorem checkFinality_returns:
  assumes "range_order ks (dg_events (en_dag (xs_consensus st)))"
  shows "if en_currentRound (xs_consensus st) = 18446744073709551615 \<or>
      (\<exists>i ev. event_of (en_dag (xs_consensus st)) i = Some ev \<and> ev_Round ev = 18446744073709551615)
    then (\<forall>st' u. prod_checkFinality E ks st \<noteq> Some (st', Ret u)) \<and>
      (prod_checkFinality E ks st = None \<or> \<not> undecided (en_dag (xs_consensus st)))
    else \<exists>res. prod_checkFinality E ks st = Some res"
proof -
  obtain e1 r where c: "CurrentRound ks (xs_consensus st) = (e1, r)" by fastforce
  let ?st = "st\<lparr>xs_consensus := e1\<rparr>"
  have e1: "en_dag (xs_consensus ?st) = en_dag (xs_consensus st)"
    using CurrentRound_frame(1) [of ks "xs_consensus st"] by (simp add: c)
  note greatest = CurrentRound_greatest [OF assms, unfolded c snd_conv, symmetric]
  show ?thesis
  proof (cases "r = 18446744073709551615")
    case True
    have "\<not> undecided (en_dag (xs_consensus st))" if "prod_checkFinality E ks st \<noteq> None"
      using finality_rounds_diverges [of ?st E 0] that e1 True by (auto simp: prod_checkFinality_def c)
    moreover have "prod_checkFinality E ks st \<noteq> Some (st', Ret u)" for st' u
      using finality_rounds_greatest [of E 0 ?st "(st', Ret u)"] True by (auto simp: prod_checkFinality_def c)
    ultimately show ?thesis using True greatest by auto
  next
    case False
    then have "r < 18446744073709551615" using word_le_max [of r] by (simp add: order_less_le)
    then have "\<exists>res. prod_checkFinality E ks st = Some res"
      unfolding prod_checkFinality_def c Let_def prod.case by (rule finality.returns)
    then show ?thesis using False greatest by auto
  qed
qed

definition poisoned :: "(bytes \<rightharpoonup> bytes) exec_state" where
  "poisoned = \<lparr>xs_db = Map.empty, xs_consensus = (NewConsensusEngine NewDAG)\<lparr>en_dag :=
     fst (AddEvent NewDAG (Some (mk_event ''x'' ''v'' [] 18446744073709551615)))\<rparr>\<rparr>"

lemma poisoned_event:
  "event_of (en_dag (xs_consensus poisoned)) ''x'' = Some (stored NewDAG (mk_event ''x'' ''v'' [] 18446744073709551615))"
  using AddEvent_events [of NewDAG "mk_event ''x'' ''v'' [] 18446744073709551615"]
  by (simp add: poisoned_def accepts_def)

theorem checkFinality_returns_witness: "prod_checkFinality sample_env [''x''] poisoned = None"
proof -
  have "range_order [''x''] (dg_events (en_dag (xs_consensus poisoned)))"
    by (simp add: poisoned_def range_order_def keys_def AddEvent_def Let_def set_event_def NewDAG_def)
  moreover have "undecided (en_dag (xs_consensus poisoned))"
    by (simp add: poisoned_def undecided_AddEvent)
  moreover have "\<exists>i ev. event_of (en_dag (xs_consensus poisoned)) i = Some ev \<and> ev_Round ev = 18446744073709551615"
    using poisoned_event by fastforce
  ultimately show ?thesis using checkFinality_returns [of "[''x'']" poisoned sample_env] by (simp split: if_splits)
qed


definition one_tx :: Transaction where
  "one_tx = zero_transaction\<lparr>tx_Id := ''t'', tx_Fee := 1, tx_GasLimit := 1\<rparr>"

definition busy_node :: "(bytes \<rightharpoonup> bytes, unit) NodeProduction" where
  "busy_node = \<lparr>np_config = DefaultConfig, np_exec = \<lparr>xs_db = Map.empty, xs_consensus = NewConsensusEngine NewDAG\<rparr>,
     np_mempool = fst (Mempool_Add (\<lambda>_. 0) (NewMempool 100) one_tx), np_network = None,
     np_apiServer = False, np_running = True\<rparr>"

lemma busy_node_taken:
  "mp_txs (np_mempool (fst (prod_processMempool sample_node_env sample_tick busy_node))) \<noteq> mp_txs (np_mempool busy_node)"
  by code_simp


text \<open>A node that finds no genesis file writes an event of its own, which the validation of
  \<open>genesis.go\<close> refuses, and takes it for final: it calls \<open>CheckFinality\<close>, logs that the genesis is
  finalized, and ignores the answer no. The event's marks of fame and finality are overwritten.\<close>

theorem created_genesis_not_final:
  assumes "gf_missing F" and "gf_write F = None" and "\<And>d. gf_read F (Some d) = Inr d"
    and "ne_marshalEvent E (prod_createGenesisEvent (np_config n) 100000000000000 (gf_now F)) = Inr data"
    and "ne_unmarshalEvent E data = Inr (prod_createGenesisEvent (np_config n) 100000000000000 (gf_now F))"
    and "undecided (np_dag n)" and "event_of (np_dag n) ''genesis-event-1'' = None"
  shows "\<exists>n' e. loadGenesis E F n = Ret (n', None) \<and> event_of (np_dag n') ''genesis-event-1'' = Some e \<and>
    ev_Metadata e = Some (zero_metadata\<lparr>md_IsWitness := True\<rparr>) \<and> \<not> dg_finalized (np_dag n') ''genesis-event-1'' \<and>
    ValidateGenesis (prod_createGenesisEvent (np_config n) 100000000000000 (gf_now F)) =
      Some ''genesis missing validator set''"
proof -
  let ?g = "prod_createGenesisEvent (np_config n) 100000000000000 (gf_now F)"
  have g: "ev_Id ?g = ''genesis-event-1''" "ev_Parents ?g = []" by (simp_all add: prod_createGenesisEvent_def)
  have acc: "accepts (np_dag n) ?g" using assms(7) g by (simp add: accepts_def)
  let ?d = "fst (AddEvent (np_dag n) (Some ?g))"
  have u: "undecided ?d" using assms(6) by (rule undecided_AddEvent)
  have "fresh_witness (np_dag n) ?g" using g by (simp add: fresh_witness_def)
  then have e: "event_of ?d ''genesis-event-1'' = Some (?g\<lparr>ev_Metadata := Some (zero_metadata\<lparr>md_IsWitness := True\<rparr>)\<rparr>)"
    using AddEvent_events [OF acc] g by (simp add: stored_def)
  have "loadGenesis E F n = Ret (set_engine ((np_engine n)\<lparr>en_dag := ?d\<rparr>) n, None)"
    using assms(1-5) u by (simp add: loadGenesis_def prod_genesis_file_def mustMarshal_def Let_def undecided_CheckFinality)
  moreover have "ValidateGenesis ?g = Some ''genesis missing validator set''"
    by (simp add: ValidateGenesis_def prod_createGenesisEvent_def)
  ultimately show ?thesis
    using e u by (intro exI conjI) (auto simp: undecided_def)
qed

theorem created_genesis_not_final_witness:
  "ValidateGenesis (prod_createGenesisEvent DefaultConfig 100000000000000 0) = Some ''genesis missing validator set'' \<and>
   (\<exists>n'. loadGenesis sample_node_env sample_files busy_node = Ret (n', None) \<and>
      \<not> dg_finalized (np_dag n') ''genesis-event-1'')"
  using created_genesis_not_final [of sample_files sample_node_env busy_node "[1]"]
  by (auto simp: sample_files_def sample_node_env_def busy_node_def NewConsensusEngine_def)

text \<open>The parents of a new event are the last two witnesses of the round, and none if there are
  fewer than two: the loop starts at minus one when there is one.\<close>

lemma parents_loop_drop: "i \<le> length ws \<Longrightarrow> parents_loop ws (int i) = map ev_Id (drop i ws)"
proof (induction "length ws - i" arbitrary: i)
  case 0
  then show ?case by (subst parents_loop.simps) simp
next
  case (Suc k)
  then have "i < length ws" by simp
  moreover have "parents_loop ws (int i + 1) = map ev_Id (drop (Suc i) ws)"
    using Suc(1) [of "Suc i"] Suc(2,3) by (simp add: ac_simps)
  ultimately show ?case by (subst parents_loop.simps) (simp add: Cons_nth_drop_Suc [symmetric])
qed

theorem latest_parents:
  "snd (getLatestParents ks e) =
     (let ws = GetWitnesses (en_dag e) (snd (CurrentRound ks e)) in
      if length ws < 2 then [] else map ev_Id (drop (length ws - 2) ws))"
proof -
  obtain e1 r where c: "CurrentRound ks e = (e1, r)" by fastforce
  have e1: "en_dag e1 = en_dag e" using CurrentRound_frame(1) [of ks e] by (simp add: c)
  have neg: "parents_loop ws (- 1) = []" for ws by (subst parents_loop.simps) simp
  have "parents_loop ws (int (length ws) - 2) = (if length ws < 2 then [] else map ev_Id (drop (length ws - 2) ws))"
    if "ws \<noteq> []" for ws
  proof (cases "length ws < 2")
    case True
    with that have "int (length ws) - 2 = - 1" by (cases ws) auto
    then show ?thesis using True by (simp only: neg) simp
  next
    case False
    then show ?thesis using parents_loop_drop [of "length ws - 2" ws] by (simp add: of_nat_diff)
  qed
  then show ?thesis by (auto simp: getLatestParents_def c e1 Let_def)
qed

text \<open>The cleanup never clears the pool: its capacity is the limit the cleanup tests.\<close>

lemma cleanup_never_clears:
  assumes "mempool_reachable text_len (np_mempool n)" shows "prod_cleanup n = n"
proof -
  have "Mempool_Size (np_mempool n) \<le> 10000"
    using mempool_invD(10) [OF reachable_mempool_inv [OF assms]] mempool_maxSize [OF assms]
    by (simp add: Mempool_Size_def)
  then show ?thesis by (simp add: prod_cleanup_def)
qed

end
