(* ===== verification/Progress.thy ===== *)
theory Progress
  imports NodeProps LogSpec
begin

text \<open>
  That finality is reached: when rounds grow along the graph, one check of finality of a node
  finalizes every event that is famous with all its ancestors.
\<close>

section \<open>One round\<close>

definition rounds_grow :: "DAG \<Rightarrow> bool" where
  "rounds_grow d \<longleftrightarrow> (\<forall>i e p e'. event_of d i = Some e \<longrightarrow> p \<in> set (ev_Parents e) \<longrightarrow> event_of d p = Some e' \<longrightarrow>
     ev_Round e' < ev_Round e)"

definition accepted :: "DAG \<Rightarrow> string \<Rightarrow> bool" where
  "accepted d i \<longleftrightarrow> (\<forall>j \<in> insert i (GetAncestors d i). dg_famous d j)"

text \<open>Checks of finality change neither the graph nor fame.\<close>

definition same_graph :: "DAG \<Rightarrow> DAG \<Rightarrow> bool" where
  "same_graph d d' \<longleftrightarrow> dag_inv d' \<and> parent_rel d' = parent_rel d \<and> dg_famous d' = dg_famous d \<and>
     dg_witnesses d' = dg_witnesses d \<and> (\<forall>i. event_of d' i = None \<longleftrightarrow> event_of d i = None)"

lemma same_graph_ancestors: "same_graph d d' \<Longrightarrow> GetAncestors d' i = GetAncestors d i"
  by (simp add: same_graph_def GetAncestors_eq)

lemma CheckFinality_same_graph:
  assumes "same_graph d (en_dag e)"
  shows "same_graph d (en_dag (fst (CheckFinality e i))) \<and>
    finalized_set (en_dag e) \<subseteq> finalized_set (en_dag (fst (CheckFinality e i)))"
  using CheckFinality_cases [of e i]
proof (elim disjE exE conjE)
  fix event
  assume ev: "event_of (en_dag e) i = Some event" and result: "fst (CheckFinality e i) = e\<lparr>en_dag :=
        set_metadata ((en_dag e)\<lparr>dg_finalized := (dg_finalized (en_dag e))(i := True)\<rparr>) i
          ((metadata_of event)\<lparr>md_IsFinalized := True\<rparr>)\<rparr>"
  let ?d = "en_dag (fst (CheckFinality e i))"
  have "dag_inv ?d" using dag_inv_finalize [OF _ ev] assms by (simp add: result same_graph_def)
  moreover have "parent_rel ?d = parent_rel (en_dag e)"
    by (auto simp: result parent_rel_def event_of_set_metadata split: if_splits)
  moreover have "dg_famous ?d = dg_famous (en_dag e)" "dg_witnesses ?d = dg_witnesses (en_dag e)"
    "\<forall>j. event_of ?d j = None \<longleftrightarrow> event_of (en_dag e) j = None"
    "finalized_set (en_dag e) \<subseteq> finalized_set ?d"
    by (auto simp: result event_of_set_metadata finalized_set_def)
  ultimately show ?thesis using assms by (simp add: same_graph_def)
qed (use assms in simp)

lemma CheckFinality_finalizes:
  assumes "event_of (en_dag e) i \<noteq> None" and "dg_famous (en_dag e) i" and "GetAncestors (en_dag e) i \<subseteq> finalized_set (en_dag e)"
  shows "i \<in> finalized_set (en_dag (fst (CheckFinality e i)))"
  using assms by (auto simp: CheckFinality_def Let_def finalized_set_def split: option.splits)

lemma check_witnesses_finalizes:
  assumes "same_graph d (en_dag e)"
  shows "same_graph d (en_dag (check_witnesses ws e)) \<and> finalized_set (en_dag e) \<subseteq> finalized_set (en_dag (check_witnesses ws e)) \<and>
    (\<forall>i \<in> ev_Id ` set ws. event_of d i \<noteq> None \<longrightarrow> dg_famous d i \<longrightarrow> GetAncestors d i \<subseteq> finalized_set (en_dag e) \<longrightarrow>
       i \<in> finalized_set (en_dag (check_witnesses ws e)))"
  using assms
proof (induction ws arbitrary: e)
  case (Cons w ws)
  let ?e = "fst (CheckFinality e (ev_Id w))"
  note one = CheckFinality_same_graph [OF Cons.prems, of "ev_Id w"]
  note rest = Cons.IH [OF conjunct1 [OF one]]
  have c: "check_witnesses (w # ws) e = check_witnesses ws ?e" by (simp add: check_witnesses_def)
  have "ev_Id w \<in> finalized_set (en_dag ?e)"
    if "event_of d (ev_Id w) \<noteq> None" "dg_famous d (ev_Id w)" "GetAncestors d (ev_Id w) \<subseteq> finalized_set (en_dag e)"
    using that Cons.prems CheckFinality_finalizes [of e "ev_Id w"] same_graph_ancestors [OF Cons.prems]
    by (simp add: same_graph_def)
  with one rest show ?case unfolding c by (auto 0 3)
qed (simp add: check_witnesses_def)

section \<open>All rounds\<close>

lemma famous_stored:
  assumes "finality_inv d" and "dg_famous d i"
  obtains e where "event_of d i = Some e" "i \<in> set (slice_at (dg_witnesses d) (ev_Round e))"
proof -
  from assms obtain r where r: "i \<in> set (slice_at (dg_witnesses d) r)"
    by (auto simp: finality_inv_def is_witness_def)
  with assms(1) dag_inv_witness [of d i r] that show thesis by (auto simp: finality_inv_def)
qed

lemma accepted_ancestor: "accepted d i \<Longrightarrow> a \<in> GetAncestors d i \<Longrightarrow> accepted d a"
  by (auto simp: accepted_def GetAncestors_eq)

lemma ancestor_lower:
  assumes "finality_inv d" and "rounds_grow d" and "accepted d i" and "event_of d i = Some ei"
    and "a \<in> GetAncestors d i" and "event_of d a = Some ea"
  shows "ev_Round ea < ev_Round ei"
proof -
  have "(i, a) \<in> (parent_rel d)\<^sup>+" using assms(5) by (simp add: GetAncestors_eq)
  then show ?thesis
    using assms(6)
  proof (induction a arbitrary: ea rule: trancl_induct)
    case (base a)
    then show ?case using assms(2,4) by (auto simp: parent_rel_def rounds_grow_def)
  next
    case (step a b)
    have "dg_famous d a" using step.hyps(1) assms(3) by (auto simp: accepted_def GetAncestors_eq)
    then obtain e where e: "event_of d a = Some e" by (rule famous_stored [OF assms(1)])
    then have "ev_Round ea < ev_Round e"
      using step.hyps(2) step.prems assms(2) by (auto simp: parent_rel_def rounds_grow_def)
    with step.IH [OF e] show ?case by simp
  qed
qed

definition finalized_below :: "DAG \<Rightarrow> u64 \<Rightarrow> Engine \<Rightarrow> bool" where
  "finalized_below d r e \<longleftrightarrow> same_graph d (en_dag e) \<and>
     (\<forall>i x. accepted d i \<longrightarrow> event_of d i = Some x \<longrightarrow> ev_Round x < r \<longrightarrow> i \<in> finalized_set (en_dag e))"

lemma finalized_below_next:
  assumes "finality_inv d" and "rounds_grow d" and "r < 18446744073709551615" and "finalized_below d r e"
  shows "finalized_below d (r + 1) (check_witnesses (GetWitnesses (en_dag e) r) e)"
proof -
  let ?ws = "GetWitnesses (en_dag e) r"
  have same: "same_graph d (en_dag e)" using assms(4) by (simp add: finalized_below_def)
  note checked = check_witnesses_finalizes [OF same, of ?ws]
  have "i \<in> finalized_set (en_dag (check_witnesses ?ws e))"
    if i: "accepted d i" "event_of d i = Some x" "ev_Round x < r + 1" for i x
  proof (cases "ev_Round x < r")
    case True
    then show ?thesis using i checked assms(4) by (auto simp: finalized_below_def)
  next
    case False
    with i(3) have x: "ev_Round x = r"
      using unat_next_word [OF assms(3)] by (simp add: word_less_nat_alt word_unat_eq_iff)
    have famous: "dg_famous d i" using i(1) by (simp add: accepted_def)
    then have "i \<in> set (slice_at (dg_witnesses d) r)"
      using famous_stored [OF assms(1)] i(2) x by (metis option.inject)
    also have "slice_at (dg_witnesses d) r = map ev_Id ?ws"
      using GetWitnesses_ids [of "en_dag e" r] same by (simp add: same_graph_def)
    finally have "i \<in> ev_Id ` set ?ws" by simp
    moreover have "GetAncestors d i \<subseteq> finalized_set (en_dag e)"
    proof
      fix a assume a: "a \<in> GetAncestors d i"
      then have acc: "accepted d a" by (rule accepted_ancestor [OF i(1)])
      then have "dg_famous d a" by (simp add: accepted_def)
      then obtain ea where ea: "event_of d a = Some ea" by (rule famous_stored [OF assms(1)])
      from ancestor_lower [OF assms(1,2) i(1,2) a ea] x have "ev_Round ea < r" by simp
      with acc ea assms(4) show "a \<in> finalized_set (en_dag e)" by (auto simp: finalized_below_def)
    qed
    ultimately show ?thesis using checked famous i(2) by blast
  qed
  with checked show ?thesis by (simp add: finalized_below_def)
qed

section \<open>Properties\<close>

text \<open>C6: finality is reached. In every state the engine can reach in which rounds grow along the
  graph and the current round, the greatest of the rounds of the events and the engine's own, is
  below the greatest 64-bit number, the check of finality that the older node and the stand-alone
  program run at each tick returns and finalizes every event that is famous with all its
  ancestors. Both conditions matter: \<open>AddEvent\<close> takes an event of the greatest round too, and then
  the loop over the rounds never ends.\<close>

theorem check_finalizes_accepted:
  assumes "engine_reachable e" and "rounds_grow (en_dag e)" and "range_order ks (dg_events (en_dag e))"
    and "snd (CurrentRound ks e) < 18446744073709551615" and "accepted (en_dag e) i"
  shows "\<exists>e'. node_checkFinality ks e = Some e' \<and> dg_finalized (en_dag e') i"
proof -
  let ?d = "en_dag e"
  obtain e1 r where c: "CurrentRound ks e = (e1, r)" by fastforce
  have dag: "en_dag e1 = ?d" using CurrentRound_frame(1) [of ks e] by (simp add: c)
  have inv: "finality_inv ?d" by (rule reachable_finality_inv [OF assms(1)])
  have last: "r < 18446744073709551615" using assms(4) by (simp add: c)
  have start: "finalized_below ?d 0 e1"
    using inv by (simp add: finalized_below_def same_graph_def dag finality_inv_def)
  have "\<exists>e'. node_finality_rounds r 0 e1 = Some e' \<and> finalized_below ?d (r + 1) e'"
    by (rule node_finality.keeps [where I = "finalized_below ?d", OF last _ _ start])
      (use finalized_below_next [OF inv assms(2)] last in \<open>auto dest: order.strict_trans1\<close>)
  then obtain e' where e': "node_checkFinality ks e = Some e'" "finalized_below ?d (r + 1) e'"
    by (auto simp: node_checkFinality_def c)
  have "dg_famous ?d i" using assms(5) by (simp add: accepted_def)
  then obtain x where x: "event_of ?d i = Some x" by (rule famous_stored [OF inv])
  have "ev_Round x \<le> LatestRound ks ?d"
    unfolding LatestRound_Max [OF assms(3)] using x by (intro Max_ge) (auto simp: finite_ran ranI)
  also have "\<dots> \<le> r" using CurrentRound_value [of ks e] by (simp add: c)
  finally have "ev_Round x < r + 1"
    using unat_next_word [OF last] by (simp add: word_less_nat_alt word_le_nat_alt)
  with e' x assms(5) show ?thesis by (auto simp: finalized_below_def finalized_set_def)
qed

definition run_chain :: Engine where
  "run_chain = fst (DetermineFame (\<lambda>_. 0) (fst (DetermineFame (\<lambda>_. 0)
     (insert_events [mk_event ''a'' ''v'' [] 0, mk_event ''b'' ''v'' [''a''] 1, mk_event ''c'' ''v'' [''b''] 2]
       (NewConsensusEngine NewDAG)) 0)) 1)"

lemma run_chain_reachable: "engine_reachable run_chain"
  unfolding run_chain_def
  by (intro engine_reachable.step [OF _ engine_step.fame]
      reachable_steps [OF insert_events_steps engine_reachable.start])

theorem check_finalizes_accepted_witness:
  "\<exists>e'. node_checkFinality [''c'', ''a'', ''b''] run_chain = Some e' \<and> dg_finalized (en_dag e') ''b''"
proof -
  have events: "map (\<lambda>(i, e). (i, ev_Parents e, ev_Round e)) (dg_events (en_dag run_chain)) =
      [(''a'', [], 0), (''b'', [''a''], 1), (''c'', [''b''], 2)]"
    by code_simp
  then have "rounds_grow (en_dag run_chain)" unfolding rounds_grow_def by (auto split: if_splits)
  moreover have "range_order [''c'', ''a'', ''b''] (dg_events (en_dag run_chain))"
    "snd (CurrentRound [''c'', ''a'', ''b''] run_chain) < 18446744073709551615"
    by code_simp+
  moreover have "accepted (en_dag run_chain) ''b''"
    unfolding accepted_def by code_simp
  ultimately show ?thesis using check_finalizes_accepted [OF run_chain_reachable] by blast
qed

end
