(* ===== verification/PoolSpec.thy ===== *)
theory PoolSpec
  imports MempoolProps
begin

text \<open>
  What the mempool promises, as a specification: a bounded map from identifiers to transactions.
  The heap, the shared objects and the priorities of \<open>internal/mempool/mempool.go\<close> refine it, and
  each operation is one of the map's.
\<close>

section \<open>The map\<close>

type_synonym pool = "string \<rightharpoonup> Transaction"

definition pool_cap :: nat where "pool_cap = 10000"

definition stale :: "i64 \<Rightarrow> Transaction \<Rightarrow> bool" where
  "stale now tx \<longleftrightarrow> maxAge <s now - tx_Timestamp tx"

definition offer :: "Transaction \<Rightarrow> pool \<Rightarrow> pool" where
  "offer tx p = (if p (tx_Id tx) = None \<and> card (dom p) < pool_cap then p(tx_Id tx \<mapsto> tx) else p)"

definition discard_stale :: "i64 \<Rightarrow> pool \<Rightarrow> pool" where
  "discard_stale now p = (\<lambda>i. Option.bind (p i) (\<lambda>tx. if stale now tx then None else Some tx))"

inductive pool_step :: "pool \<Rightarrow> pool \<Rightarrow> bool" where
  offered: "pool_step p (offer tx p)"
| dropped: "pool_step p (p(i := None))"
| aged: "pool_step p (discard_stale now p)"
| emptied: "pool_step p Map.empty"

definition pool_ok :: "pool \<Rightarrow> bool" where
  "pool_ok p \<longleftrightarrow> finite (dom p) \<and> card (dom p) \<le> pool_cap \<and> (\<forall>i tx. p i = Some tx \<longrightarrow> tx_Id tx = i)"

lemma pool_ok_subset:
  assumes "pool_ok p" and sub: "q \<subseteq>\<^sub>m p"
  shows "pool_ok q"
proof -
  have "dom q \<subseteq> dom p" using sub by (rule map_le_implies_dom_le)
  moreover from this have "card (dom q) \<le> card (dom p)"
    using assms(1) by (intro card_mono) (auto simp: pool_ok_def)
  ultimately show ?thesis
    using assms by (auto simp: pool_ok_def map_le_def intro: finite_subset) (metis domI)
qed

lemma pool_ok_step: "pool_step p q \<Longrightarrow> pool_ok p \<Longrightarrow> pool_ok q"
proof (induction rule: pool_step.induct)
  case (offered p tx)
  then show ?case by (auto simp: offer_def pool_ok_def card_insert_if)
next
  case (dropped p i)
  then show ?case by (rule pool_ok_subset) (auto simp: map_le_def)
next
  case (aged p now)
  then show ?case
    by (rule pool_ok_subset)
      (auto simp: map_le_def discard_stale_def bind_eq_Some_conv split: if_splits)
next
  case (emptied p)
  then show ?case by (rule pool_ok_subset) simp
qed

interpretation sound_pools: keeping_steps pool_step pool_ok
  by unfold_locales (rule pool_ok_step)

section \<open>The operations of the mempool, on the map\<close>

lemma card_dom_Get:
  assumes "mempool_inv m"
  shows "dom (Mempool_Get m) = set (keys (mp_txs m))" "card (dom (Mempool_Get m)) = length (mp_txs m)"
proof -
  show "dom (Mempool_Get m) = set (keys (mp_txs m))"
    by (auto simp: Mempool_Get_def keys_def dom_map_of_conv_image_fst [symmetric] dom_def)
  then show "card (dom (Mempool_Get m)) = length (mp_txs m)"
    using distinct_card [OF mempool_invD(1) [OF assms]] by (simp add: keys_def)
qed

lemma Get_same:
  "mp_txs m' = mp_txs m \<Longrightarrow> same_objs (mp_objs m) (mp_objs m') \<Longrightarrow> Mempool_Get m' = Mempool_Get m"
  by (simp add: Mempool_Get_def fun_eq_iff same_objsD(1))

lemma fresh_ref:
  assumes "mempool_inv m" and "map_of (mp_txs m) i = Some r"
  shows "r \<noteq> mp_next m"
proof -
  have "r \<in> set (pending_refs m)" using assms(2) by (auto simp: pending_refs_iff dest: map_of_SomeD)
  then show ?thesis using mempool_invD(4,5) [OF assms(1)] by blast
qed

lemma Get_Add:
  assumes inv: "mempool_inv m" and cap: "mp_maxSize m = pool_cap"
  shows "Mempool_Get (fst (Mempool_Add text_len m tx)) = offer tx (Mempool_Get m)"
proof (cases "map_of (mp_txs m) (tx_Id tx) \<noteq> None \<or> length (mp_txs m) \<ge> mp_maxSize m")
  case True
  then show ?thesis
    using card_dom_Get(2) [OF inv] cap by (auto simp: Mempool_Add_def offer_def Mempool_Get_def)
next
  case False
  define r where "r = mp_next m"
  define objs where "objs = (mp_objs m)(r := \<lparr>mx_Tx = tx, mx_Priority = tx_priority tx,
      mx_Timestamp = tx_Timestamp tx, mx_Size = text_len tx, mx_Index = 0\<rparr>)"
  define q where "q = heap_Push pqLen pqLess pqSwap pqPush r \<lparr>pq_objs = objs, pq_refs = mp_queue m\<rparr>"
  have same: "mx_Tx (pq_objs q s) = mx_Tx (objs s)" for s
    using heap_Push_frame(2) [where q = "\<lparr>pq_objs = objs, pq_refs = mp_queue m\<rparr>" and r = r]
    by (simp add: q_def same_objsD(1))
  have "Mempool_Get (fst (Mempool_Add text_len m tx)) =
      (\<lambda>i. map_option (\<lambda>s. mx_Tx (pq_objs q s)) (((map_of (mp_txs m))(tx_Id tx \<mapsto> r)) i))"
    using False by (auto simp: Mempool_Add_def Mempool_Get_def Let_def map_of_update fun_eq_iff
        q_def objs_def r_def)
  also have "\<dots> = (Mempool_Get m)(tx_Id tx \<mapsto> tx)"
    using fresh_ref [OF inv]
    by (auto simp: Mempool_Get_def same objs_def fun_eq_iff r_def map_option_case split: option.split)
  also have "\<dots> = offer tx (Mempool_Get m)"
    using False card_dom_Get(2) [OF inv] cap by (simp add: offer_def Mempool_Get_def)
  finally show ?thesis .
qed

lemma Get_Remove:
  assumes "mempool_inv m"
  shows "Mempool_Get (Mempool_Remove m i) = (Mempool_Get m)(i := None)"
proof (cases "map_of (mp_txs m) i")
  case None
  then show ?thesis by (auto simp: Mempool_Remove_def Mempool_Get_def fun_eq_iff)
next
  case (Some r)
  then show ?thesis
    by (auto simp: Mempool_Remove_def Mempool_Get_def fun_eq_iff map_of_delete map_option_case
        split: option.split)
qed

lemma Get_expire:
  assumes "expire now ks m = (m1, n)" and "\<forall>i r. map_of (mp_txs m) i = Some r \<longrightarrow>
      mx_Timestamp (mp_objs m r) = tx_Timestamp (mx_Tx (mp_objs m r))"
  shows "Mempool_Get m1 =
      (\<lambda>i. if i \<in> set ks then discard_stale now (Mempool_Get m) i else Mempool_Get m i)"
  using assms
proof (induction ks arbitrary: m n)
  case (Cons i ks)
  note stamp = Cons.prems(2)
  show ?case
  proof (cases "\<exists>r. map_of (mp_txs m) i = Some r \<and> too_old now (mp_objs m r)")
    case True
    then obtain r where r: "map_of (mp_txs m) i = Some r" "too_old now (mp_objs m r)" by blast
    let ?m = "m\<lparr>mp_txs := AList.delete i (mp_txs m)\<rparr>"
    obtain n2 where "expire now ks ?m = (m1, n2)"
      using Cons.prems(1) r by (auto split: prod.splits)
    then have "Mempool_Get m1 =
        (\<lambda>j. if j \<in> set ks then discard_stale now (Mempool_Get ?m) j else Mempool_Get ?m j)"
      by (rule Cons.IH) (use stamp in \<open>auto simp: map_of_delete\<close>)
    moreover have "Mempool_Get ?m = (Mempool_Get m)(i := None)"
      by (auto simp: Mempool_Get_def map_of_delete fun_eq_iff)
    moreover have "discard_stale now (Mempool_Get m) i = None"
      using r stamp by (auto simp: discard_stale_def Mempool_Get_def stale_def too_old_def)
    ultimately show ?thesis by (auto simp: fun_eq_iff discard_stale_def)
  next
    case False
    with Cons.prems(1) have "expire now ks m = (m1, n)" by (auto split: option.splits if_splits)
    then have "Mempool_Get m1 =
        (\<lambda>j. if j \<in> set ks then discard_stale now (Mempool_Get m) j else Mempool_Get m j)"
      using stamp by (rule Cons.IH)
    moreover have "discard_stale now (Mempool_Get m) i = Mempool_Get m i"
      using False stamp
      by (auto simp: discard_stale_def Mempool_Get_def stale_def too_old_def map_option_case
          split: option.split)
    ultimately show ?thesis by (auto simp: fun_eq_iff)
  qed
qed simp

lemma Get_cleanup:
  assumes inv: "mempool_inv m" and ks: "range_order ks (mp_txs m)"
  shows "Mempool_Get (Mempool_cleanup now ks ks' m) = discard_stale now (Mempool_Get m)"
proof -
  obtain m1 n where e: "expire now ks m = (m1, n)" by fastforce
  have "Mempool_Get m1 =
      (\<lambda>i. if i \<in> set ks then discard_stale now (Mempool_Get m) i else Mempool_Get m i)"
    using e by (rule Get_expire) (use mempool_invD(8) [OF inv] in \<open>blast dest: map_of_SomeD\<close>)
  also have "\<dots> = discard_stale now (Mempool_Get m)"
  proof
    fix i
    have "Mempool_Get m i = None" if "i \<notin> set ks"
      using that ks card_dom_Get(1) [OF inv] by (metis domIff range_order_def)
    then show "(if i \<in> set ks then discard_stale now (Mempool_Get m) i else Mempool_Get m i) =
        discard_stale now (Mempool_Get m) i"
      by (simp add: discard_stale_def)
  qed
  finally have m1: "Mempool_Get m1 = discard_stale now (Mempool_Get m)" .
  let ?q = "\<lparr>pq_objs = mp_objs m1, pq_refs = range_values ks' (mp_txs m1)\<rparr>"
  have "same_objs (mp_objs m1)
      (pq_objs (heap_Init pqLess pqSwap (length (range_values ks' (mp_txs m1))) ?q))"
    using same_queue_Init [of ?q] by (simp add: same_queue_def)
  then have "Mempool_Get (Mempool_cleanup now ks ks' m) = Mempool_Get m1"
    by (intro Get_same) (simp_all add: Mempool_cleanup_def e Let_def same_objs_def)
  with m1 show ?thesis by simp
qed

lemma Get_Clear [simp]: "Mempool_Get (Mempool_Clear m) = Map.empty"
  by (simp add: Mempool_Get_def Mempool_Clear_def fun_eq_iff)

lemmas Get_operations = Get_Add Get_Remove Get_cleanup

lemma mempool_step_pool:
  assumes "mempool_step text_len m m'" and "mempool_reachable text_len m"
  shows "pool_step\<^sup>*\<^sup>* (Mempool_Get m) (Mempool_Get m')"
proof -
  have inv: "mempool_inv m" and cap: "mp_maxSize m = pool_cap"
    using assms(2) by (auto simp: pool_cap_def mempool_maxSize intro: reachable_mempool_inv)
  from assms(1) show ?thesis
  proof cases
    case (get k)
    then have "Mempool_Get m' = Mempool_Get m" by (intro Get_same) (simp_all add: GetPending_frame)
    then show ?thesis by simp
  next
    case stop
    then have "Mempool_Get m' = Map.empty"
      by (auto simp: Mempool_Stop_def Let_def Mempool_Get_def Mempool_Clear_def split: if_splits)
    then show ?thesis by (simp add: pool_step.emptied r_into_rtranclp)
  next
    case receive
    then have "Mempool_Get m' = Mempool_Get m" by (intro Get_same) (simp_all add: same_objs_def)
    then show ?thesis by simp
  qed (auto simp: Get_operations inv cap intro: pool_step.intros)
qed

interpretation pools: refinement "mempool_step text_len" "mempool_reachable text_len" pool_step Mempool_Get
  for text_len
  by unfold_locales (auto intro: mempool_step_pool mempool_reachable.step)

section \<open>Properties\<close>

text \<open>C13: the mempool refines a bounded map from identifiers to transactions: whatever its
  operations do to the heap, what \<open>Get\<close> answers changes only as such a map does, by an offer
  accepted while the identifier is new and there is room, by dropping one entry, by discarding
  what has aged, or by emptying it. So it never holds more than 10000 transactions, each under its
  own identifier.\<close>

theorem pool_refines_map:
  assumes "(mempool_step text_len)\<^sup>*\<^sup>* (NewMempool maxGas) m"
  shows "pool_step\<^sup>*\<^sup>* Map.empty (Mempool_Get m) \<and> pool_ok (Mempool_Get m)"
proof -
  have "Mempool_Get (NewMempool maxGas) = Map.empty"
    by (simp add: Mempool_Get_def NewMempool_def fun_eq_iff)
  then have run: "pool_step\<^sup>*\<^sup>* Map.empty (Mempool_Get m)"
    using pools.simulated_run [OF assms mempool_reachable.start] by simp
  moreover have "pool_ok Map.empty" by (simp add: pool_ok_def)
  ultimately show ?thesis using sound_pools.run by blast
qed

lemma add_txs_run: "(mempool_step (\<lambda>_. 0))\<^sup>*\<^sup>* m (add_txs txs m)"
  unfolding add_txs_def
  by (induction txs arbitrary: m) (auto intro: converse_rtranclp_into_rtranclp mempool_step.add)

theorem pool_refines_map_witness:
  "map_option tx_Fee (Mempool_Get pool3 ''b'') = Some 30 \<and> pool_ok (Mempool_Get pool3)"
proof -
  have "map_option tx_Fee (Mempool_Get pool3 ''b'') = Some 30" by code_simp
  moreover have "pool_ok (Mempool_Get pool3)"
    using pool_refines_map [OF add_txs_run [of "NewMempool 250"]] unfolding pool3_def by blast
  ultimately show ?thesis ..
qed

end
