(* ===== verification/Keystore.thy ===== *)
theory Keystore
  imports Crypto Config
begin

text \<open>
  The key store of \<open>pkg/crypto/keystore.go\<close>: the cache of key files and the files on disk,
  the cipher, generation, import, retrieval, listing and deletion of keys. Time, randomness
  and the outcome of each system call are arguments; \<open>path\<close> is \<open>filepath_join\<close> of the
  directory \<open>NewKeyStore\<close> settles on, and of the file name, and \<open>kdf\<close> is scrypt with the code's parameters. A file holds
  the record its JSON text denotes, or \<open>None\<close> when the text cannot be parsed.
\<close>

section \<open>State\<close>

record KeyFile =
  kf_Version :: int
  kf_Name :: string
  kf_Address :: string
  kf_PublicKey :: string
  kf_EncryptedKey :: string
  kf_Salt :: string
  kf_Nonce :: string
  kf_CreatedAt :: int
  kf_ModifiedAt :: int

record KeyStore =
  ks_keys :: "(string \<times> KeyFile) list"
  ks_disk :: "string \<rightharpoonup> KeyFile option"

record KeyInfo =
  ki_Name :: string
  ki_Address :: string
  ki_PublicKey :: bytes
  ki_CreatedAt :: int
  ki_IsActive :: bool

datatype ks_error =
    NameEmpty | PasswordEmpty | PrivateKeySizeWrong | KeyAlreadyExists | KeyNotFound
  | KeypairFailed | RandomFailed | KdfFailed | KeyTooShort | NonceSize | CiphertextTooShort
  | AuthenticationFailed | FileUnreadable | FileUnparsable | WriteFailed | HexDecodeFailed
  | RemoveFailed | VersionUnsupported | FieldsMissing | HomeUnknown | DirectoryFailed

definition KeyFileVersion :: int where "KeyFileVersion = 1"

section \<open>The cipher\<close>

definition keystream :: "bytes \<Rightarrow> bytes \<Rightarrow> nat \<Rightarrow> byte" where
  "keystream key nonce i = xor (key ! (i mod 32)) (nonce ! (i mod 24))"

definition encryptPrivateKey :: "bytes \<Rightarrow> bytes \<Rightarrow> bytes \<Rightarrow> ks_error + bytes" where
  "encryptPrivateKey key nonce plaintext =
     (if length key < 32 then Inl KeyTooShort
      else if length nonce \<noteq> 24 then Inl NonceSize
      else Inr (map (\<lambda>i. xor (plaintext ! i) (keystream key nonce i)) [0..<length plaintext]
                @ take 16 nonce))"

definition decryptPrivateKey :: "bytes \<Rightarrow> bytes \<Rightarrow> bytes \<Rightarrow> ks_error + bytes" where
  "decryptPrivateKey key nonce ciphertext =
     (if length key < 32 then Inl KeyTooShort
      else if length nonce \<noteq> 24 then Inl NonceSize
      else if length ciphertext < 16 then Inl CiphertextTooShort
      else
        let plaintextLen = length ciphertext - 16;
            plaintext = map (\<lambda>i. xor (ciphertext ! i) (keystream key nonce i)) [0..<plaintextLen]
        in if take 16 nonce \<noteq> drop plaintextLen ciphertext then Inl AuthenticationFailed
           else Inr plaintext)"

section \<open>Files\<close>

definition saveKeyFile :: "(string \<Rightarrow> string) \<Rightarrow> bool \<Rightarrow> KeyStore \<Rightarrow> KeyFile \<Rightarrow> KeyStore option" where
  "saveKeyFile path write_ok ks kf =
     (if write_ok then Some (ks\<lparr>ks_disk := (ks_disk ks)(path (kf_Name kf @ ''.key'') \<mapsto> Some kf)\<rparr>)
      else None)"

definition loadKeyFile :: "(string \<Rightarrow> string) \<Rightarrow> KeyStore \<Rightarrow> string \<Rightarrow> ks_error + KeyFile" where
  "loadKeyFile path ks name =
     (case ks_disk ks (path (name @ ''.key'')) of
        None \<Rightarrow> Inl FileUnreadable
      | Some None \<Rightarrow> Inl FileUnparsable
      | Some (Some kf) \<Rightarrow> Inr kf)"

definition validateKeyFile :: "KeyFile \<Rightarrow> ks_error option" where
  "validateKeyFile kf =
     (if kf_Version kf \<noteq> KeyFileVersion then Some VersionUnsupported
      else if kf_Name kf = [] \<or> kf_Address kf = [] then Some FieldsMissing
      else if hex_decode (kf_PublicKey kf) = None then Some HexDecodeFailed
      else None)"

text \<open>\<open>filepath.Ext\<close>: from the last dot of the name on; the name has no separator here.\<close>

definition has_key_ext :: "string \<Rightarrow> bool" where
  "has_key_ext f \<longleftrightarrow> 4 \<le> length f \<and> drop (length f - 4) f = ''.key''"

fun loadAll :: "(string \<Rightarrow> string) \<Rightarrow> string list \<Rightarrow> KeyStore \<Rightarrow> KeyStore" where
  "loadAll path [] ks = ks"
| "loadAll path (f # files) ks =
     (if \<not> has_key_ext f then loadAll path files ks
      else
        let name = take (length f - 4) f in
        case loadKeyFile path ks name of
          Inl _ \<Rightarrow> loadAll path files ks
        | Inr kf \<Rightarrow>
            (case validateKeyFile kf of
               Some _ \<Rightarrow> loadAll path files ks
             | None \<Rightarrow> loadAll path files (ks\<lparr>ks_keys := AList.update name kf (ks_keys ks)\<rparr>)))"

definition DefaultKeyDir :: string where "DefaultKeyDir = ''.ndag/keys''"

text \<open>The directory: the default for none, and a leading tilde stands for the home directory,
  which the system may not know.\<close>

definition keystore_dir :: "string option \<Rightarrow> string \<Rightarrow> ks_error + string" where
  "keystore_dir home dir0 =
     (let dir = (if dir0 = [] then DefaultKeyDir else dir0) in
      if hd dir = CHR ''~''
      then (case home of None \<Rightarrow> Inl HomeUnknown | Some h \<Rightarrow> Inr (filepath_join h (tl dir)))
      else Inr dir)"

text \<open>\<open>mkdir\<close> says whether the directory can be made, \<open>listing\<close> what reading it answers; an error of
  that is only logged. The result is the directory and the store.\<close>

definition NewKeyStore :: "string option \<Rightarrow> (string \<Rightarrow> bool) \<Rightarrow> (string \<rightharpoonup> KeyFile option) \<Rightarrow>
    (string \<Rightarrow> string list option) \<Rightarrow> string \<Rightarrow> ks_error + string \<times> KeyStore" where
  "NewKeyStore home mkdir disk listing dir0 =
     (case keystore_dir home dir0 of
        Inl e \<Rightarrow> Inl e
      | Inr dir \<Rightarrow>
          if \<not> mkdir dir then Inl DirectoryFailed
          else
            let ks = \<lparr>ks_keys = [], ks_disk = disk\<rparr> in
            Inr (dir, case listing dir of None \<Rightarrow> ks | Some files \<Rightarrow> loadAll (filepath_join dir) files ks))"

section \<open>Keys\<close>

text \<open>What a run of \<open>GenerateKey\<close> or \<open>ImportKey\<close> gets from outside.\<close>

record key_inputs =
  in_salt :: "bytes option"
  in_nonce :: "bytes option"
  in_write_ok :: bool
  in_now :: int

text \<open>The part the two share: salt, nonce, key derivation, encryption, the file and the cache.\<close>

definition seal_key :: "crypto_lib \<Rightarrow> (bytes \<Rightarrow> bytes \<Rightarrow> bytes option) \<Rightarrow> (string \<Rightarrow> string) \<Rightarrow>
    key_inputs \<Rightarrow> KeyStore \<Rightarrow> string \<Rightarrow> string \<Rightarrow> Keypair \<Rightarrow> bytes \<Rightarrow> KeyStore \<times> (ks_error + Keypair)" where
  "seal_key L kdf path inp ks name password keypair privateKey =
     (case in_salt inp of None \<Rightarrow> (ks, Inl RandomFailed)
      | Some salt \<Rightarrow>
     (case in_nonce inp of None \<Rightarrow> (ks, Inl RandomFailed)
      | Some nonce \<Rightarrow>
     (case kdf (bytes_of_string password) salt of None \<Rightarrow> (ks, Inl KdfFailed)
      | Some key \<Rightarrow>
     (case encryptPrivateKey key nonce privateKey of Inl err \<Rightarrow> (ks, Inl err)
      | Inr encryptedKey \<Rightarrow>
        let keyFile = \<lparr>kf_Version = KeyFileVersion, kf_Name = name,
              kf_Address = GetAddressFromPublicKey L (kp_Public keypair),
              kf_PublicKey = hex_encode (kp_Public keypair),
              kf_EncryptedKey = hex_encode encryptedKey, kf_Salt = hex_encode salt,
              kf_Nonce = hex_encode nonce, kf_CreatedAt = in_now inp, kf_ModifiedAt = in_now inp\<rparr>
        in case saveKeyFile path (in_write_ok inp) ks keyFile of
             None \<Rightarrow> (ks, Inl WriteFailed)
           | Some ks1 \<Rightarrow>
               (ks1\<lparr>ks_keys := AList.update name keyFile (ks_keys ks1)\<rparr>, Inr keypair)))))"

definition GenerateKey :: "crypto_lib \<Rightarrow> (bytes \<Rightarrow> bytes \<Rightarrow> bytes option) \<Rightarrow> (string \<Rightarrow> string) \<Rightarrow>
    bytes option \<Rightarrow> key_inputs \<Rightarrow> KeyStore \<Rightarrow> string \<Rightarrow> string \<Rightarrow> KeyStore \<times> (ks_error + Keypair)" where
  "GenerateKey L kdf path entropy inp ks name password =
     (if name = [] then (ks, Inl NameEmpty)
      else if password = [] then (ks, Inl PasswordEmpty)
      else if map_of (ks_keys ks) name \<noteq> None then (ks, Inl KeyAlreadyExists)
      else case GenerateKeypair L entropy of
        None \<Rightarrow> (ks, Inl KeypairFailed)
      | Some keypair \<Rightarrow> seal_key L kdf path inp ks name password keypair (kp_Private keypair))"

definition ImportKey :: "crypto_lib \<Rightarrow> (bytes \<Rightarrow> bytes \<Rightarrow> bytes option) \<Rightarrow> (string \<Rightarrow> string) \<Rightarrow>
    key_inputs \<Rightarrow> KeyStore \<Rightarrow> string \<Rightarrow> string \<Rightarrow> bytes \<Rightarrow> KeyStore \<times> (ks_error + Keypair)" where
  "ImportKey L kdf path inp ks name password privateKey =
     (if name = [] then (ks, Inl NameEmpty)
      else if password = [] then (ks, Inl PasswordEmpty)
      else if length privateKey \<noteq> PrivateKeySize then (ks, Inl PrivateKeySizeWrong)
      else if map_of (ks_keys ks) name \<noteq> None then (ks, Inl KeyAlreadyExists)
      else case KeypairFromPrivateKey L privateKey of
        None \<Rightarrow> (ks, Inl KeypairFailed)
      | Some keypair \<Rightarrow> seal_key L kdf path inp ks name password keypair privateKey)"

definition GetKey :: "crypto_lib \<Rightarrow> (bytes \<Rightarrow> bytes \<Rightarrow> bytes option) \<Rightarrow> (string \<Rightarrow> string) \<Rightarrow>
    KeyStore \<Rightarrow> string \<Rightarrow> string \<Rightarrow> ks_error + Keypair" where
  "GetKey L kdf path ks name password =
     (case loadKeyFile path ks name of Inl err \<Rightarrow> Inl err
      | Inr keyFile \<Rightarrow>
     (case hex_decode (kf_EncryptedKey keyFile) of None \<Rightarrow> Inl HexDecodeFailed
      | Some encryptedKey \<Rightarrow>
     (case hex_decode (kf_Salt keyFile) of None \<Rightarrow> Inl HexDecodeFailed
      | Some salt \<Rightarrow>
     (case hex_decode (kf_Nonce keyFile) of None \<Rightarrow> Inl HexDecodeFailed
      | Some nonce \<Rightarrow>
     (case kdf (bytes_of_string password) salt of None \<Rightarrow> Inl KdfFailed
      | Some key \<Rightarrow>
     (case decryptPrivateKey key nonce encryptedKey of Inl err \<Rightarrow> Inl err
      | Inr privateKey \<Rightarrow>
     (case KeypairFromPrivateKey L privateKey of
        None \<Rightarrow> Inl PrivateKeySizeWrong
      | Some keypair \<Rightarrow> Inr keypair)))))))"

definition ListKeys :: "string list \<Rightarrow> KeyStore \<Rightarrow> string list" where
  "ListKeys ks_order ks = filter (\<lambda>n. map_of (ks_keys ks) n \<noteq> None) ks_order"

definition GetKeyInfo :: "KeyStore \<Rightarrow> string \<Rightarrow> ks_error + KeyInfo" where
  "GetKeyInfo ks name =
     (case map_of (ks_keys ks) name of
        None \<Rightarrow> Inl KeyNotFound
      | Some kf \<Rightarrow>
          (case hex_decode (kf_PublicKey kf) of
             None \<Rightarrow> Inl HexDecodeFailed
           | Some pubKey \<Rightarrow> Inr \<lparr>ki_Name = name, ki_Address = kf_Address kf, ki_PublicKey = pubKey,
                 ki_CreatedAt = kf_CreatedAt kf, ki_IsActive = True\<rparr>))"

definition DeleteKey :: "(string \<Rightarrow> string) \<Rightarrow> bool \<Rightarrow> KeyStore \<Rightarrow> string \<Rightarrow> KeyStore \<times> ks_error option" where
  "DeleteKey path remove_ok ks name =
     (if map_of (ks_keys ks) name = None then (ks, Some KeyNotFound)
      else if ks_disk ks (path (name @ ''.key'')) \<noteq> None \<and> \<not> remove_ok then (ks, Some RemoveFailed)
      else (ks\<lparr>ks_disk := (ks_disk ks)(path (name @ ''.key'') := None),
               ks_keys := AList.delete name (ks_keys ks)\<rparr>, None))"

section \<open>Correctness of the cipher\<close>

lemma xor_cancel [simp]: "xor (xor a b) b = (a :: byte)"
  by (simp add: xor.assoc)

lemma decrypt_other_key:
  assumes "encryptPrivateKey key nonce plaintext = Inr ciphertext" and "32 \<le> length key'"
  shows "decryptPrivateKey key' nonce ciphertext =
    Inr (map (\<lambda>i. xor (xor (plaintext ! i) (key ! (i mod 32))) (key' ! (i mod 32))) [0..<length plaintext])"
proof -
  have "length nonce = 24" "ciphertext =
      map (\<lambda>i. xor (plaintext ! i) (keystream key nonce i)) [0..<length plaintext] @ take 16 nonce"
    using assms(1) by (auto simp: encryptPrivateKey_def split: if_splits)
  moreover have "xor (xor p (xor k n)) (xor k' n) = xor (xor p k) (k' :: byte)" for p k n k' :: byte
    by (metis xor.assoc xor.commute xor_cancel)
  ultimately show ?thesis
    using assms(2) by (auto simp: decryptPrivateKey_def Let_def nth_append keystream_def intro!: nth_equalityI)
qed

lemma decrypt_encrypt:
  assumes "encryptPrivateKey key nonce plaintext = Inr ciphertext"
  shows "decryptPrivateKey key nonce ciphertext = Inr plaintext"
proof -
  have "32 \<le> length key" using assms by (auto simp: encryptPrivateKey_def split: if_splits)
  from decrypt_other_key [OF assms this] show ?thesis by (simp add: map_nth)
qed

text \<open>What a successful generation or import leaves behind.\<close>

lemma seal_key_stored:
  assumes "seal_key L kdf path inp ks name password keypair priv = (ks', Inr k)"
  shows "k = keypair \<and> (\<exists>salt nonce key ct kf. kdf (bytes_of_string password) salt = Some key \<and>
    encryptPrivateKey key nonce priv = Inr ct \<and> loadKeyFile path ks' name = Inr kf \<and>
    kf_EncryptedKey kf = hex_encode ct \<and> kf_Salt kf = hex_encode salt \<and> kf_Nonce kf = hex_encode nonce \<and>
    in_salt inp = Some salt)"
  using assms
  by (auto simp: seal_key_def saveKeyFile_def loadKeyFile_def Let_def split: option.splits sum.splits if_splits)

lemma seal_key_cached:
  "seal_key L kdf path inp ks name password keypair priv = (ks', Inr k) \<Longrightarrow> map_of (ks_keys ks') name \<noteq> None"
  by (auto simp: seal_key_def saveKeyFile_def Let_def split: option.splits sum.splits if_splits)

lemma GetKey_sealed:
  assumes "seal_key L kdf path inp ks name password keypair priv = (ks', Inr k)"
    and "in_salt inp = Some salt" and "kdf (bytes_of_string password') salt = Some key'" and "32 \<le> length key'"
  shows "\<exists>key. kdf (bytes_of_string password) salt = Some key \<and> GetKey L kdf path ks' name password' =
    (let p = map (\<lambda>i. xor (xor (priv ! i) (key ! (i mod 32))) (key' ! (i mod 32))) [0..<length priv]
     in case KeypairFromPrivateKey L p of None \<Rightarrow> Inl PrivateKeySizeWrong | Some kp \<Rightarrow> Inr kp)"
proof -
  from seal_key_stored [OF assms(1)] assms(2) obtain nonce key ct kf
    where "kdf (bytes_of_string password) salt = Some key" "encryptPrivateKey key nonce priv = Inr ct"
      "loadKeyFile path ks' name = Inr kf" "kf_EncryptedKey kf = hex_encode ct"
      "kf_Salt kf = hex_encode salt" "kf_Nonce kf = hex_encode nonce" by auto
  then show ?thesis
    using assms(3) decrypt_other_key [OF _ assms(4)]
    by (intro exI [of _ key]) (simp add: GetKey_def Let_def)
qed

lemma GenerateKey_sealed:
  assumes "GenerateKey L kdf path entropy inp ks name password = (ks', Inr k)"
  shows "\<exists>priv. entropy = Some priv \<and> k = \<lparr>kp_Private = priv, kp_Public = cl_public L priv\<rparr> \<and>
    seal_key L kdf path inp ks name password k priv = (ks', Inr k)"
proof -
  from assms obtain priv where priv: "entropy = Some priv"
    "seal_key L kdf path inp ks name password \<lparr>kp_Private = priv, kp_Public = cl_public L priv\<rparr> priv = (ks', Inr k)"
    by (auto simp: GenerateKey_def GenerateKeypair_def split: if_splits option.splits)
  with seal_key_stored [OF priv(2)] show ?thesis by simp
qed

text \<open>The password a key was made with opens it, and any other opens something.\<close>

lemma GetKey_generated:
  assumes "GenerateKey L kdf path (Some priv) inp ks name password = (ks', Inr k)"
    and "length priv = 64"
  shows "GetKey L kdf path ks' name password = Inr k \<and> kp_Private k = priv"
proof -
  from GenerateKey_sealed [OF assms(1)]
  have k: "k = \<lparr>kp_Private = priv, kp_Public = cl_public L priv\<rparr>"
    and seal: "seal_key L kdf path inp ks name password k priv = (ks', Inr k)" by auto
  from seal_key_stored [OF seal] obtain salt nonce key ct where
    enc: "in_salt inp = Some salt" "kdf (bytes_of_string password) salt = Some key"
      "encryptPrivateKey key nonce priv = Inr ct" by auto
  then have "32 \<le> length key" by (auto simp: encryptPrivateKey_def split: if_splits)
  moreover have "map ((!) priv) [0..<64] = priv" using map_nth [of priv] assms(2) by simp
  ultimately show ?thesis
    using GetKey_sealed [OF seal enc(1,2)] enc(2) assms(2)
    by (auto simp: k KeypairFromPrivateKey_def PrivateKeySize_def Let_def)
qed

lemma GetKey_any_password:
  assumes "GenerateKey L kdf path (Some priv) inp ks name password = (ks', Inr k)" and "length priv = 64"
    and "\<And>s. \<exists>key'. kdf (bytes_of_string password') s = Some key' \<and> 32 \<le> length key'"
  shows "\<exists>k'. GetKey L kdf path ks' name password' = Inr k'"
proof -
  from GenerateKey_sealed [OF assms(1)]
  have seal: "seal_key L kdf path inp ks name password k priv = (ks', Inr k)" by auto
  from seal_key_stored [OF this] obtain salt where salt: "in_salt inp = Some salt" by auto
  obtain key' where "kdf (bytes_of_string password') salt = Some key'" "32 \<le> length key'"
    using assms(3) by blast
  from GetKey_sealed [OF seal salt this] assms(2) show ?thesis
    by (auto simp: KeypairFromPrivateKey_def PrivateKeySize_def Let_def)
qed

section \<open>Properties\<close>

text \<open>A generated key is read back from its file with the password it was made with.\<close>

theorem generated_key_retrieved:
  assumes "GenerateKey L kdf path (Some priv) inp ks name password = (ks', Inr k)"
    and "length priv = 64"
  shows "GetKey L kdf path ks' name password = Inr k \<and> kp_Private k = priv"
  using assms by (rule GetKey_generated)

definition sample_kdf :: "bytes \<Rightarrow> bytes \<Rightarrow> bytes option" where
  "sample_kdf password salt = Some (pad32 password)"

definition sample_inputs :: key_inputs where
  "sample_inputs = \<lparr>in_salt = Some (replicate 32 1), in_nonce = Some (replicate 24 2),
     in_write_ok = True, in_now = 0\<rparr>"

definition sample_store :: "string \<times> KeyStore" where
  "sample_store = projr (NewKeyStore (Some ''/home/u'') (\<lambda>_. True) Map.empty (\<lambda>_. Some []) ''~/keys'')"

definition sample_run :: "KeyStore \<times> (ks_error + Keypair)" where
  "sample_run = GenerateKey sample_lib sample_kdf (filepath_join (fst sample_store)) (Some (replicate 64 7)) sample_inputs
     (snd sample_store) ''main'' ''secret''"

lemma sample_run_ok: "sample_run = (fst sample_run, Inr \<lparr>kp_Private = replicate 64 7, kp_Public = replicate 32 7\<rparr>)"
proof -
  have "snd sample_run = Inr \<lparr>kp_Private = replicate 64 7, kp_Public = replicate 32 7\<rparr>" by code_simp
  then show ?thesis by (metis prod.collapse)
qed

theorem generated_key_retrieved_witness:
  "GetKey sample_lib sample_kdf (filepath_join (fst sample_store)) (fst sample_run) ''main'' ''secret'' =
     Inr \<lparr>kp_Private = replicate 64 7, kp_Public = replicate 32 7\<rparr>"
  using generated_key_retrieved [OF sample_run_ok [unfolded sample_run_def]]
  by (simp add: sample_run_def)

text \<open>C37: no password is ever refused: the authentication tag is the nonce. With any password
  the key derivation accepts, \<open>GetKey\<close> returns a keypair; its private key is the right one
  exactly when the derived keys agree on their first 32 bytes.\<close>

theorem wrong_password_accepted:
  assumes "GenerateKey L kdf path (Some priv) inp ks name password = (ks', Inr k)"
    and "length priv = 64" and "in_salt inp = Some salt"
    and "kdf (bytes_of_string password) salt = Some key"
    and "kdf (bytes_of_string password') salt = Some key'" and "32 \<le> length key'"
  shows "\<exists>k'. GetKey L kdf path ks' name password' = Inr k' \<and>
    (kp_Private k' = priv \<longleftrightarrow> take 32 key' = take 32 key)"
proof -
  from GenerateKey_sealed [OF assms(1)]
  have seal: "seal_key L kdf path inp ks name password k priv = (ks', Inr k)" by auto
  let ?p = "map (\<lambda>i. xor (xor (priv ! i) (key ! (i mod 32))) (key' ! (i mod 32))) [0..<64]"
  from seal_key_stored [OF seal] assms(3,4) have key: "32 \<le> length key"
    by (auto simp: encryptPrivateKey_def split: if_splits)
  have get: "GetKey L kdf path ks' name password' =
      Inr \<lparr>kp_Private = ?p, kp_Public = cl_public L ?p\<rparr>"
    using GetKey_sealed [OF seal assms(3,5,6)] assms(2,4)
    by (simp add: KeypairFromPrivateKey_def PrivateKeySize_def Let_def)
  have same: "xor (xor p x) y = p \<longleftrightarrow> y = x" for p x y :: byte
    by (metis xor.assoc xor_self_eq xor.right_neutral xor.commute)
  have "?p = priv \<longleftrightarrow> (\<forall>i < 64. key' ! (i mod 32) = key ! (i mod 32))"
    using assms(2) by (simp add: list_eq_iff_nth_eq same)
  also have "\<dots> \<longleftrightarrow> (\<forall>i < 32. key' ! i = key ! i)"
  proof (intro iffI allI impI)
    fix i :: nat assume all: "\<forall>i < 64. key' ! (i mod 32) = key ! (i mod 32)" and "i < 32"
    then show "key' ! i = key ! i" using spec [OF all, of i] by simp
  next
    fix i :: nat assume "\<forall>i < 32. key' ! i = key ! i"
    moreover have "i mod 32 < 32" by simp
    ultimately show "key' ! (i mod 32) = key ! (i mod 32)" by blast
  qed
  also have "\<dots> \<longleftrightarrow> take 32 key' = take 32 key"
    using key assms(6) by (simp add: list_eq_iff_nth_eq min_def)
  finally show ?thesis using get by auto
qed

theorem wrong_password_accepted_witness:
  "\<exists>k'. GetKey sample_lib sample_kdf (filepath_join (fst sample_store)) (fst sample_run) ''main'' ''guess'' = Inr k' \<and>
     kp_Private k' \<noteq> replicate 64 7"
proof -
  have "take 32 (pad32 (bytes_of_string ''guess'')) \<noteq> take 32 (pad32 (bytes_of_string ''secret''))"
    by code_simp
  then show ?thesis
    using wrong_password_accepted [OF sample_run_ok [unfolded sample_run_def],
        of "replicate 32 1" "pad32 (bytes_of_string ''secret'')" "''guess''" "pad32 (bytes_of_string ''guess'')"]
    by (auto simp: sample_run_def sample_inputs_def sample_kdf_def)
qed

end
