(* ===== verification/Sync.thy ===== *)
theory Sync
  imports Mempool Consensus Storage Codec
begin

text \<open>
  Synchronisation between peers, \<open>pkg/network/sync.go\<close>: the framing of messages on a stream,
  the server that sends the events of a range of rounds, the clients that add what they
  receive to the graph, the database and the pool, and the manager that decides when to sync.
  The file reaches \<open>dag\<close>, \<open>mempool\<close>, \<open>storage\<close> and \<open>consensus\<close> through the network object,
  whose type does not declare them; here they are the state of the manager. Protobuf, libp2p's
  dialling and the outcome of the operating system's calls are parameters.
\<close>

section \<open>Messages\<close>

definition MaxMessageSize :: nat where "MaxMessageSize = 4 * 1024 * 1024"
definition MaxSyncBatchSize :: u64 where "MaxSyncBatchSize = 100"
definition MaxSyncRounds :: u64 where "MaxSyncRounds = 1000"

record SyncDAGRequest =
  rq_StartRound :: u64
  rq_EndRound :: u64
  rq_EventIds :: "string list"
  rq_PeerId :: string
  rq_IncludeTransactions :: bool
  rq_Limit :: u64

record SyncDAGResponse =
  rs_Event :: "Event option"
  rs_Transactions :: "Transaction list"
  rs_HasMore :: bool
  rs_NextRound :: u64

definition response :: "Event option \<Rightarrow> bool \<Rightarrow> SyncDAGResponse" where
  "response ev hasMore = \<lparr>rs_Event = ev, rs_Transactions = [], rs_HasMore = hasMore, rs_NextRound = 0\<rparr>"

lemma response_simps [simp]:
  "rs_Event (response ev b) = ev" "rs_Transactions (response ev b) = []" "rs_HasMore (response ev b) = b"
  by (simp_all add: response_def)

section \<open>Framing\<close>

text \<open>A big-endian \<open>uint32\<close>.\<close>

definition be32 :: "u32 \<Rightarrow> bytes" where
  "be32 w = [ucast (drop_bit 24 w), ucast (drop_bit 16 w), ucast (drop_bit 8 w), ucast w]"

definition of_be32 :: "bytes \<Rightarrow> u32" where
  "of_be32 b = fold (\<lambda>x n. or (push_bit 8 n) (ucast x)) b 0"

text \<open>
  What the system answers to the calls of one write: the deadline, the length, the data. A write
  that fails may have sent a part, whose number of bytes comes with the error. The function
  returns what the stream then holds after what it held before.
\<close>

record write_answers =
  wa_deadline :: "string option"
  wa_length :: "(nat \<times> string) option"
  wa_data :: "(nat \<times> string) option"

definition no_faults :: write_answers where
  "no_faults = \<lparr>wa_deadline = None, wa_length = None, wa_data = None\<rparr>"

definition writeMessageWithTimeout :: "write_answers \<Rightarrow> bytes \<Rightarrow> bytes \<Rightarrow> bytes \<times> string option" where
  "writeMessageWithTimeout a stream data =
     (case wa_deadline a of
        Some e \<Rightarrow> (stream, Some (wrap ''failed to set write deadline'' e))
      | None \<Rightarrow>
          let prefix = be32 (word_of_nat (length data)) in
          (case wa_length a of
             Some (k, e) \<Rightarrow> (stream @ take k prefix, Some (wrap ''failed to write message length'' e))
           | None \<Rightarrow>
               (case wa_data a of
                  Some (k, e) \<Rightarrow> (stream @ prefix @ take k data, Some (wrap ''failed to write message data'' e))
                | None \<Rightarrow> (stream @ prefix @ data, None))))"

text \<open>
  Reading from what the peer has written before it closed the stream. \<open>Eof\<close> is \<open>io.EOF\<close>
  itself, which the callers test for; a wrapped end of file is an error like others.
\<close>

datatype read_result = Message bytes | Eof | ReadError string

definition readMessageWithTimeout :: "string option \<Rightarrow> bytes \<Rightarrow> read_result \<times> bytes" where
  "readMessageWithTimeout deadline stream =
     (case deadline of
        Some e \<Rightarrow> (ReadError (wrap ''failed to set read deadline'' e), stream)
      | None \<Rightarrow>
          if stream = [] then (Eof, [])
          else if length stream < 4
          then (ReadError (wrap ''failed to read message length'' ''unexpected EOF''), [])
          else
            let n = unat (of_be32 (take 4 stream)); rest = drop 4 stream in
            if n > MaxMessageSize
            then (ReadError (''message too large: '' @ digits n @ '' bytes''), rest)
            else if length rest < n
            then (ReadError (wrap ''failed to read message data''
                    (if rest = [] then ''EOF'' else ''unexpected EOF'')), [])
            else (Message (take n rest), drop n rest))"

lemma read_message_shorter:
  "readMessageWithTimeout dl s = (Message m, rest) \<Longrightarrow> length rest < length s"
  by (auto simp: readMessageWithTimeout_def Let_def split: option.splits if_splits)

section \<open>The server\<close>

text \<open>
  \<open>events r\<close> is what \<open>GetEventsByRound\<close> answers for the round, \<open>faults n\<close> what the system
  answers to the n-th write on the stream. A response that cannot be encoded is skipped; a
  failed write ends the handler, which the flag of the result says.
\<close>

record served =
  sv_sent :: nat
  sv_writes :: nat
  sv_stream :: bytes
  sv_failed :: bool

fun serve_round :: "(SyncDAGResponse \<Rightarrow> string + bytes) \<Rightarrow> (nat \<Rightarrow> write_answers) \<Rightarrow> bool \<Rightarrow> nat \<Rightarrow>
    Event list \<Rightarrow> served \<Rightarrow> served" where
  "serve_round marshal faults earlier n [] sv = sv"
| "serve_round marshal faults earlier n (e # es) sv =
     (case marshal (response (Some e) (earlier \<or> sv_sent sv + 1 < n)) of
        Inl _ \<Rightarrow> serve_round marshal faults earlier n es sv
      | Inr respData \<Rightarrow>
          (case writeMessageWithTimeout (faults (sv_writes sv)) (sv_stream sv) respData of
             (stream, Some _) \<Rightarrow>
               sv\<lparr>sv_writes := sv_writes sv + 1, sv_stream := stream, sv_failed := True\<rparr>
           | (stream, None) \<Rightarrow>
               serve_round marshal faults earlier n es
                 (sv\<lparr>sv_sent := sv_sent sv + 1, sv_writes := sv_writes sv + 1, sv_stream := stream\<rparr>)))"

text \<open>
  The loop over the rounds, on 64-bit words: \<open>None\<close> when it never ends. \<open>int(req.Limit)\<close> reads
  the limit as a signed integer.
\<close>

partial_function (option) serve_rounds :: "(SyncDAGResponse \<Rightarrow> string + bytes) \<Rightarrow> (nat \<Rightarrow> write_answers) \<Rightarrow>
    (u64 \<Rightarrow> Event list) \<Rightarrow> u64 \<Rightarrow> u64 \<Rightarrow> u64 \<Rightarrow> served \<Rightarrow> served option" where
  "serve_rounds marshal faults events endRound limit r sv =
     (if r \<le> endRound \<and> int (sv_sent sv) < sint limit then
        (if sv_failed (serve_round marshal faults (r < endRound) (length (events r)) (events r) sv)
         then Some (serve_round marshal faults (r < endRound) (length (events r)) (events r) sv)
         else serve_rounds marshal faults events endRound limit (r + 1)
                (serve_round marshal faults (r < endRound) (length (events r)) (events r) sv))
      else Some sv)"

text \<open>The stream as the handler leaves it; \<open>deadline\<close> and \<open>request\<close> are its reading side.\<close>

definition handleSyncStream :: "(bytes \<Rightarrow> string + SyncDAGRequest) \<Rightarrow>
    (SyncDAGResponse \<Rightarrow> string + bytes) \<Rightarrow> (nat \<Rightarrow> write_answers) \<Rightarrow> (u64 \<Rightarrow> Event list) \<Rightarrow>
    string option \<Rightarrow> bytes \<Rightarrow> bytes option" where
  "handleSyncStream unmarshal marshal faults events deadline request =
     (case readMessageWithTimeout deadline request of
        (Message reqData, _) \<Rightarrow>
          (case unmarshal reqData of
             Inl _ \<Rightarrow> Some []
           | Inr req \<Rightarrow>
               (case serve_rounds marshal faults events (rq_EndRound req) (rq_Limit req)
                       (rq_StartRound req)
                       \<lparr>sv_sent = 0, sv_writes = 0, sv_stream = [], sv_failed = False\<rparr> of
                  None \<Rightarrow> None
                | Some sv \<Rightarrow>
                    if sv_failed sv then Some (sv_stream sv)
                    else case marshal (response None False) of
                      Inl _ \<Rightarrow> Some (sv_stream sv)
                    | Inr respData \<Rightarrow>
                        Some (fst (writeMessageWithTimeout (faults (sv_writes sv)) (sv_stream sv) respData))))
      | _ \<Rightarrow> Some [])"

section \<open>The client\<close>

record 'd client =
  cl_dag :: DAG
  cl_mempool :: Mempool
  cl_db :: 'd

record 'd sync_env =
  se_ldb :: "'d leveldb"
  se_marshalRequest :: "SyncDAGRequest \<Rightarrow> string + bytes"
  se_unmarshalResponse :: "bytes \<Rightarrow> string + SyncDAGResponse"
  se_marshalEvent :: "Event \<Rightarrow> string + bytes"
  se_unmarshalEvent :: "bytes \<Rightarrow> string + Event"
  se_text_len :: "Transaction \<Rightarrow> nat"

definition MustMarshal :: "'d sync_env \<Rightarrow> Event \<Rightarrow> bytes outcome" where
  "MustMarshal E e =
     (case se_marshalEvent E e of Inl err \<Rightarrow> Panic (''failed to marshal: '' @ err) | Inr data \<Rightarrow> Ret data)"

text \<open>
  An event received: into the graph and, if it is accepted there, into the database, whose
  errors are only logged. The flag says whether it was accepted. The event in the graph is the
  object received, so what is encoded carries the metadata the graph has set.
\<close>

definition receive_event :: "'d sync_env \<Rightarrow> Event option \<Rightarrow> 'd client \<Rightarrow> 'd client \<times> bool outcome" where
  "receive_event E ev c =
     (case ev of
        None \<Rightarrow> (c, Ret False)
      | Some e \<Rightarrow>
          (case AddEvent (cl_dag c) (Some e) of
             (d, Some _) \<Rightarrow> (c, Ret False)
           | (d, None) \<Rightarrow>
               let e1 = (case GetEvent d (ev_Id e) of None \<Rightarrow> e | Some e' \<Rightarrow> e') in
               (case MustMarshal E e1 of
                  Panic m \<Rightarrow> (c\<lparr>cl_dag := d\<rparr>, Panic m)
                | Ret data \<Rightarrow>
                    (c\<lparr>cl_dag := d, cl_db := fst (Store_PutEvent (se_ldb E) (cl_db c) (ev_Id e) data)\<rparr>,
                     Ret True))))"

text \<open>The transactions that came along, and how many were added.\<close>

fun receive_txs :: "'d sync_env \<Rightarrow> Transaction list \<Rightarrow> 'd client \<Rightarrow> nat \<Rightarrow> 'd client \<times> nat outcome" where
  "receive_txs E [] c n = (c, Ret n)"
| "receive_txs E (tx # txs) c n =
     (if Mempool_Has (cl_mempool c) (tx_Id tx) then receive_txs E txs c n
      else case Mempool_Add (se_text_len E) (cl_mempool c) tx of
        (m, Panic msg) \<Rightarrow> (c\<lparr>cl_mempool := m\<rparr>, Panic msg)
      | (m, Ret added) \<Rightarrow> receive_txs E txs (c\<lparr>cl_mempool := m\<rparr>) (if added then n + 1 else n))"

text \<open>
  The loop over the responses. \<open>capped\<close> is set in \<open>SyncWithPeer\<close>, which stops after 10000
  events or 50000 transactions, and not in \<open>syncWithPeer\<close>, which counts events only.
\<close>

function client_loop :: "'d sync_env \<Rightarrow> bool \<Rightarrow> string option \<Rightarrow> bytes \<Rightarrow> nat \<Rightarrow> nat \<Rightarrow> 'd client \<Rightarrow>
    'd client \<times> string option outcome" where
  "client_loop E capped deadline stream events txs c =
     (case readMessageWithTimeout deadline stream of
        (Eof, _) \<Rightarrow> (c, Ret None)
      | (ReadError err, _) \<Rightarrow> (c, Ret (Some (wrap ''failed to read sync response'' err)))
      | (Message respData, rest) \<Rightarrow>
          (case se_unmarshalResponse E respData of
             Inl err \<Rightarrow> (c, Ret (Some (wrap ''failed to unmarshal sync response'' err)))
           | Inr resp \<Rightarrow>
               (case receive_event E (rs_Event resp) c of
                  (c1, Panic m) \<Rightarrow> (c1, Panic m)
                | (c1, Ret accepted) \<Rightarrow>
                    (case receive_txs E (rs_Transactions resp) c1 txs of
                       (c2, Panic m) \<Rightarrow> (c2, Panic m)
                     | (c2, Ret txs1) \<Rightarrow>
                         let events1 = (if accepted then events + 1 else events) in
                         if \<not> rs_HasMore resp then (c2, Ret None)
                         else if capped \<and> (events1 > 10000 \<or> txs1 > 50000) then (c2, Ret None)
                         else client_loop E capped deadline rest events1 txs1 c2))))"
  by pat_completeness auto
termination client_loop
  by (relation "measure (\<lambda>(E, capped, deadline, stream, events, txs, c). length stream)")
    (auto dest: read_message_shorter [OF sym])

declare client_loop.simps [simp del]

definition dag_error_text :: "dag_error \<Rightarrow> string" where
  "dag_error_text e =
     (case e of
        ErrInvalidEvent \<Rightarrow> ''invalid event''
      | ErrMissingEventID \<Rightarrow> ''missing event ID''
      | ErrEventExists \<Rightarrow> ''event already exists''
      | ErrNoWitnesses \<Rightarrow> ''no witnesses in round'')"

text \<open>
  A dialled stream answers the bytes written to it; \<open>a\<close> are the answers to the request's write.
\<close>

type_synonym stream = "bytes \<Rightarrow> bytes"

definition exchange :: "'d sync_env \<Rightarrow> bool \<Rightarrow> write_answers \<Rightarrow> string option \<Rightarrow> stream \<Rightarrow> SyncDAGRequest \<Rightarrow>
    'd client \<Rightarrow> 'd client \<times> string option outcome" where
  "exchange E capped a deadline peer req c =
     (case se_marshalRequest E req of
        Inl err \<Rightarrow> (c, Ret (Some (wrap ''failed to marshal sync request'' err)))
      | Inr reqData \<Rightarrow>
          (case writeMessageWithTimeout a [] reqData of
             (sent, Some err) \<Rightarrow> (c, Ret (Some (wrap ''failed to send sync request'' err)))
           | (sent, None) \<Rightarrow> client_loop E capped deadline (peer sent) 0 0 c))"

definition SyncWithPeer :: "'d sync_env \<Rightarrow> string + stream \<Rightarrow> write_answers \<Rightarrow> string option \<Rightarrow>
    string \<Rightarrow> u64 \<Rightarrow> u64 \<Rightarrow> 'd client \<Rightarrow> 'd client \<times> string option outcome" where
  "SyncWithPeer E dial a deadline peerID startRound endRound c =
     (if peerID = [] then (c, Ret (Some ''peer ID cannot be empty''))
      else if startRound > endRound then (c, Ret (Some ''invalid round range''))
      else case dial of
        Inl err \<Rightarrow> (c, Ret (Some (wrap (''failed to open sync stream to peer '' @ peerID) err)))
      | Inr peer \<Rightarrow>
          exchange E True a deadline peer
            \<lparr>rq_StartRound = startRound, rq_EndRound = endRound, rq_EventIds = [], rq_PeerId = [],
              rq_IncludeTransactions = True, rq_Limit = MaxSyncBatchSize\<rparr> c)"

definition requestSingleEvent :: "'d sync_env \<Rightarrow> string + stream \<Rightarrow> string + bytes \<Rightarrow> write_answers \<Rightarrow>
    string option \<Rightarrow> string \<Rightarrow> 'd client \<Rightarrow> 'd client \<times> string option" where
  "requestSingleEvent E dial request a deadline peerID c =
     (case dial of
        Inl err \<Rightarrow> (c, Some (wrap (''failed to connect to peer '' @ peerID) err))
      | Inr peer \<Rightarrow>
          (case request of
             Inl err \<Rightarrow> (c, Some (wrap ''failed to marshal request'' err))
           | Inr reqData \<Rightarrow>
               (case writeMessageWithTimeout a [] reqData of
                  (sent, Some err) \<Rightarrow> (c, Some (wrap ''failed to send request'' err))
                | (sent, None) \<Rightarrow>
                    (case fst (readMessageWithTimeout deadline (peer sent)) of
                       Eof \<Rightarrow> (c, Some (wrap ''failed to read response'' ''EOF''))
                     | ReadError err \<Rightarrow> (c, Some (wrap ''failed to read response'' err))
                     | Message respData \<Rightarrow>
                         (case se_unmarshalEvent E respData of
                            Inl err \<Rightarrow> (c, Some (wrap ''failed to unmarshal event'' err))
                          | Inr event \<Rightarrow>
                              (case AddEvent (cl_dag c) (Some event) of
                                 (d, Some err) \<Rightarrow> (c, Some (wrap ''failed to add event'' (dag_error_text err)))
                               | (d, None) \<Rightarrow> (c\<lparr>cl_dag := d\<rparr>, None)))))))"

text \<open>Peers are asked in turn; a request that fails is logged and the next one is made.\<close>

fun request_all :: "(string \<Rightarrow> string \<Rightarrow> 'd client \<Rightarrow> 'd client \<times> string option) \<Rightarrow> string list \<Rightarrow> nat \<Rightarrow>
    string list \<Rightarrow> 'd client \<Rightarrow> 'd client" where
  "request_all ask peers i [] c = c"
| "request_all ask peers i (e # es) c =
     request_all ask peers (i + 1) es (fst (ask (peers ! (i mod length peers)) e c))"

definition RequestMissingEvents :: "(string \<Rightarrow> string \<Rightarrow> 'd client \<Rightarrow> 'd client \<times> string option) \<Rightarrow>
    string list \<Rightarrow> string list \<Rightarrow> 'd client \<Rightarrow> 'd client \<times> string option" where
  "RequestMissingEvents ask peers eventIDs c =
     (if eventIDs = [] then (c, None)
      else if peers = [] then (c, Some ''no peers available'')
      else (request_all ask peers 0 eventIDs c, None))"

section \<open>The manager\<close>

record SyncPeer =
  sp_ID :: string
  sp_Connected :: bool

record 'd sync_manager =
  sy_client :: "'d client"
  sy_peers :: "(string \<times> SyncPeer) list"
  sy_engine :: Engine

definition GetSyncStatus :: "'d sync_manager \<Rightarrow> int \<times> bool" where
  "GetSyncStatus sm = (int (length (sy_peers sm)), True)"

definition set_connected :: "string \<Rightarrow> bool \<Rightarrow> 'd sync_manager \<Rightarrow> 'd sync_manager" where
  "set_connected i b sm = sm\<lparr>sy_peers := AList.update i \<lparr>sp_ID = i, sp_Connected = b\<rparr> (sy_peers sm)\<rparr>"

text \<open>
  From the dialling on. The engine works on the client's graph; \<open>rounds\<close> is the order in which
  it visits the events.
\<close>

definition dial_and_sync :: "'d sync_env \<Rightarrow> string list \<Rightarrow> string + stream \<Rightarrow> write_answers \<Rightarrow>
    string option \<Rightarrow> string \<Rightarrow> 'd sync_manager \<Rightarrow> 'd sync_manager \<times> string option outcome" where
  "dial_and_sync E rounds dial a deadline peerID sm =
     (case dial of
        Inl err \<Rightarrow> (sm, Ret (Some (wrap (''failed to connect to peer '' @ peerID) err)))
      | Inr peer \<Rightarrow>
          let (engine, latestRound) =
                CurrentRound rounds ((sy_engine sm)\<lparr>en_dag := cl_dag (sy_client sm)\<rparr>);
              (c, r) = exchange E False a deadline peer
                \<lparr>rq_StartRound = latestRound + 1, rq_EndRound = latestRound + MaxSyncRounds,
                  rq_EventIds = [], rq_PeerId = [], rq_IncludeTransactions = False,
                  rq_Limit = MaxSyncBatchSize\<rparr> (sy_client sm)
          in (sm\<lparr>sy_client := c, sy_engine := engine\<lparr>en_dag := cl_dag c\<rparr>\<rparr>, r))"

text \<open>The deferred function marks the peer as not connected, whatever happened in between.\<close>

definition syncWithPeer :: "'d sync_env \<Rightarrow> string list \<Rightarrow> string + stream \<Rightarrow> write_answers \<Rightarrow>
    string option \<Rightarrow> string \<Rightarrow> 'd sync_manager \<Rightarrow> 'd sync_manager \<times> string option outcome" where
  "syncWithPeer E rounds dial a deadline peerID sm =
     (if case map_of (sy_peers sm) peerID of None \<Rightarrow> False | Some peer \<Rightarrow> \<not> sp_Connected peer
      then (sm, Ret None)
      else
        let (sm1, r) = dial_and_sync E rounds dial a deadline peerID (set_connected peerID True sm)
        in (set_connected peerID False sm1, r))"

section \<open>Framing is inverted by reading\<close>

lemma of_be32_be32 [simp]: "of_be32 (be32 w) = w"
proof -
  have "of_be32 (be32 w) = or (push_bit 24 (ucast (ucast (drop_bit 24 w) :: byte)))
      (or (push_bit 16 (ucast (ucast (drop_bit 16 w) :: byte)))
      (or (push_bit 8 (ucast (ucast (drop_bit 8 w) :: byte))) (ucast (ucast w :: byte))))"
    by (simp add: of_be32_def be32_def ac_simps)
  also have "\<dots> = w"
  proof (rule bit_word_eqI)
    fix n assume "n < LENGTH(32)"
    then consider "n < 8" | "8 \<le> n" "n < 16" | "16 \<le> n" "n < 24" | "24 \<le> n" "n < 32" by force
    then show "bit (or (push_bit 24 (ucast (ucast (drop_bit 24 w) :: byte)))
      (or (push_bit 16 (ucast (ucast (drop_bit 16 w) :: byte)))
      (or (push_bit 8 (ucast (ucast (drop_bit 8 w) :: byte))) (ucast (ucast w :: byte)))) :: u32) n = bit w n"
      by cases (auto simp: bit_simps)
  qed
  finally show ?thesis .
qed

lemma length_be32 [simp]: "length (be32 w) = 4" "be32 w \<noteq> []"
  by (simp_all add: be32_def)

definition frame :: "bytes \<Rightarrow> bytes" where
  "frame data = be32 (word_of_nat (length data)) @ data"

lemma write_no_faults: "writeMessageWithTimeout no_faults s data = (s @ frame data, None)"
  by (simp add: writeMessageWithTimeout_def no_faults_def frame_def Let_def)

lemma unat_length_u32:
  "length data < 4294967296 \<Longrightarrow> unat (word_of_nat (length data) :: u32) = length data"
  by (simp add: unsigned_of_nat take_bit_eq_mod)

lemma read_frame:
  "length data \<le> MaxMessageSize \<Longrightarrow> readMessageWithTimeout None (frame data @ rest) = (Message data, rest)"
  by (auto simp: readMessageWithTimeout_def frame_def Let_def unat_length_u32 MaxMessageSize_def)

lemma read_frame_too_large:
  "MaxMessageSize < length data \<Longrightarrow> length data < 4294967296 \<Longrightarrow>
     readMessageWithTimeout None (frame data @ rest) =
       (ReadError (''message too large: '' @ digits (length data) @ '' bytes''), data @ rest)"
  by (auto simp: readMessageWithTimeout_def frame_def Let_def unat_length_u32 MaxMessageSize_def)

text \<open>C29: a message of up to 4 MiB that is written without a fault is read back, and what follows it
  on the stream is untouched; a larger message, up to 4 GiB, which the writer sends as well, the
  reader refuses by its length and leaves on the stream.\<close>

theorem framing_roundtrip:
  assumes "length data < 4294967296"
  shows "readMessageWithTimeout None (fst (writeMessageWithTimeout no_faults [] data) @ rest) =
    (if length data \<le> MaxMessageSize then (Message data, rest)
     else (ReadError (''message too large: '' @ digits (length data) @ '' bytes''), data @ rest))"
  using assms read_frame [of data rest] read_frame_too_large [of data rest] by (simp add: write_no_faults)

theorem framing_roundtrip_witness:
  "readMessageWithTimeout None (fst (writeMessageWithTimeout no_faults [] [1, 2, 3]) @ [9]) =
     (Message [1, 2, 3], [9])"
  using framing_roundtrip [of "[1, 2, 3]" "[9]"] by (simp add: MaxMessageSize_def)

section \<open>Termination of the server\<close>

interpretation server: round_loop "serve_rounds M F events endRound limit" endRound
  "\<lambda>r sv. if int (sv_sent sv) < sint limit then
      let sv1 = serve_round M F (r < endRound) (length (events r)) (events r) sv
      in if sv_failed sv1 then Inr sv1 else Inl sv1
    else Inr sv" "\<lambda>sv. sv"
  for M F events endRound limit
  by unfold_locales (subst serve_rounds.simps, simp add: Let_def)

lemma serve_rounds_diverges:
  assumes "int (sv_sent sv) < sint limit" and "\<not> sv_failed sv"
  shows "serve_rounds M F (\<lambda>_. []) 18446744073709551615 limit r sv = None"
proof (rule ccontr)
  let ?idle = "\<lambda>events endRound limit sv. events = (\<lambda>_ :: u64. [] :: Event list) \<and>
    endRound = (18446744073709551615 :: u64) \<and> int (sv_sent sv) < sint (limit :: u64) \<and> \<not> sv_failed sv"
  assume "serve_rounds M F (\<lambda>_. []) 18446744073709551615 limit r sv \<noteq> None"
  then obtain out where out: "serve_rounds M F (\<lambda>_. []) 18446744073709551615 limit r sv = Some out" by blast
  have "\<not> ?idle (\<lambda>_. []) 18446744073709551615 limit sv"
  proof (rule serve_rounds.raw_induct [where P = "\<lambda>M F events endRound limit r sv out.
        \<not> ?idle events endRound limit sv", OF _ out])
    fix rec M F and events :: "u64 \<Rightarrow> Event list" and endRound limit r sv out
    assume IH: "\<And>M F events endRound limit r sv out.
        rec M F events endRound limit r sv = Some out \<Longrightarrow> \<not> ?idle events endRound limit sv"
      and body: "(if r \<le> endRound \<and> int (sv_sent sv) < sint limit
        then if sv_failed (serve_round M F (r < endRound) (length (events r)) (events r) sv)
             then Some (serve_round M F (r < endRound) (length (events r)) (events r) sv)
             else rec M F events endRound limit (r + 1)
               (serve_round M F (r < endRound) (length (events r)) (events r) sv)
        else Some sv) = Some out"
    show "\<not> ?idle events endRound limit sv"
    proof
      assume a: "?idle events endRound limit sv"
      have "r \<le> endRound" using a by simp
      with a body have "rec M F events endRound limit (r + 1) sv = Some out" by simp
      from IH [OF this] a show False by simp
    qed
  qed
  with assms show False by simp
qed

text \<open>The server answers every request it can read whose end round is not the greatest
  64-bit number. With that end round the loop's condition always holds and the counter wraps,
  so a server without events, such as a fresh node, never returns.\<close>

theorem sync_server_termination:
  assumes "readMessageWithTimeout dl request = (Message reqData, rest)" and "unmarshal reqData = Inr req"
  shows "(rq_EndRound req < 18446744073709551615 \<longrightarrow>
      (\<exists>out. handleSyncStream unmarshal marshal faults events dl request = Some out)) \<and>
    (rq_EndRound req = 18446744073709551615 \<and> 0 < sint (rq_Limit req) \<longrightarrow>
      handleSyncStream unmarshal marshal faults (\<lambda>_. []) dl request = None)"
proof (intro conjI impI)
  assume "rq_EndRound req < 18446744073709551615"
  then obtain sv where "serve_rounds marshal faults events (rq_EndRound req) (rq_Limit req)
      (rq_StartRound req) \<lparr>sv_sent = 0, sv_writes = 0, sv_stream = [], sv_failed = False\<rparr> = Some sv"
    using server.returns by blast
  then show "\<exists>out. handleSyncStream unmarshal marshal faults events dl request = Some out"
    by (simp add: handleSyncStream_def assms split: sum.splits)
next
  assume "rq_EndRound req = 18446744073709551615 \<and> 0 < sint (rq_Limit req)"
  then show "handleSyncStream unmarshal marshal faults (\<lambda>_. []) dl request = None"
    by (simp add: handleSyncStream_def assms serve_rounds_diverges)
qed

definition full_range :: SyncDAGRequest where
  "full_range = \<lparr>rq_StartRound = 0, rq_EndRound = 18446744073709551615, rq_EventIds = [],
     rq_PeerId = [], rq_IncludeTransactions = False, rq_Limit = 100\<rparr>"

theorem sync_server_termination_witness:
  "handleSyncStream (\<lambda>_. Inr full_range) (\<lambda>_. Inr []) (\<lambda>_. no_faults) (\<lambda>_. []) None (frame [1]) = None"
  using sync_server_termination [where unmarshal = "\<lambda>_. Inr full_range" and req = full_range,
      OF read_frame [of "[1]" "[]"]]
  by (simp add: full_range_def MaxMessageSize_def)

section \<open>Client and server together\<close>

text \<open>
  What protobuf does for given events: the responses that carry them, and the empty one, are
  encoded within the limit on messages and decode to what they were, and the events themselves are
  encoded, as they come and with the metadata the graph sets. Protobuf encodes a message unless a
  string in it is not UTF-8, and then decodes what it encoded, so this says of the events that
  their strings are UTF-8 and that their encodings fit; nothing is said of other events.
\<close>

definition wire_ok :: "'d sync_env \<Rightarrow> (SyncDAGResponse \<Rightarrow> string + bytes) \<Rightarrow> Event list \<Rightarrow> bool" where
  "wire_ok E marshal evs \<longleftrightarrow>
     (\<forall>ev \<in> insert None (Some ` set evs). \<forall>b. \<exists>data. marshal (response ev b) = Inr data \<and>
        length data \<le> MaxMessageSize \<and> se_unmarshalResponse E data = Inr (response ev b)) \<and>
     (\<forall>e \<in> set evs. \<forall>m \<in> {ev_Metadata e, Some (zero_metadata\<lparr>md_IsWitness := True\<rparr>)}.
        \<exists>data. se_marshalEvent E (e\<lparr>ev_Metadata := m\<rparr>) = Inr data)"

definition sent_bytes :: "(SyncDAGResponse \<Rightarrow> string + bytes) \<Rightarrow> SyncDAGResponse \<Rightarrow> bytes" where
  "sent_bytes marshal r = frame (case marshal r of Inl _ \<Rightarrow> [] | Inr data \<Rightarrow> data)"

text \<open>The responses a round is served with, after \<open>k\<close> events of earlier rounds.\<close>

fun responses :: "bool \<Rightarrow> nat \<Rightarrow> nat \<Rightarrow> Event list \<Rightarrow> SyncDAGResponse list" where
  "responses earlier n k [] = []"
| "responses earlier n k (e # es) =
     response (Some e) (earlier \<or> k + 1 < n) # responses earlier n (k + 1) es"

lemma serve_round_responses:
  assumes "\<forall>e \<in> set es. \<forall>b. \<exists>data. marshal (response (Some e) b) = Inr data"
  shows "serve_round marshal (\<lambda>_. no_faults) earlier n es sv =
    sv\<lparr>sv_sent := sv_sent sv + length es, sv_writes := sv_writes sv + length es,
      sv_stream := sv_stream sv @ concat (map (sent_bytes marshal) (responses earlier n (sv_sent sv) es))\<rparr>"
  using assms
proof (induction es arbitrary: sv)
  case (Cons e es)
  obtain data where "marshal (response (Some e) (earlier \<or> sv_sent sv + 1 < n)) = Inr data"
    using Cons.prems by fastforce
  then show ?case
    using Cons by (simp add: write_no_faults sent_bytes_def)
qed simp

lemma receive_event_dag:
  assumes "wire_ok E marshal evs" and "e \<in> set evs"
  shows "\<exists>c' b. receive_event E (Some e) c = (c', Ret b) \<and> cl_dag c' = fst (AddEvent (cl_dag c) (Some e))"
proof (cases "AddEvent (cl_dag c) (Some e)")
  case (Pair d r)
  show ?thesis
  proof (cases r)
    case None
    then have acc: "accepts (cl_dag c) e" using Pair AddEvent_accepts_iff [of "cl_dag c" e] by simp
    then have "GetEvent d (ev_Id e) = Some (stored (cl_dag c) e)"
      using AddEvent_events [OF acc] Pair by (simp add: GetEvent_def)
    moreover have "\<exists>m \<in> {ev_Metadata e, Some (zero_metadata\<lparr>md_IsWitness := True\<rparr>)}.
        stored (cl_dag c) e = e\<lparr>ev_Metadata := m\<rparr>"
      by (simp add: stored_def)
    ultimately obtain data where "se_marshalEvent E (case GetEvent d (ev_Id e) of None \<Rightarrow> e | Some e' \<Rightarrow> e') = Inr data"
      using assms unfolding wire_ok_def by fastforce
    with Pair None show ?thesis by (auto simp: receive_event_def MustMarshal_def)
  next
    case (Some err)
    with Pair have "d = cl_dag c" by (auto simp: AddEvent_def Let_def split: if_splits)
    with Pair Some show ?thesis by (auto simp: receive_event_def)
  qed
qed

lemma client_reads:
  assumes "wire_ok E marshal evs" and "e \<in> set evs"
  obtains c1 k1 where "cl_dag c1 = fst (AddEvent (cl_dag c) (Some e))" "k1 \<le> k + 1"
    "client_loop E capped None (sent_bytes marshal (response (Some e) b) @ rest) k 0 c =
       (if \<not> b then (c1, Ret None) else if capped \<and> k1 > 10000 then (c1, Ret None)
        else client_loop E capped None rest k1 0 c1)"
proof -
  obtain data where d: "marshal (response (Some e) b) = Inr data" "length data \<le> MaxMessageSize"
    "se_unmarshalResponse E data = Inr (response (Some e) b)"
    using assms unfolding wire_ok_def by blast
  obtain c1 a where c1: "receive_event E (Some e) c = (c1, Ret a)" "cl_dag c1 = fst (AddEvent (cl_dag c) (Some e))"
    using receive_event_dag [OF assms] by blast
  let ?k1 = "if a then k + 1 else k"
  have "client_loop E capped None (sent_bytes marshal (response (Some e) b) @ rest) k 0 c =
       (if \<not> b then (c1, Ret None) else if capped \<and> ?k1 > 10000 then (c1, Ret None)
        else client_loop E capped None rest ?k1 0 c1)"
    by (subst client_loop.simps) (simp add: sent_bytes_def d(1) read_frame [OF d(2)] d(3) c1(1))
  with c1(2) show thesis by (intro that [of c1 ?k1]) simp_all
qed

lemma client_reads_round:
  assumes "wire_ok E marshal evs" and "set es \<subseteq> set evs" and "k + length es \<le> 10000"
  shows "\<exists>c1 k1. client_loop E capped None
      (concat (map (sent_bytes marshal) (responses True n s es)) @ rest) k 0 c =
        client_loop E capped None rest k1 0 c1 \<and>
    cl_dag c1 = add_all (cl_dag c) es \<and> k1 \<le> k + length es"
  using assms(2,3)
proof (induction es arbitrary: k c s)
  case Nil
  then show ?case by auto
next
  case (Cons e es)
  have e: "e \<in> set evs" using Cons.prems(1) by simp
  obtain c1 k1 where c1: "cl_dag c1 = fst (AddEvent (cl_dag c) (Some e))" "k1 \<le> k + 1"
    "client_loop E capped None (sent_bytes marshal (response (Some e) True) @
       concat (map (sent_bytes marshal) (responses True n (s + 1) es)) @ rest) k 0 c =
     (if \<not> True then (c1, Ret None) else if capped \<and> k1 > 10000 then (c1, Ret None)
      else client_loop E capped None
        (concat (map (sent_bytes marshal) (responses True n (s + 1) es)) @ rest) k1 0 c1)"
    by (rule client_reads [OF assms(1) e])
  obtain c2 k2 where "client_loop E capped None
      (concat (map (sent_bytes marshal) (responses True n (s + 1) es)) @ rest) k1 0 c1 =
        client_loop E capped None rest k2 0 c2"
    "cl_dag c2 = add_all (cl_dag c1) es" "k2 \<le> k1 + length es"
    using Cons.IH [of k1] Cons.prems c1(2) by fastforce
  with c1 Cons.prems(2) show ?case by fastforce
qed

text \<open>In the last round only the count decides whether more is promised.\<close>

lemma client_reads_last:
  assumes "wire_ok E marshal evs" and "set es \<subseteq> set evs" and "k + length es \<le> 10000" and "es \<noteq> []"
    and "n = s + length es"
  shows "\<exists>c1. client_loop E capped None
      (concat (map (sent_bytes marshal) (responses False n s es)) @ rest) k 0 c = (c1, Ret None) \<and>
    cl_dag c1 = add_all (cl_dag c) es"
  using assms(2-)
proof (induction es arbitrary: k c s)
  case (Cons e es)
  have e: "e \<in> set evs" using Cons.prems(1) by simp
  obtain c1 k1 where c1: "cl_dag c1 = fst (AddEvent (cl_dag c) (Some e))" "k1 \<le> k + 1"
    "client_loop E capped None (sent_bytes marshal (response (Some e) (es \<noteq> [])) @
       concat (map (sent_bytes marshal) (responses False n (s + 1) es)) @ rest) k 0 c =
     (if \<not> es \<noteq> [] then (c1, Ret None) else if capped \<and> k1 > 10000 then (c1, Ret None)
      else client_loop E capped None
        (concat (map (sent_bytes marshal) (responses False n (s + 1) es)) @ rest) k1 0 c1)"
    by (rule client_reads [OF assms(1) e])
  have more: "(s + 1 < n) = (es \<noteq> [])" using Cons.prems(4) by (cases es) auto
  show ?case
  proof (cases es)
    case Nil
    with c1 more show ?thesis by simp
  next
    case (Cons e' es')
    with Cons.IH [of k1 "s + 1" c1] Cons.prems c1(1,2) obtain c2 where
      "client_loop E capped None
        (concat (map (sent_bytes marshal) (responses False n (s + 1) es)) @ rest) k1 0 c1 = (c2, Ret None)"
      "cl_dag c2 = add_all (cl_dag c1) es" by auto
    with c1 more Cons Cons.prems(2) show ?thesis by auto
  qed
qed simp

text \<open>A dialled peer that runs the server of this file over \<open>events\<close>, without faults.\<close>

definition honest_peer :: "(bytes \<Rightarrow> string + SyncDAGRequest) \<Rightarrow> (SyncDAGResponse \<Rightarrow> string + bytes) \<Rightarrow>
    (u64 \<Rightarrow> Event list) \<Rightarrow> stream" where
  "honest_peer unmarshal marshal events sent =
     (case handleSyncStream unmarshal marshal (\<lambda>_. no_faults) events None sent of None \<Rightarrow> [] | Some out \<Rightarrow> out)"

definition request_ok :: "'d sync_env \<Rightarrow> (bytes \<Rightarrow> string + SyncDAGRequest) \<Rightarrow> bool" where
  "request_ok E unmarshal \<longleftrightarrow> (\<forall>req. rq_EventIds req = [] \<and> rq_PeerId req = [] \<longrightarrow>
     (\<exists>data. se_marshalRequest E req = Inr data \<and> length data \<le> MaxMessageSize \<and> unmarshal data = Inr req))"

lemma exchange_honest:
  assumes "request_ok E unmarshal" and "rq_EventIds req = []" and "rq_PeerId req = []"
    and "serve_rounds marshal (\<lambda>_. no_faults) events (rq_EndRound req) (rq_Limit req) (rq_StartRound req)
      \<lparr>sv_sent = 0, sv_writes = 0, sv_stream = [], sv_failed = False\<rparr> = Some sv"
    and "\<not> sv_failed sv" and "wire_ok E marshal evs"
  shows "exchange E capped no_faults None (honest_peer unmarshal marshal events) req c =
    client_loop E capped None (sv_stream sv @ sent_bytes marshal (response None False)) 0 0 c"
proof -
  obtain data where d: "se_marshalRequest E req = Inr data" "length data \<le> MaxMessageSize" "unmarshal data = Inr req"
    using assms(1-3) unfolding request_ok_def by blast
  obtain fin where "marshal (response None False) = Inr fin"
    using assms(6) unfolding wire_ok_def by blast
  then have "honest_peer unmarshal marshal events (frame data) = sv_stream sv @ sent_bytes marshal (response None False)"
    using read_frame [OF d(2), of "[]"]
    by (simp add: honest_peer_def handleSyncStream_def d(3) assms(4,5) write_no_faults sent_bytes_def)
  then show ?thesis by (simp add: exchange_def d(1) write_no_faults)
qed

lemma client_reads_end:
  assumes "wire_ok E marshal evs"
  shows "client_loop E capped None (sent_bytes marshal (response None False) @ rest) k t c = (c, Ret None)"
proof -
  obtain data where d: "marshal (response None False) = Inr data" "length data \<le> MaxMessageSize"
    "se_unmarshalResponse E data = Inr (response None False)"
    using assms unfolding wire_ok_def by blast
  show ?thesis
    by (subst client_loop.simps) (simp add: sent_bytes_def d(1) read_frame [OF d(2)] d(3) receive_event_def)
qed

lemma round_less_next: "(r :: u64) < 18446744073709551615 \<Longrightarrow> r < r + 1"
  by (simp add: word_less_nat_alt [of r "r + 1"] unat_next_word)

lemma round_next:
  assumes "(r :: u64) < 18446744073709551615"
  shows "r \<le> r + 1" "\<not> r + 1 \<le> r"
  using round_less_next [OF assms] by (simp_all only: less_imp_le not_le)

lemma wire_encodes:
  assumes "wire_ok E marshal evs" and "set es \<subseteq> set evs"
  shows "\<forall>e \<in> set es. \<forall>b. \<exists>data. marshal (response (Some e) b) = Inr data"
  using assms unfolding wire_ok_def by (metis imageI insertI2 subsetD)

text \<open>A wire for the witnesses: events are known by their id, requests by their numbers.\<close>

definition put_response :: "SyncDAGResponse \<Rightarrow> bytes" where
  "put_response r = (if rs_HasMore r then 1 else 0) #
     (case rs_Event r of None \<Rightarrow> [] | Some e \<Rightarrow> put_string (bytes_of_string (ev_Id e)))"

definition get_response :: "bytes \<Rightarrow> string + SyncDAGResponse" where
  "get_response d =
     (case d of
        [] \<Rightarrow> Inl ''cannot parse''
      | f # r \<Rightarrow>
          (case get_string r of
             None \<Rightarrow> Inr (response None (f \<noteq> 0))
           | Some (i, _) \<Rightarrow> Inr (response (Some (mk_event (string_of_bytes i) ''v'' [] 1)) (f \<noteq> 0))))"

definition put_request :: "SyncDAGRequest \<Rightarrow> bytes" where
  "put_request r = put_u64 (rq_StartRound r) @ put_u64 (rq_EndRound r) @ put_u64 (rq_Limit r) @
     [if rq_IncludeTransactions r then 1 else 0]"

definition get_request :: "bytes \<Rightarrow> string + SyncDAGRequest" where
  "get_request d0 =
     (case Option.bind (get_u64 d0) (\<lambda>(a, d1). Option.bind (get_u64 d1) (\<lambda>(b, d2).
        map_option (\<lambda>(l, d3). \<lparr>rq_StartRound = a, rq_EndRound = b, rq_EventIds = [], rq_PeerId = [],
          rq_IncludeTransactions = d3 \<noteq> [0], rq_Limit = l\<rparr>) (get_u64 d2))) of
        None \<Rightarrow> Inl ''cannot parse'' | Some r \<Rightarrow> Inr r)"

definition sample_sync :: "(bytes \<rightharpoonup> bytes) sync_env" where
  "sample_sync = \<lparr>se_ldb = mem_ldb, se_marshalRequest = (\<lambda>r. Inr (put_request r)),
     se_unmarshalResponse = get_response, se_marshalEvent = (\<lambda>e. Inr []),
     se_unmarshalEvent = (\<lambda>d. Inl ''cannot parse''), se_text_len = (\<lambda>_. 0)\<rparr>"

definition sample_marshal :: "SyncDAGResponse \<Rightarrow> string + bytes" where
  "sample_marshal r = Inr (put_response r)"

definition sample_events :: "u64 \<Rightarrow> Event list" where
  "sample_events r =
     (if r = 1 then [mk_event ''a'' ''v'' [] 1, mk_event ''b'' ''v'' [] 1]
      else if r = 2 then [mk_event ''c'' ''v'' [] 1, mk_event ''d'' ''v'' [] 1] else [])"

definition sample_client :: "(bytes \<rightharpoonup> bytes) client" where
  "sample_client = \<lparr>cl_dag = NewDAG, cl_mempool = NewMempool 1000, cl_db = Map.empty\<rparr>"

lemma sample_request_ok: "request_ok sample_sync get_request"
proof -
  have "length (put_request r) = 193" for r by (simp add: put_request_def put_u64_def)
  moreover have "get_request (put_request r) = Inr r" if "rq_EventIds r = []" "rq_PeerId r = []" for r
    using that by (cases r) (simp add: get_request_def put_request_def)
  ultimately show ?thesis by (simp add: request_ok_def sample_sync_def MaxMessageSize_def)
qed

lemma sample_wire_ok:
  "wire_ok sample_sync sample_marshal (sample_events 1 @ sample_events 2)"
  "wire_ok sample_sync sample_marshal (sample_events 1)"
proof -
  have "\<exists>data. sample_marshal (response ev b) = Inr data \<and> length data \<le> MaxMessageSize \<and>
      se_unmarshalResponse sample_sync data = Inr (response ev b)"
    if "ev \<in> insert None (Some ` set (sample_events 1 @ sample_events 2))" for ev b
    using that get_put_string [where r = "[]"]
    by (auto simp: sample_events_def sample_marshal_def put_response_def get_response_def sample_sync_def
        MaxMessageSize_def)
  moreover have "\<exists>data. se_marshalEvent sample_sync e = Inr data" for e by (simp add: sample_sync_def)
  ultimately show "wire_ok sample_sync sample_marshal (sample_events 1 @ sample_events 2)"
    "wire_ok sample_sync sample_marshal (sample_events 1)"
    unfolding wire_ok_def by auto
qed

text \<open>C28: synchronising one round, other than the greatest 64-bit number, with an honest peer over a
  stream without faults: when the round has at most 10000 events, whose strings are UTF-8 and whose
  encodings are within 4 MiB, each is handed to the graph, in the order the peer sends them, and no
  error is reported. The server counts its limit of 100 events between rounds, so one round is sent
  whole.\<close>

theorem sync_one_round:
  assumes "request_ok E unmarshal" and "wire_ok E marshal (events r)" and "length (events r) \<le> 10000"
    and "r < 18446744073709551615" and "peerID \<noteq> []"
  shows "\<exists>c'. SyncWithPeer E (Inr (honest_peer unmarshal marshal events)) no_faults None peerID r r c =
      (c', Ret None) \<and> cl_dag c' = add_all (cl_dag c) (events r)"
proof -
  let ?sv0 = "\<lparr>sv_sent = 0, sv_writes = 0, sv_stream = [], sv_failed = False\<rparr>" and ?es = "events r"
  let ?out = "concat (map (sent_bytes marshal) (responses False (length ?es) 0 ?es))"
  have sr: "serve_round marshal (\<lambda>_. no_faults) False (length ?es) ?es ?sv0 =
      \<lparr>sv_sent = length ?es, sv_writes = length ?es, sv_stream = ?out, sv_failed = False\<rparr>"
    using serve_round_responses [OF wire_encodes [OF assms(2) subset_refl]] by simp
  have "serve_rounds marshal (\<lambda>_. no_faults) events r MaxSyncBatchSize r ?sv0 =
      Some \<lparr>sv_sent = length ?es, sv_writes = length ?es, sv_stream = ?out, sv_failed = False\<rparr>"
    using round_next(2) [OF assms(4)]
    by (subst serve_rounds.simps, simp add: sr MaxSyncBatchSize_def)
      (subst serve_rounds.simps, simp)
  from exchange_honest [OF assms(1) _ _ _ _ assms(2), where capped = True and c = c and sv =
      "\<lparr>sv_sent = length ?es, sv_writes = length ?es, sv_stream = ?out, sv_failed = False\<rparr>" and events = events
      and req = "\<lparr>rq_StartRound = r, rq_EndRound = r, rq_EventIds = [], rq_PeerId = [],
        rq_IncludeTransactions = True, rq_Limit = MaxSyncBatchSize\<rparr>"] this
  have x: "SyncWithPeer E (Inr (honest_peer unmarshal marshal events)) no_faults None peerID r r c =
      client_loop E True None (?out @ sent_bytes marshal (response None False)) 0 0 c"
    using assms(5) by (simp add: SyncWithPeer_def)
  show ?thesis
  proof (cases "?es = []")
    case True
    with x client_reads_end [OF assms(2), where rest = "[]"] show ?thesis by simp
  next
    case False
    then show ?thesis
      using client_reads_last [OF assms(2) subset_refl, of 0 "length ?es" 0 True
          "sent_bytes marshal (response None False)" c] assms(3) x by auto
  qed
qed

theorem sync_one_round_witness:
  "\<exists>c'. SyncWithPeer sample_sync (Inr (honest_peer get_request sample_marshal sample_events)) no_faults None
      ''peer'' 1 1 sample_client = (c', Ret None) \<and>
    cl_dag c' = add_all NewDAG [mk_event ''a'' ''v'' [] 1, mk_event ''b'' ''v'' [] 1]"
  using sync_one_round [where E = sample_sync and unmarshal = get_request and marshal = sample_marshal
      and events = sample_events and r = 1 and peerID = "''peer''" and c = sample_client,
      OF sample_request_ok sample_wire_ok(2)]
  by (simp add: sample_events_def sample_client_def)

text \<open>What the server sends for two rounds: in the second, more is promised only while fewer have been
  counted over both than the second holds.\<close>

lemma serves_two_rounds:
  assumes "wire_ok E marshal (events r @ events (r + 1))" and "length (events r) < 100"
    and "r < 18446744073709551615" and "r + 1 < 18446744073709551615"
  shows "serve_rounds marshal (\<lambda>_. no_faults) events (r + 1) MaxSyncBatchSize r
      \<lparr>sv_sent = 0, sv_writes = 0, sv_stream = [], sv_failed = False\<rparr> =
    Some \<lparr>sv_sent = length (events r) + length (events (r + 1)), sv_writes = length (events r) + length (events (r + 1)),
      sv_stream = concat (map (sent_bytes marshal) (responses True (length (events r)) 0 (events r))) @
        concat (map (sent_bytes marshal) (responses False (length (events (r + 1))) (length (events r)) (events (r + 1)))),
      sv_failed = False\<rparr>"
proof -
  let ?A = "events r" and ?B = "events (r + 1)"
  let ?n = "length ?A" and ?enc = "\<lambda>rs. concat (map (sent_bytes marshal) rs)"
  let ?sv0 = "\<lparr>sv_sent = 0, sv_writes = 0, sv_stream = [], sv_failed = False\<rparr>"
  let ?sv1 = "\<lparr>sv_sent = ?n, sv_writes = ?n, sv_stream = ?enc (responses True ?n 0 ?A), sv_failed = False\<rparr>"
  let ?sv2 = "\<lparr>sv_sent = ?n + length ?B, sv_writes = ?n + length ?B,
    sv_stream = ?enc (responses True ?n 0 ?A) @ ?enc (responses False (length ?B) ?n ?B), sv_failed = False\<rparr>"
  have subs: "set ?A \<subseteq> set (?A @ ?B)" "set ?B \<subseteq> set (?A @ ?B)" by auto
  have a: "serve_round marshal (\<lambda>_. no_faults) True ?n ?A ?sv0 = ?sv1"
    using serve_round_responses [OF wire_encodes [OF assms(1) subs(1)]] by simp
  have b: "serve_round marshal (\<lambda>_. no_faults) False (length ?B) ?B ?sv1 = ?sv2"
    using serve_round_responses [OF wire_encodes [OF assms(1) subs(2)]] by simp
  have n1: "r < r + 1" using round_less_next assms(3) by blast
  have "serve_rounds marshal (\<lambda>_. no_faults) events (r + 1) MaxSyncBatchSize r ?sv0 =
      serve_rounds marshal (\<lambda>_. no_faults) events (r + 1) MaxSyncBatchSize (r + 1) ?sv1"
    using n1 round_next(1) [OF assms(3)] by (subst serve_rounds.simps) (simp add: a MaxSyncBatchSize_def)
  also have "\<dots> = serve_rounds marshal (\<lambda>_. no_faults) events (r + 1) MaxSyncBatchSize (r + 1 + 1) ?sv2"
    using assms(2) by (subst serve_rounds.simps) (simp add: b MaxSyncBatchSize_def)
  also have "\<dots> = Some ?sv2"
    using round_next(2) [OF assms(4)] by (subst serve_rounds.simps) simp
  finally show ?thesis .
qed

lemma add_all_snoc: "add_all d (xs @ [e]) = fst (AddEvent (add_all d xs) (Some e))"
  by (induction xs arbitrary: d) simp_all

lemma serves_full_round:
  assumes "wire_ok E marshal (events r)" and "100 \<le> length (events r)" and "r < 18446744073709551615"
  shows "serve_rounds marshal (\<lambda>_. no_faults) events (r + 1) MaxSyncBatchSize r
      \<lparr>sv_sent = 0, sv_writes = 0, sv_stream = [], sv_failed = False\<rparr> =
    Some \<lparr>sv_sent = length (events r), sv_writes = length (events r),
      sv_stream = concat (map (sent_bytes marshal) (responses True (length (events r)) 0 (events r))), sv_failed = False\<rparr>"
proof -
  let ?n = "length (events r)"
  have "serve_round marshal (\<lambda>_. no_faults) True ?n (events r) \<lparr>sv_sent = 0, sv_writes = 0, sv_stream = [], sv_failed = False\<rparr> =
      \<lparr>sv_sent = ?n, sv_writes = ?n, sv_stream = concat (map (sent_bytes marshal) (responses True ?n 0 (events r))), sv_failed = False\<rparr>"
    using serve_round_responses [OF wire_encodes [OF assms(1) subset_refl]] by simp
  then show ?thesis
    using assms(2) round_next(1) [OF assms(3)] round_less_next [OF assms(3)]
    by (subst serve_rounds.simps, simp add: MaxSyncBatchSize_def) (subst serve_rounds.simps, simp)
qed

text \<open>What a client asks for two rounds of an honest peer comes to reading what the server has sent.\<close>

lemma asks_two_rounds:
  assumes "request_ok E unmarshal" and "wire_ok E marshal evs" and "r < 18446744073709551615" and "peerID \<noteq> []"
    and "serve_rounds marshal (\<lambda>_. no_faults) events (r + 1) MaxSyncBatchSize r
      \<lparr>sv_sent = 0, sv_writes = 0, sv_stream = [], sv_failed = False\<rparr> = Some sv" and "\<not> sv_failed sv"
  shows "SyncWithPeer E (Inr (honest_peer unmarshal marshal events)) no_faults None peerID r (r + 1) c =
    client_loop E True None (sv_stream sv @ sent_bytes marshal (response None False)) 0 0 c"
  using exchange_honest [OF assms(1) _ _ _ assms(6,2), where capped = True and c = c and events = events
      and req = "\<lparr>rq_StartRound = r, rq_EndRound = r + 1, rq_EventIds = [], rq_PeerId = [],
        rq_IncludeTransactions = True, rq_Limit = MaxSyncBatchSize\<rparr>"]
    assms(4,5) leD [OF round_next(1) [OF assms(3)]]
  by (simp add: SyncWithPeer_def)

text \<open>C30: over two rounds it loses events. The count that decides whether more is promised runs
  over all rounds, so when the second round has at most one event more than the first, its first
  event already promises no more, and the client stops there and reports no error. When the first
  round has 100 events or more the server's limit is reached and the second round is not sent at
  all; no error is reported then either. The events have UTF-8 strings and encodings within 4 MiB,
  the first round has at most 10000 of them, neither round is the greatest 64-bit number, and the
  peer and the stream are without fault.\<close>

theorem sync_two_rounds_loses:
  assumes "request_ok E unmarshal" and "wire_ok E marshal (events r @ events (r + 1))"
    and "length (events r) \<le> 10000" and "length (events (r + 1)) \<le> length (events r) + 1"
    and "events (r + 1) = e # es" and "r < 18446744073709551615" and "r + 1 < 18446744073709551615"
    and "peerID \<noteq> []"
  shows "\<exists>c'. SyncWithPeer E (Inr (honest_peer unmarshal marshal events)) no_faults None peerID r (r + 1) c =
      (c', Ret None) \<and>
    cl_dag c' = add_all (cl_dag c) (events r @ (if length (events r) < 100 then [e] else []))"
proof -
  let ?A = "events r" and ?B = "events (r + 1)"
  let ?n = "length ?A" and ?enc = "\<lambda>rs. concat (map (sent_bytes marshal) rs)"
  let ?final = "sent_bytes marshal (response None False)"
  have subs: "set ?A \<subseteq> set (?A @ ?B)" by auto
  have wireA: "wire_ok E marshal ?A" using assms(2) unfolding wire_ok_def by auto
  note asks = asks_two_rounds [OF assms(1,2,6,8)]
  have reads: "\<exists>c1 k1. client_loop E True None (?enc (responses True ?n 0 ?A) @ rest) 0 0 c =
      client_loop E True None rest k1 0 c1 \<and> cl_dag c1 = add_all (cl_dag c) ?A" for rest
    using client_reads_round [OF assms(2) subs, of 0 True ?n 0 rest c] assms(3) by fastforce
  show ?thesis
  proof (cases "?n < 100")
    case False
    then have "100 \<le> ?n" by simp
    note x = asks [OF serves_full_round [where events = events and r = r, OF wireA this assms(6)]]
    obtain c1 k1 where "client_loop E True None (?enc (responses True ?n 0 ?A) @ ?final) 0 0 c =
        client_loop E True None ?final k1 0 c1" "cl_dag c1 = add_all (cl_dag c) ?A"
      using reads by blast
    with x False client_reads_end [OF wireA, where rest = "[]"] show ?thesis by simp
  next
    case True
    note x = asks [OF serves_two_rounds [OF assms(2) True assms(6,7)]]
    obtain c1 k1 where c1: "client_loop E True None
        (?enc (responses True ?n 0 ?A) @ ?enc (responses False (length ?B) ?n ?B) @ ?final) 0 0 c =
        client_loop E True None (?enc (responses False (length ?B) ?n ?B) @ ?final) k1 0 c1"
      "cl_dag c1 = add_all (cl_dag c) ?A"
      using reads by blast
    have e: "e \<in> set (?A @ ?B)" using assms(5) by simp
    have last: "\<not> ?n + 1 < length ?B" using assms(4) by simp
    obtain c2 k2 where c2: "cl_dag c2 = fst (AddEvent (cl_dag c1) (Some e))" "k2 \<le> k1 + 1"
      "client_loop E True None (sent_bytes marshal (response (Some e) False) @
          ?enc (responses False (length ?B) (?n + 1) es) @ ?final) k1 0 c1 =
        (if \<not> False then (c2, Ret None) else if True \<and> k2 > 10000 then (c2, Ret None)
         else client_loop E True None (?enc (responses False (length ?B) (?n + 1) es) @ ?final) k2 0 c2)"
      by (rule client_reads [OF assms(2) e])
    show ?thesis using x c1 c2 last assms(5) True by (simp add: add_all_snoc)
  qed
qed

theorem sync_two_rounds_loses_witness:
  "\<exists>c'. SyncWithPeer sample_sync (Inr (honest_peer get_request sample_marshal sample_events)) no_faults None
      ''peer'' 1 2 sample_client = (c', Ret None) \<and>
    cl_dag c' = add_all NewDAG
      [mk_event ''a'' ''v'' [] 1, mk_event ''b'' ''v'' [] 1, mk_event ''c'' ''v'' [] 1]"
proof -
  have "sample_events (1 + 1) = mk_event ''c'' ''v'' [] 1 # [mk_event ''d'' ''v'' [] 1]"
    by (simp add: sample_events_def)
  from sync_two_rounds_loses [where E = sample_sync and unmarshal = get_request and marshal = sample_marshal
      and events = sample_events and r = 1 and peerID = "''peer''" and c = sample_client,
      OF sample_request_ok _ _ _ this]
  show ?thesis using sample_wire_ok(1) by (simp add: sample_events_def sample_client_def)
qed

section \<open>The manager syncs once\<close>

definition done_with :: "string \<Rightarrow> 'd sync_manager \<Rightarrow> bool" where
  "done_with p sm \<longleftrightarrow> (\<exists>peer. map_of (sy_peers sm) p = Some peer \<and> \<not> sp_Connected peer)"

lemma dial_and_sync_peers: "sy_peers (fst (dial_and_sync E rs dial a dl p sm)) = sy_peers sm"
  by (simp add: dial_and_sync_def split: sum.splits prod.splits)

lemma syncWithPeer_done:
  "done_with p sm \<Longrightarrow> syncWithPeer E rs dial a dl p sm = (sm, Ret None)"
  by (auto simp: done_with_def syncWithPeer_def)

lemma syncWithPeer_peers:
  "sy_peers (fst (syncWithPeer E rs dial a dl p sm)) = sy_peers sm \<or>
   sy_peers (fst (syncWithPeer E rs dial a dl p sm)) = sy_peers (set_connected p False (set_connected p True sm))"
  using dial_and_sync_peers [of E rs dial a dl p "set_connected p True sm"]
  by (cases "dial_and_sync E rs dial a dl p (set_connected p True sm)")
    (auto simp: syncWithPeer_def set_connected_def)

lemma done_with_self: "done_with p (fst (syncWithPeer E rs dial a dl p sm))"
proof (cases "done_with p sm")
  case True
  then show ?thesis by (simp add: syncWithPeer_done)
next
  case False
  then have "(case map_of (sy_peers sm) p of None \<Rightarrow> False | Some peer \<Rightarrow> \<not> sp_Connected peer) = False"
    by (auto simp: done_with_def split: option.splits)
  then show ?thesis
    by (simp add: syncWithPeer_def done_with_def set_connected_def split: prod.splits)
qed

lemma done_with_other:
  assumes "done_with p sm"
  shows "done_with p (fst (syncWithPeer E rs dial a dl q sm))"
proof (cases "p = q")
  case True
  then show ?thesis by (simp add: done_with_self)
next
  case False
  then show ?thesis
    using assms syncWithPeer_peers [of E rs dial a dl q sm]
    by (auto simp: done_with_def set_connected_def)
qed

text \<open>Further attempts: each with an order of rounds, a dialling, faults and a peer of its own.\<close>

type_synonym attempt = "string list \<times> (string + stream) \<times> write_answers \<times> string option \<times> string"

fun sync_attempts :: "'d sync_env \<Rightarrow> attempt list \<Rightarrow> 'd sync_manager \<Rightarrow> 'd sync_manager" where
  "sync_attempts E [] sm = sm"
| "sync_attempts E ((rs, dial, a, dl, p) # xs) sm =
     sync_attempts E xs (fst (syncWithPeer E rs dial a dl p sm))"

lemma done_with_attempts: "done_with p sm \<Longrightarrow> done_with p (sync_attempts E xs sm)"
  by (induction E xs sm rule: sync_attempts.induct) (simp_all add: done_with_other)

text \<open>The background sync runs once per peer. The check for a sync in progress is inverted:
  after one attempt, successful or not, every later attempt with that peer, whatever attempts
  with any peers come between, returns without an error and without doing anything.\<close>

theorem peer_synced_once:
  "syncWithPeer E rs' dial' a' dl' p
      (sync_attempts E xs (fst (syncWithPeer E rs dial a dl p sm))) =
    (sync_attempts E xs (fst (syncWithPeer E rs dial a dl p sm)), Ret None)"
  by (rule syncWithPeer_done [OF done_with_attempts [OF done_with_self]])

end
