(* ===== verification/Peers.thy ===== *)
theory Peers
  imports Network Float64
begin

text \<open>
  The peer management of the network, \<open>pkg/network/p2p_production.go\<close>: discovery, connecting,
  scores, the removal of poorly scored and of excess peers, statistics. The host and the
  distributed hash table are parameters: \<open>host_view\<close> is what the host says of its connections at
  the moment of a call. Times are nanoseconds. The three loops call \<open>findPeers\<close>,
  \<open>updatePeerScores\<close> with \<open>removePoorPeers\<close>, and \<open>maintainPeerCount\<close> at their tickers.
\<close>

section \<open>State\<close>

datatype direction = DirUnknown | DirInbound | DirOutbound

record conn =
  cn_Direction :: direction
  cn_Remote :: string

record host_view =
  hv_ID :: string
  hv_Peers :: "string list"
  hv_Conns :: "string \<Rightarrow> conn list"

record PeerInfo =
  pi_ID :: string
  pi_Address :: string
  pi_Connection :: "conn option"
  pi_Direction :: direction
  pi_Latency :: i64
  pi_LastSeen :: int
  pi_ProtocolVersion :: string
  pi_ChainID :: string
  pi_Round :: u64
  pi_Score :: float64

definition maxPeers :: nat where "maxPeers = 200"
definition minPeers :: nat where "minPeers = 10"
definition peerScoreDecay :: float64 where "peerScoreDecay = Finite (round53 (95 / 100))"
definition peerScoreThreshold :: float64 where "peerScoreThreshold = Finite (- 50)"
definition five_minutes :: int where "five_minutes = 5 * 60 * 1000000000"

type_synonym peer_table = "(string \<times> PeerInfo) list"

record 'h P2PNetworkProduction =
  pn_parent :: "'h P2PNetwork"
  pn_peers :: peer_table

section \<open>Construction\<close>

text \<open>
  The peers the bootstrap connects to; for an address, what parsing and connecting answer. Its
  errors are logged, and so are those of the hash table's own bootstrap.
\<close>

definition bootstrapDHT :: "(string \<Rightarrow> string + AddrInfo) \<Rightarrow> (AddrInfo \<Rightarrow> string option) \<Rightarrow> 'h P2PNetwork \<Rightarrow>
    AddrInfo list" where
  "bootstrapDHT parse connect n =
     concat (map (\<lambda>addr.
         case parse addr of
           Inl err \<Rightarrow> []
         | Inr addrInfo \<Rightarrow> if connect addrInfo \<noteq> None then [] else [addrInfo])
       (pc_BootstrapPeers (cf_P2P (nt_config n))))"

text \<open>\<open>dht\<close> is what the constructor of the hash table answers.\<close>

definition NewP2PNetworkProduction :: "string option \<Rightarrow> 'h P2PNetwork option \<Rightarrow> string + 'h P2PNetworkProduction" where
  "NewP2PNetworkProduction dht parent =
     (case parent of
        None \<Rightarrow> Inl ''parent network not initialized''
      | Some n \<Rightarrow>
          if nt_host n = None then Inl ''parent network not initialized''
          else
            (case dht of
               Some e \<Rightarrow> Inl (wrap ''failed to create DHT'' e)
             | None \<Rightarrow> Inr \<lparr>pn_parent = n, pn_peers = []\<rparr>))"

section \<open>Discovery\<close>

definition getPeerInfo :: "peer_table \<Rightarrow> string \<Rightarrow> PeerInfo option" where
  "getPeerInfo peers i = map_of peers i"

text \<open>The peers a goroutine is started for, among those found.\<close>

fun find_loop :: "string \<Rightarrow> peer_table \<Rightarrow> AddrInfo list \<Rightarrow> AddrInfo list" where
  "find_loop self peers [] = []"
| "find_loop self peers (p # ps) =
     (if ai_ID p = self then find_loop self peers ps
      else if getPeerInfo peers (ai_ID p) \<noteq> None then find_loop self peers ps
      else if length peers \<ge> maxPeers then []
      else p # find_loop self peers ps)"

definition findPeers :: "host_view \<Rightarrow> string + AddrInfo list \<Rightarrow> peer_table \<Rightarrow> AddrInfo list" where
  "findPeers H found peers =
     (case found of Inl err \<Rightarrow> [] | Inr ps \<Rightarrow> find_loop (hv_ID H) peers ps)"

text \<open>
  \<open>dialled\<close> is what \<open>Connect\<close> answers, \<open>H\<close> the host afterwards. The first address and the
  first connection are read without a test.
\<close>

definition connectToPeer :: "string option \<Rightarrow> host_view \<Rightarrow> int \<Rightarrow> AddrInfo \<Rightarrow> peer_table \<Rightarrow> peer_table outcome" where
  "connectToPeer dialled H now peerInfo peers =
     (case dialled of
        Some err \<Rightarrow> Ret peers
      | None \<Rightarrow>
          (case ai_Addrs peerInfo of
             [] \<Rightarrow> Panic ''index out of range''
           | addr # _ \<Rightarrow>
               (case hv_Conns H (ai_ID peerInfo) of
                  [] \<Rightarrow> Panic ''index out of range''
                | c # _ \<Rightarrow>
                    Ret (AList.update (ai_ID peerInfo)
                      \<lparr>pi_ID = ai_ID peerInfo, pi_Address = addr, pi_Connection = Some c,
                       pi_Direction = cn_Direction c, pi_Latency = 0, pi_LastSeen = now,
                       pi_ProtocolVersion = [], pi_ChainID = [], pi_Round = 0, pi_Score = Finite 0\<rparr> peers))))"

section \<open>Scores\<close>

definition update_score :: "host_view \<Rightarrow> int \<Rightarrow> string \<Rightarrow> PeerInfo \<Rightarrow> PeerInfo" where
  "update_score H now i peer =
     (let s1 = f64_mul (pi_Score peer) peerScoreDecay;
          s2 = (case hv_Conns H i of
                  [] \<Rightarrow> s1
                | c # _ \<Rightarrow> if cn_Direction c = DirInbound then f64_add s1 (Finite 1) else s1);
          s3 = (if now - pi_LastSeen peer > five_minutes then f64_add s2 (Finite (- 5)) else s2)
      in peer\<lparr>pi_Score := s3\<rparr>)"

definition updatePeerScores :: "host_view \<Rightarrow> int \<Rightarrow> peer_table \<Rightarrow> peer_table" where
  "updatePeerScores H now peers = map (\<lambda>(i, peer). (i, update_score H now i peer)) peers"

text \<open>The table that remains and the connections closed.\<close>

definition poor :: "PeerInfo \<Rightarrow> bool" where
  "poor peer \<longleftrightarrow> f64_less (pi_Score peer) peerScoreThreshold"

definition removePoorPeers :: "host_view \<Rightarrow> peer_table \<Rightarrow> peer_table \<times> conn list" where
  "removePoorPeers H peers =
     (filter (\<lambda>(i, peer). \<not> poor peer) peers,
      concat (map (\<lambda>(i, peer). if poor peer then hv_Conns H i else []) peers))"

text \<open>One tick of \<open>peerScoringLoop\<close>.\<close>

definition scoring_tick :: "host_view \<Rightarrow> int \<Rightarrow> peer_table \<Rightarrow> peer_table" where
  "scoring_tick H now peers = fst (removePoorPeers H (updatePeerScores H now peers))"

section \<open>The number of peers\<close>

definition at_most_zero :: "float64 \<Rightarrow> bool" where
  "at_most_zero s \<longleftrightarrow> f64_less s (Finite 0) \<or> f64_eq s (Finite 0)"

fun trim_loop :: "host_view \<Rightarrow> string list \<Rightarrow> peer_table \<Rightarrow> peer_table \<times> conn list" where
  "trim_loop H [] peers = (peers, [])"
| "trim_loop H (p # ps) peers =
     (case map_of peers p of
        None \<Rightarrow> trim_loop H ps peers
      | Some info \<Rightarrow>
          if at_most_zero (pi_Score info)
          then (case trim_loop H ps (AList.delete p peers) of (peers', cs) \<Rightarrow> (peers', hv_Conns H p @ cs))
          else trim_loop H ps peers)"

definition trimExcessPeers :: "host_view \<Rightarrow> peer_table \<Rightarrow> peer_table \<times> conn list" where
  "trimExcessPeers H peers = trim_loop H (drop (maxPeers - 10) (hv_Peers H)) peers"

text \<open>What it changes and whom it starts to connect to.\<close>

definition maintainPeerCount :: "host_view \<Rightarrow> string + AddrInfo list \<Rightarrow> peer_table \<Rightarrow> peer_table \<times> AddrInfo list" where
  "maintainPeerCount H found peers =
     (let count = length (hv_Peers H) in
      if count < minPeers then (peers, findPeers H found peers)
      else if count > maxPeers then (fst (trimExcessPeers H peers), [])
      else (peers, []))"

section \<open>Statistics\<close>

fun minScore :: "float64 list \<Rightarrow> float64" where
  "minScore [] = Finite 0"
| "minScore (s # ss) = fold (\<lambda>s m. if f64_less s m then s else m) ss s"

fun maxScore :: "float64 list \<Rightarrow> float64" where
  "maxScore [] = Finite 0"
| "maxScore (s # ss) = fold (\<lambda>s m. if f64_less m s then s else m) ss s"

record peer_stats =
  ps_connected :: nat
  ps_tracked :: nat
  ps_scores :: "(float64 \<times> float64 \<times> float64) option"

text \<open>Average, least and greatest score; \<open>ks\<close> is the order in which Go visits the table.\<close>

definition GetPeerStats :: "string list \<Rightarrow> peer_table \<Rightarrow> peer_stats" where
  "GetPeerStats ks peers =
     (let scores = map pi_Score (filter (\<lambda>peer. pi_Connection peer \<noteq> None) (range_values ks peers)) in
      \<lparr>ps_connected = length scores, ps_tracked = length peers,
       ps_scores =
         (if length scores > 0
          then Some (f64_div (fold (\<lambda>s sum. f64_add sum s) scores (Finite 0)) (f64_of_u64 (word_of_nat (length scores))),
                     minScore scores, maxScore scores)
          else None)\<rparr>)"

section \<open>Steps\<close>

inductive peers_step :: "peer_table \<Rightarrow> peer_table \<Rightarrow> bool" where
  connect: "connectToPeer r H now info ps = Ret ps' \<Longrightarrow> peers_step ps ps'"
| scores: "peers_step ps (updatePeerScores H now ps)"
| remove: "peers_step ps (fst (removePoorPeers H ps))"
| maintain: "peers_step ps (fst (maintainPeerCount H found ps))"

section \<open>Bounds on scores\<close>

text \<open>The decay factor is a \<open>float64\<close> next to 0.95.\<close>

lemma decay_bounds: "9499 / 10000 \<le> round53 (95 / 100) \<and> round53 (95 / 100) \<le> 95 / 100"
  by code_simp

definition decayed :: "int \<Rightarrow> int" where
  "decayed u = (if 0 \<le> u then (95 * u + 99) div 100 else - (9499 * (- u) div 10000))"

lemma decayed_bound:
  assumes "s \<le> of_int u" shows "s * round53 (95 / 100) \<le> of_int (decayed u)"
proof -
  define c where "c = round53 (95 / 100)"
  have c: "9499 / 10000 \<le> c" "c \<le> 95 / 100" using decay_bounds unfolding c_def by auto
  have "s * c \<le> of_int u * c" using assms c(1) by (intro mult_right_mono) auto
  also have "\<dots> \<le> of_int (decayed u)"
  proof (cases "0 \<le> u")
    case True
    have "95 * u \<le> 100 * ((95 * u + 99) div 100)" by linarith
    then have "(95 * of_int u :: rat) \<le> 100 * of_int ((95 * u + 99) div 100)"
      by (metis of_int_le_iff of_int_mult of_int_numeral)
    moreover have "of_int u * c \<le> of_int u * (95 / 100)" using c(2) True by (intro mult_left_mono) auto
    ultimately show ?thesis using True by (simp add: decayed_def)
  next
    case False
    have "10000 * (9499 * (- u) div 10000) \<le> 9499 * (- u)" by linarith
    then have "(10000 * of_int (9499 * (- u) div 10000) :: rat) \<le> 9499 * of_int (- u)"
      by (metis of_int_le_iff of_int_mult of_int_numeral)
    then have "of_int u * (9499 / 10000 :: rat) \<le> of_int (decayed u)"
      using False by (simp add: decayed_def)
    moreover have "of_int u * c \<le> of_int u * (9499 / 10000)"
      using c(1) False by (intro mult_left_mono_neg) auto
    ultimately show ?thesis by (rule order_trans [rotated])
  qed
  finally show ?thesis unfolding c_def .
qed

lemma decayed_range: "\<bar>u\<bar> \<le> 1000 \<Longrightarrow> \<bar>decayed u\<bar> \<le> 1000"
  by (auto simp: decayed_def)

text \<open>What one update can do to a score at most, and what it does to that of an idle peer.\<close>

lemma update_score_bound:
  assumes "pi_Score p = Finite s" and "s \<le> of_int u" and "\<bar>u\<bar> \<le> 1000"
  shows "\<exists>q. pi_Score (update_score H now i p) = Finite q \<and>
    q \<le> of_int (decayed u + 1 - (if now - pi_LastSeen p > five_minutes then 5 else 0))"
proof -
  let ?v = "decayed u"
  have v: "\<bar>?v\<bar> \<le> 1000" using decayed_range [OF assms(3)] .
  define a where "a = round53 (s * round53 (95 / 100))"
  have m: "f64_mul (pi_Score p) peerScoreDecay = Finite a"
    by (simp add: peerScoreDecay_def assms(1) a_def)
  have a: "a \<le> of_int ?v"
    unfolding a_def using decayed_bound [OF assms(2)] v by (intro round53_le_int) auto
  have b: "round53 (a + 1) \<le> of_int (?v + 1)"
    using a v by (intro round53_le_int) auto
  have p: "round53 (x + - 5) \<le> of_int (?v + 1 - 5)" if "x \<le> of_int (?v + 1)" for x
    using that v by (intro round53_le_int) auto
  have a': "a \<le> of_int (?v + 1)" using a by simp
  show ?thesis
    using a' b p [OF a'] p [OF b]
    by (auto simp: update_score_def Let_def m split: list.splits)
qed

definition scores_ok :: "peer_table \<Rightarrow> bool" where
  "scores_ok ps \<longleftrightarrow> distinct (keys ps) \<and> (\<forall>(i, p) \<in> set ps. \<exists>s. pi_Score p = Finite s \<and> s \<le> 20)"

lemma scores_okD:
  assumes "scores_ok ps" and "map_of ps i = Some p"
  shows "\<exists>s. pi_Score p = Finite s \<and> s \<le> 20"
  using assms map_of_SomeD [of ps i p] by (auto simp: scores_ok_def)

lemma keys_updatePeerScores [simp]: "keys (updatePeerScores H now ps) = keys ps"
  by (induction ps) (auto simp: keys_def updatePeerScores_def)

lemma map_of_updatePeerScores:
  "map_of (updatePeerScores H now ps) i = map_option (update_score H now i) (map_of ps i)"
  by (induction ps) (auto simp: updatePeerScores_def)

lemma map_of_removePoorPeers:
  "distinct (keys ps) \<Longrightarrow> map_of (fst (removePoorPeers H ps)) i =
     (case map_of ps i of None \<Rightarrow> None | Some p \<Rightarrow> if poor p then None else Some p)"
  by (induction ps) (auto simp: removePoorPeers_def keys_def map_of_eq_None_iff split: option.splits)

lemma scores_ok_subset: "scores_ok ps \<Longrightarrow> set qs \<subseteq> set ps \<Longrightarrow> distinct (keys qs) \<Longrightarrow> scores_ok qs"
  by (auto simp: scores_ok_def)

lemma distinct_keys_filter: "distinct (keys ps) \<Longrightarrow> distinct (keys (filter P ps))"
  by (induction ps) (auto simp: keys_def)

lemma scores_ok_remove: "scores_ok ps \<Longrightarrow> scores_ok (fst (removePoorPeers H ps))"
  using scores_ok_subset [of ps "filter (\<lambda>(i, peer). \<not> poor peer) ps"]
  by (auto simp: removePoorPeers_def scores_ok_def distinct_keys_filter)

lemma scores_ok_update: "scores_ok ps \<Longrightarrow> scores_ok (updatePeerScores H now ps)"
proof -
  assume ok: "scores_ok ps"
  have "\<exists>q. pi_Score (update_score H now i p) = Finite q \<and> q \<le> 20" if ip: "(i, p) \<in> set ps" for i p
  proof -
    from ok ip obtain s where s: "pi_Score p = Finite s" "s \<le> of_int 20" by (auto simp: scores_ok_def)
    from update_score_bound [OF s, of H now i] obtain q where "pi_Score (update_score H now i p) = Finite q"
      "q \<le> of_int (decayed 20 + 1 - (if now - pi_LastSeen p > five_minutes then 5 else 0))" by auto
    moreover have "decayed 20 = 19" by (simp add: decayed_def)
    ultimately show ?thesis by (auto split: if_splits)
  qed
  then have "\<forall>(i, p) \<in> set (updatePeerScores H now ps). \<exists>q. pi_Score p = Finite q \<and> q \<le> 20"
    by (auto simp: updatePeerScores_def)
  then show ?thesis using ok by (simp add: scores_ok_def)
qed

lemma scores_ok_delete: "scores_ok ps \<Longrightarrow> scores_ok (AList.delete k ps)"
  using scores_ok_subset [of ps "AList.delete k ps"]
  by (auto simp: scores_ok_def AList.delete_eq distinct_keys_filter)

lemma scores_ok_trim: "scores_ok ps \<Longrightarrow> scores_ok (fst (trim_loop H qs ps))"
  by (induction H qs ps rule: trim_loop.induct) (auto simp: scores_ok_delete split: option.splits prod.splits)

lemma scores_ok_insert:
  assumes "scores_ok ps" and "pi_Score p = Finite 0" shows "scores_ok (AList.update i p ps)"
proof -
  have "set (AList.update i p ps) \<subseteq> insert (i, p) (set ps)"
    by (induction ps) auto
  then show ?thesis using assms by (auto simp: scores_ok_def)
qed

lemma scores_ok_step: "peers_step ps ps' \<Longrightarrow> scores_ok ps \<Longrightarrow> scores_ok ps'"
proof (induction rule: peers_step.induct)
  case (connect r H now info ps ps')
  then show ?case
    by (auto simp: connectToPeer_def scores_ok_insert split: option.splits list.splits)
qed (simp_all add: scores_ok_update scores_ok_remove scores_ok_trim maintainPeerCount_def trimExcessPeers_def Let_def)

interpretation scored_peers: keeping_steps peers_step scores_ok
  by unfold_locales (rule scores_ok_step)

lemma scores_ok_reachable: "peers_step\<^sup>*\<^sup>* [] ps \<Longrightarrow> scores_ok ps"
  by (erule scored_peers.run) (simp add: scores_ok_def keys_def)

section \<open>The removal of idle peers\<close>

text \<open>The bound an idle tick leaves on a score, and whether \<open>n\<close> of them end below the threshold.\<close>

definition worst :: "int \<Rightarrow> int" where
  "worst u = decayed u - 4"

fun removed_by :: "nat \<Rightarrow> int \<Rightarrow> bool" where
  "removed_by 0 u = False"
| "removed_by (Suc n) u = (worst u \<le> - 51 \<or> removed_by n (worst u))"

lemma removed_by_33: "removed_by 33 20"
  by code_simp

definition ticks :: "(host_view \<times> int) list \<Rightarrow> peer_table \<Rightarrow> peer_table" where
  "ticks ts ps = fold (\<lambda>(H, now). scoring_tick H now) ts ps"

lemma ticks_simps [simp]:
  "ticks [] ps = ps" "ticks ((H, now) # ts) ps = ticks ts (scoring_tick H now ps)"
  by (simp_all add: ticks_def)

lemma scores_ok_tick: "scores_ok ps \<Longrightarrow> scores_ok (scoring_tick H now ps)"
  by (simp add: scoring_tick_def scores_ok_remove scores_ok_update)

lemma map_of_scoring_tick:
  assumes "scores_ok ps"
  shows "map_of (scoring_tick H now ps) i =
    (case map_of ps i of
       None \<Rightarrow> None
     | Some p \<Rightarrow> let p' = update_score H now i p in if poor p' then None else Some p')"
  using assms
  by (simp add: scoring_tick_def map_of_removePoorPeers map_of_updatePeerScores scores_ok_def Let_def split: option.split)

lemma ticks_removed: "scores_ok ps \<Longrightarrow> map_of ps i = None \<Longrightarrow> map_of (ticks ts ps) i = None"
  by (induction ts arbitrary: ps) (auto simp: scores_ok_tick map_of_scoring_tick)

lemma LastSeen_update [simp]: "pi_LastSeen (update_score H now i p) = pi_LastSeen p"
  by (simp add: update_score_def Let_def)

lemma idle_removed:
  assumes "removed_by n u" and "n \<le> length ts" and "scores_ok ps" and "map_of ps i = Some p"
    and "pi_Score p = Finite s" and "s \<le> of_int u" and "\<bar>u\<bar> \<le> 60"
    and "\<forall>(H, now) \<in> set ts. now > pi_LastSeen p + five_minutes"
  shows "map_of (ticks ts ps) i = None"
  using assms
proof (induction n arbitrary: u ts ps p s)
  case (Suc n)
  then obtain H now ts' where ts: "ts = (H, now) # ts'" by (cases ts) auto
  let ?p = "update_score H now i p" and ?ps = "scoring_tick H now ps"
  have ok: "scores_ok ?ps" using Suc.prems(3) by (rule scores_ok_tick)
  have "\<bar>u\<bar> \<le> 1000" using Suc.prems(7) by simp
  from update_score_bound [OF Suc.prems(5,6) this, of H now i] Suc.prems(8) ts
  obtain q where q: "pi_Score ?p = Finite q" "q \<le> of_int (worst u)"
    by (auto simp: worst_def)
  show ?case
  proof (cases "poor ?p")
    case True
    then have "map_of ?ps i = None"
      using Suc.prems(3,4) by (simp add: map_of_scoring_tick Let_def)
    then show ?thesis using ticks_removed [OF ok] ts by simp
  next
    case False
    then have m: "map_of ?ps i = Some ?p"
      using Suc.prems(3,4) by (simp add: map_of_scoring_tick Let_def)
    have "\<not> q < - 50" using False q(1) by (simp add: poor_def peerScoreThreshold_def)
    then have w: "\<not> worst u \<le> - 51" using q(2) by linarith
    then have "\<bar>worst u\<bar> \<le> 60" using Suc.prems(7) by (auto simp: worst_def decayed_def)
    moreover have "removed_by n (worst u)" using Suc.prems(1) w by simp
    ultimately show ?thesis
      using Suc.IH [OF _ _ ok m q] Suc.prems(2,8) ts by simp
  qed
qed simp

section \<open>Properties\<close>

text \<open>C33: the score removes every peer. Whatever connections, removals and scores came before, and
  however well a peer behaves and is connected, 33 ticks of the scoring loop (33 minutes) that
  come more than five minutes after the peer was connected leave it out of the table: the time it
  was last seen is never renewed.\<close>

theorem every_peer_removed:
  assumes "peers_step\<^sup>*\<^sup>* [] ps" and "map_of ps i = Some p" and "33 \<le> length ts"
    and "\<forall>(H, now) \<in> set ts. now > pi_LastSeen p + five_minutes"
  shows "map_of (ticks ts ps) i = None"
proof -
  have ok: "scores_ok ps" using assms(1) by (rule scores_ok_reachable)
  with assms(2) obtain s where "pi_Score p = Finite s" "s \<le> of_int 20"
    using scores_okD by fastforce
  from idle_removed [OF removed_by_33 assms(3) ok assms(2) this _ assms(4)] show ?thesis by simp
qed

definition inbound_host :: host_view where
  "inbound_host = \<lparr>hv_ID = ''self'', hv_Peers = [''p''], hv_Conns = (\<lambda>_. [\<lparr>cn_Direction = DirInbound, cn_Remote = ''a''\<rparr>])\<rparr>"

definition one_peer :: peer_table where
  "one_peer = (case connectToPeer None inbound_host 0 \<lparr>ai_ID = ''p'', ai_Addrs = [''a'']\<rparr> [] of Ret ps \<Rightarrow> ps)"

theorem every_peer_removed_witness:
  "map_of (ticks (replicate 33 (inbound_host, 6 * 60 * 1000000000)) one_peer) ''p'' = None"
proof -
  obtain p where p: "connectToPeer None inbound_host 0 \<lparr>ai_ID = ''p'', ai_Addrs = [''a'']\<rparr> [] = Ret one_peer"
    "map_of one_peer ''p'' = Some p" "pi_LastSeen p = 0"
    by (simp add: one_peer_def connectToPeer_def inbound_host_def)
  have "peers_step\<^sup>*\<^sup>* [] one_peer"
    using peers_step.connect [OF p(1)] by (rule r_into_rtranclp)
  from every_peer_removed [OF this p(2), of "replicate 33 (inbound_host, 6 * 60 * 1000000000)"] p(3)
  show ?thesis by (simp add: five_minutes_def)
qed

text \<open>A discovered peer without addresses, or one whose connection is gone again, ends the process:
  the panic is in a goroutine of its own.\<close>

theorem connectToPeer_panics:
  "connectToPeer None H now info ps = Panic ''index out of range'' \<longleftrightarrow>
     ai_Addrs info = [] \<or> hv_Conns H (ai_ID info) = []"
  by (simp add: connectToPeer_def split: list.splits)

text \<open>The least score is one of the scores and no score is below it, unless there is a NaN.\<close>

lemma minScore_fold:
  "\<forall>s \<in> insert m (set ss). s \<noteq> NaN \<Longrightarrow>
     fold (\<lambda>s m. if f64_less s m then s else m) ss m = Min (insert m (set ss))"
proof (induction ss arbitrary: m)
  case (Cons s ss)
  then have "fold (\<lambda>s m. if f64_less s m then s else m) ss (min s m) = Min (insert (min s m) (set ss))"
    by (intro Cons.IH) (auto simp: min_def)
  moreover have "(if f64_less s m then s else m) = min s m"
    using Cons.prems by (auto simp: f64_less_iff min_def)
  moreover have "Min (insert (min s m) (set ss)) = Min (insert m (insert s (set ss)))"
    by (cases "ss = []") (simp_all add: ac_simps)
  ultimately show ?case by simp
qed simp

lemma minScore_least: "ss \<noteq> [] \<Longrightarrow> NaN \<notin> set ss \<Longrightarrow> minScore ss = Min (set ss)"
  by (cases ss) (simp_all add: minScore_fold, blast intro: minScore_fold)

end
