(* ===== verification/Api.thy ===== *)
theory Api
  imports Mempool Consensus Storage Network
begin

text \<open>
  The API server of \<open>pkg/api\<close>: \<open>gateway.go\<close> (construction and interceptors; the rest of it is in
  \<open>Gateway\<close>), \<open>node_service.go\<close> and \<open>admin_service.go\<close>. A handler returns a status code with a
  message or its response, or panics; \<open>recoveryInterceptor\<close> turns a panic into a status. The
  server's \<open>p2p\<close>, which the handlers read but the type does not declare, is a field here. gRPC,
  HTTP, the clock, the run-time system and protobuf are parameters.
\<close>

section \<open>The server\<close>

datatype grpc_code = CodeInvalidArgument | CodeNotFound | CodeInternal | CodePermissionDenied

type_synonym 'a answer = "(grpc_code \<times> string) + 'a"

datatype server_state = SrvServing | SrvStopped

record ('d, 'h) APIServer =
  as_config :: Config
  as_grpcSrv :: "server_state option"
  as_gateway :: "server_state option"
  as_storage :: 'd
  as_mempool :: Mempool
  as_consensus :: Engine
  as_p2p :: "'h P2PNetwork option"

definition NewAPIServer :: "Config \<Rightarrow> 'd \<Rightarrow> Mempool \<Rightarrow> Engine \<Rightarrow> ('d, 'h) APIServer" where
  "NewAPIServer cfg store mp cons =
     \<lparr>as_config = cfg, as_grpcSrv = None, as_gateway = None, as_storage = store, as_mempool = mp, as_consensus = cons, as_p2p = None\<rparr>"

definition recoveryInterceptor :: "'a answer outcome \<Rightarrow> 'a answer" where
  "recoveryInterceptor handler =
     (case handler of
        Ret resp \<Rightarrow> resp
      | Panic r \<Rightarrow> Inl (CodeInternal, ''panic recovered: '' @ r))"

definition rateLimitInterceptor :: "'a answer outcome \<Rightarrow> 'a answer outcome" where
  "rateLimitInterceptor handler = handler"

text \<open>The chain of \<open>startGRPC\<close>, whose logging interceptor passes everything on.\<close>

definition unary_call :: "'a answer outcome \<Rightarrow> 'a answer" where
  "unary_call handler = recoveryInterceptor (rateLimitInterceptor handler)"

section \<open>Transactions\<close>

record 'd api_env =
  ae_ldb :: "'d leveldb"
  ae_text_len :: "Transaction \<Rightarrow> nat"
  ae_marshalTx :: "Transaction \<Rightarrow> string + bytes"
  ae_unmarshalTx :: "bytes \<Rightarrow> string + Transaction"
  ae_unmarshalEvent :: "bytes \<Rightarrow> string + Event"

record SubmitTxResponse =
  sr_TxId :: string
  sr_Status :: string
  sr_ErrorMessage :: string
  sr_EstimatedGas :: u64
  sr_Timestamp :: int

definition submitted :: "string \<Rightarrow> string \<Rightarrow> string \<Rightarrow> int \<Rightarrow> SubmitTxResponse" where
  "submitted i st msg now = \<lparr>sr_TxId = i, sr_Status = st, sr_ErrorMessage = msg, sr_EstimatedGas = 0, sr_Timestamp = now\<rparr>"

definition api_validateTransaction :: "('d, 'h) APIServer \<Rightarrow> Transaction \<Rightarrow> string option" where
  "api_validateTransaction s tx =
     (if tx_ChainId tx \<noteq> nc_ChainID (cf_Network (as_config s)) then Some (''invalid chain ID: '' @ tx_ChainId tx)
      else if tx_NetworkId tx \<noteq> nc_NetworkID (cf_Network (as_config s))
      then Some (''invalid network ID: '' @ tx_NetworkId tx)
      else if tx_Fee tx < cs_MinGasPrice (cf_Consensus (as_config s))
      then Some (''fee below minimum: '' @ fmt_u64 (tx_Fee tx) @ '' < '' @ fmt_u64 (cs_MinGasPrice (cf_Consensus (as_config s))))
      else if tx_GasLimit tx > cs_MaxGasPerRound (cf_Consensus (as_config s))
      then Some (''gas limit exceeds maximum: '' @ fmt_u64 (tx_GasLimit tx) @ '' > '' @
        fmt_u64 (cs_MaxGasPerRound (cf_Consensus (as_config s))))
      else None)"

text \<open>
  The server afterwards, the message published, and the answer. An error of \<open>Has\<close> counts as
  not existing; a failed broadcast is only logged. \<open>publish\<close> is the answer of the topic.
\<close>

definition SubmitTx :: "'d api_env \<Rightarrow> string option \<Rightarrow> int \<Rightarrow> Transaction option \<Rightarrow> bool \<Rightarrow> ('d, 'h) APIServer \<Rightarrow>
    ('d, 'h) APIServer \<times> bytes option \<times> SubmitTxResponse answer outcome" where
  "SubmitTx E publish now transaction async s =
     (case transaction of
        None \<Rightarrow> (s, None, Ret (Inl (CodeInvalidArgument, ''transaction is required'')))
      | Some tx \<Rightarrow>
          (case api_validateTransaction s tx of
             Some err \<Rightarrow> (s, None, Ret (Inl (CodeInvalidArgument, err)))
           | None \<Rightarrow>
               if EventStore_Has (ae_ldb E) (as_storage s) (bytes_of_string (tx_Id tx)) = Inr True
               then (s, None, Ret (Inr (submitted (tx_Id tx) ''already_exists'' [] now)))
               else
                 (case Mempool_Add (ae_text_len E) (as_mempool s) tx of
                    (mp, Panic m) \<Rightarrow> (s\<lparr>as_mempool := mp\<rparr>, None, Panic m)
                  | (mp, Ret False) \<Rightarrow>
                      (s\<lparr>as_mempool := mp\<rparr>, None,
                       Ret (Inr (submitted (tx_Id tx) ''rejected'' ''mempool full or duplicate transaction'' now)))
                  | (mp, Ret True) \<Rightarrow>
                      (s\<lparr>as_mempool := mp\<rparr>,
                       (case as_p2p s of None \<Rightarrow> None | Some n \<Rightarrow> fst (BroadcastTransaction (ae_marshalTx E) publish n tx)),
                       Ret (Inr (submitted (tx_Id tx) (if async then ''pending'' else ''accepted'') [] now))))))"

section \<open>Status\<close>

text \<open>\<open>Duration.Seconds\<close>, and the conversion of its result to \<open>uint64\<close>, which truncates.\<close>

definition Duration_Seconds :: "i64 \<Rightarrow> float64" where
  "Duration_Seconds d =
     (let n = sint d; sec = sgn n * (\<bar>n\<bar> div 1000000000); nsec = sgn n * (\<bar>n\<bar> mod 1000000000) in
      f64_add (Finite (round53 (of_int sec))) (f64_div (Finite (round53 (of_int nsec))) (Finite 1000000000)))"

definition u64_of_f64 :: "float64 \<Rightarrow> u64" where
  "u64_of_f64 x = (case x of Finite q \<Rightarrow> word_of_int (if 0 \<le> q then \<lfloor>q\<rfloor> else \<lceil>q\<rceil>) | _ \<Rightarrow> 0)"

definition calculateEpoch :: "u64 \<Rightarrow> i64 \<Rightarrow> u64 outcome" where
  "calculateEpoch r epochDuration =
     (let d = u64_of_f64 (Duration_Seconds epochDuration) in
      if d = 0 then Panic ''runtime error: integer divide by zero'' else Ret (r div d))"

definition getNodeID :: "string \<Rightarrow> Config \<Rightarrow> string" where
  "getNodeID time_text cfg =
     (if vc_Enabled (cf_Validator cfg) \<and> vc_Address (cf_Validator cfg) \<noteq> [] then vc_Address (cf_Validator cfg)
      else ''ndag-node-'' @ time_text)"

text \<open>\<open>peers\<close> says which peers a host is connected to.\<close>

definition getNodeStatus :: "('h \<Rightarrow> string list) \<Rightarrow> ('d, 'h) APIServer \<Rightarrow> string" where
  "getNodeStatus peers s =
     (case as_p2p s of
        None \<Rightarrow> ''standalone''
      | Some n \<Rightarrow> if GetPeerCount peers n > 0 then ''active'' else ''syncing'')"

definition getLatestStateHash :: bytes where "getLatestStateHash = []"

record SyncInfo =
  si_LatestEventHeight :: u64
  si_LatestEventRound :: u64
  si_CatchingUp :: u64
  si_TotalSyncedEvents :: u64

definition getSyncInfo :: "string list \<Rightarrow> Engine \<Rightarrow> Engine \<times> SyncInfo" where
  "getSyncInfo ks e =
     (let (e1, h) = CurrentRound ks e; (e2, r) = CurrentRound ks e1 in
      (e2, \<lparr>si_LatestEventHeight = h, si_LatestEventRound = r, si_CatchingUp = 0,
            si_TotalSyncedEvents = word_of_nat (EventsCount (en_dag e2))\<rparr>))"

record apiValidatorInfo =
  vf_IsValidator :: bool
  vf_ValidatorAddress :: string
  vf_VotingPower :: u64
  vf_CommissionRate :: u64
  vf_IsJailed :: bool

definition getValidatorInfo :: "Config \<Rightarrow> apiValidatorInfo" where
  "getValidatorInfo cfg = \<lparr>vf_IsValidator = IsValidator cfg, vf_ValidatorAddress = vc_Address (cf_Validator cfg),
     vf_VotingPower = 0, vf_CommissionRate = vc_CommissionRate (cf_Validator cfg), vf_IsJailed = False\<rparr>"

record NodeStatus =
  ns_NodeId :: string
  ns_Version :: string
  ns_ChainId :: string
  ns_NetworkId :: string
  ns_Status :: string
  ns_LatestRound :: u64
  ns_LatestEpoch :: u64
  ns_LatestTimestamp :: int
  ns_NumPeers :: u64
  ns_NumEvents :: u64
  ns_NumTransactions :: u64
  ns_LatestStateHash :: bytes
  ns_SyncInfo :: SyncInfo
  ns_ValidatorInfo :: apiValidatorInfo

definition GetNodeStatus :: "('h \<Rightarrow> string list) \<Rightarrow> string list \<Rightarrow> string \<Rightarrow> int \<Rightarrow> ('d, 'h) APIServer \<Rightarrow>
    ('d, 'h) APIServer \<times> NodeStatus answer outcome" where
  "GetNodeStatus peers ks time_text now s =
     (let latestRound = LatestRound ks (en_dag (as_consensus s)); cfg = as_config s in
      case calculateEpoch latestRound (cs_EpochDuration (cf_Consensus cfg)) of
        Panic m \<Rightarrow> (s, Panic m)
      | Ret epoch \<Rightarrow>
          let (e1, syncInfo) = getSyncInfo ks (as_consensus s) in
          (s\<lparr>as_consensus := e1\<rparr>,
           Ret (Inr \<lparr>ns_NodeId = getNodeID time_text cfg, ns_Version = ''1.0.0'',
             ns_ChainId = nc_ChainID (cf_Network cfg), ns_NetworkId = nc_NetworkID (cf_Network cfg),
             ns_Status = getNodeStatus peers s, ns_LatestRound = latestRound, ns_LatestEpoch = epoch,
             ns_LatestTimestamp = now,
             ns_NumPeers = (case as_p2p s of None \<Rightarrow> 0 | Some n \<Rightarrow> word_of_nat (GetPeerCount peers n)),
             ns_NumEvents = word_of_nat (EventsCount (en_dag (as_consensus s))),
             ns_NumTransactions = word_of_nat (Mempool_Size (as_mempool s)),
             ns_LatestStateHash = getLatestStateHash, ns_SyncInfo = syncInfo,
             ns_ValidatorInfo = getValidatorInfo cfg\<rparr>)))"

section \<open>Queries\<close>

record apiPeerInfo =
  pr_PeerId :: string
  pr_Address :: string
  pr_ConnectionTime :: int
  pr_ChainId :: string

text \<open>A peer without an address would be an index out of range.\<close>

fun peer_infos :: "int \<Rightarrow> string \<Rightarrow> AddrInfo list \<Rightarrow> apiPeerInfo list outcome" where
  "peer_infos now chain [] = Ret []"
| "peer_infos now chain (p # ps) =
     (case ai_Addrs p of
        [] \<Rightarrow> Panic ''index out of range''
      | a # _ \<Rightarrow> bind_outcome (peer_infos now chain ps)
          (\<lambda>is. Ret (\<lparr>pr_PeerId = ai_ID p, pr_Address = a, pr_ConnectionTime = now, pr_ChainId = chain\<rparr> # is)))"

definition api_GetPeers :: "('h \<Rightarrow> string list) \<Rightarrow> ('h \<Rightarrow> string \<Rightarrow> string list) \<Rightarrow> int \<Rightarrow> ('d, 'h) APIServer \<Rightarrow>
    (apiPeerInfo list \<times> u64) answer outcome" where
  "api_GetPeers peers conns now s =
     (case as_p2p s of
        None \<Rightarrow> Ret (Inr ([], 0))
      | Some n \<Rightarrow>
          bind_outcome (peer_infos now (nc_ChainID (cf_Network (as_config s))) (GetPeers peers conns n))
            (\<lambda>is. Ret (Inr (is, word_of_nat (length is)))))"

definition api_GetEvent :: "'d api_env \<Rightarrow> string \<Rightarrow> ('d, 'h) APIServer \<Rightarrow> Event answer" where
  "api_GetEvent E i s =
     (if i = [] then Inl (CodeInvalidArgument, ''event_id is required'')
      else
        (case Store_GetEvent (ae_ldb E) (as_storage s) i of
           Inl err \<Rightarrow> Inl (CodeNotFound, ''event not found: '' @ i)
         | Inr data \<Rightarrow>
             (case ae_unmarshalEvent E data of
                Inl err \<Rightarrow> Inl (CodeInternal, ''failed to unmarshal event: '' @ err)
              | Inr event \<Rightarrow> Inr event)))"

definition api_GetTx :: "'d api_env \<Rightarrow> string \<Rightarrow> ('d, 'h) APIServer \<Rightarrow> Transaction answer" where
  "api_GetTx E i s =
     (if i = [] then Inl (CodeInvalidArgument, ''tx_id is required'')
      else
        (case Store_GetTransaction (ae_ldb E) (as_storage s) i of
           Inl err \<Rightarrow> Inl (CodeNotFound, ''transaction not found: '' @ i)
         | Inr data \<Rightarrow>
             (case ae_unmarshalTx E data of
                Inl err \<Rightarrow> Inl (CodeInternal, ''failed to unmarshal transaction: '' @ err)
              | Inr tx \<Rightarrow> Inr tx)))"

record FeeInfo =
  fi_BaseFee :: u64
  fi_MinFee :: u64
  fi_MaxFee :: u64
  fi_GasPrice :: u64
  fi_TargetGasPerRound :: u64
  fi_CurrentGasUsed :: u64
  fi_MaxGasPerRound :: u64

text \<open>\<open>ks\<close> and \<open>ks'\<close> are the orders in which Go visits the events.\<close>

definition GetFeeInfo :: "string list \<Rightarrow> string list \<Rightarrow> ('d, 'h) APIServer \<Rightarrow> ('d, 'h) APIServer \<times> FeeInfo" where
  "GetFeeInfo ks ks' s =
     (let cs = cf_Consensus (as_config s); baseFee = cs_MinGasPrice cs; maxFee = baseFee * 100;
          (e1, latestRound) = CurrentRound ks (as_consensus s);
          events = GetEventsByRound ks' (en_dag e1) latestRound;
          gasUsed = fold (\<lambda>event g. g + word_of_nat (length (ev_Transactions event)) * 50000) events 0
      in (s\<lparr>as_consensus := e1\<rparr>,
          \<lparr>fi_BaseFee = baseFee, fi_MinFee = baseFee, fi_MaxFee = maxFee, fi_GasPrice = baseFee,
           fi_TargetGasPerRound = cs_TargetGasPerRound cs, fi_CurrentGasUsed = gasUsed,
           fi_MaxGasPerRound = cs_MaxGasPerRound cs\<rparr>))"

text \<open>The estimated gas and fee.\<close>

definition EstimateGas :: "'d api_env \<Rightarrow> Transaction option \<Rightarrow> ('d, 'h) APIServer \<Rightarrow> (u64 \<times> u64) answer" where
  "EstimateGas E transaction s =
     (case transaction of
        None \<Rightarrow> Inl (CodeInvalidArgument, ''transaction is required'')
      | Some tx \<Rightarrow>
          let gas = (case tx_Payload tx of CreateValidator _ \<Rightarrow> 5000000 | CreateToken _ \<Rightarrow> 1000000
                | CreateCollection _ \<Rightarrow> 2000000 | MintNft _ \<Rightarrow> 500000 | _ \<Rightarrow> 50000);
              gas = gas + word_of_nat (ae_text_len E tx * 10)
          in Inr (gas, gas * cs_MinGasPrice (cf_Consensus (as_config s))))"

section \<open>Administration\<close>

text \<open>\<open>text\<close> is \<open>Duration.String\<close>.\<close>

definition fmt_bool :: "bool \<Rightarrow> string" where
  "fmt_bool b = (if b then ''true'' else ''false'')"

definition GetConfig :: "(i64 \<Rightarrow> string) \<Rightarrow> ('d, 'h) APIServer \<Rightarrow> (string \<times> string) list \<times> string" where
  "GetConfig text s =
     (let c = as_config s in
      ([(''network.id'', nc_NetworkID (cf_Network c)), (''network.chain_id'', nc_ChainID (cf_Network c)),
        (''network.data_dir'', nc_DataDir (cf_Network c)), (''p2p.enabled'', fmt_bool (pc_Enabled (cf_P2P c))),
        (''p2p.listen_address'', pc_ListenAddress (cf_P2P c)), (''p2p.max_peers'', fmt_i64 (pc_MaxPeers (cf_P2P c))),
        (''consensus.enabled'', fmt_bool (cs_Enabled (cf_Consensus c))),
        (''consensus.round_duration'', text (cs_RoundDuration (cf_Consensus c))),
        (''consensus.epoch_duration'', text (cs_EpochDuration (cf_Consensus c))),
        (''consensus.min_gas_price'', fmt_u64 (cs_MinGasPrice (cf_Consensus c))),
        (''validator.enabled'', fmt_bool (vc_Enabled (cf_Validator c))),
        (''validator.address'', vc_Address (cf_Validator c)),
        (''validator.commission_rate'', fmt_u64 (vc_CommissionRate (cf_Validator c)))],
       nc_DataDir (cf_Network c) @ ''/config.toml''))"

text \<open>
  The loop over the updates in the order Go visits them; the restarts collected so far, or the
  first unknown key. Nothing is applied: the server is not an argument.
\<close>

fun update_loop :: "string list \<Rightarrow> string list \<Rightarrow> string + string list" where
  "update_loop restart [] = Inr restart"
| "update_loop restart (key # ks) =
     (if key = ''logging.level'' \<or> key = ''p2p.max_peers'' then update_loop restart ks
      else if key = ''network.chain_id'' then update_loop (restart @ [''chain_id'']) ks
      else if key = ''consensus.round_duration'' then update_loop (restart @ [''round_duration'']) ks
      else if key = ''api.listen_address'' then update_loop (restart @ [''api.listen_address'']) ks
      else Inl key)"

text \<open>Whether a restart is required, and the message; \<open>ks\<close> are the keys in visiting order.\<close>

fun fmt_strings :: "string list \<Rightarrow> string" where
  "fmt_strings [] = []"
| "fmt_strings [s] = s"
| "fmt_strings (s # ss) = s @ '' '' @ fmt_strings ss"

definition UpdateConfig :: "string list \<Rightarrow> (bool \<times> string) answer" where
  "UpdateConfig ks =
     (if length ks = 0 then Inl (CodeInvalidArgument, ''no configuration updates provided'')
      else
        (case update_loop [] ks of
           Inl key \<Rightarrow> Inl (CodeInvalidArgument, ''unknown or read-only configuration key: '' @ key)
         | Inr restart \<Rightarrow>
             if length restart > 0
             then Inr (True, ''restart required for changes: ['' @ fmt_strings restart @ '']'')
             else Inr (False, ''configuration updated successfully'')))"

record mem_stats =
  ms_Alloc :: u64
  ms_TotalAlloc :: u64
  ms_Sys :: u64
  ms_NumGoroutine :: u64

definition GetMetrics :: "('h \<Rightarrow> string list) \<Rightarrow> mem_stats \<Rightarrow> string list \<Rightarrow> ('d, 'h) APIServer \<Rightarrow>
    ('d, 'h) APIServer \<times> (string \<times> float64) list answer outcome" where
  "GetMetrics peers m ks s =
     (let (e1, r1) = CurrentRound ks (as_consensus s); (e2, r2) = CurrentRound ks e1; cs = cf_Consensus (as_config s) in
      (s\<lparr>as_consensus := e2\<rparr>,
       bind_outcome (calculateEpoch r2 (cs_EpochDuration cs))
         (\<lambda>epoch. Ret (Inr (
           [(''system.mem.alloc'', f64_of_u64 (ms_Alloc m)), (''system.mem.total'', f64_of_u64 (ms_TotalAlloc m)),
            (''system.mem.sys'', f64_of_u64 (ms_Sys m)), (''system.num_goroutines'', f64_of_u64 (ms_NumGoroutine m)),
            (''node.events.total'', f64_of_u64 (word_of_nat (EventsCount (en_dag (as_consensus s))))),
            (''node.events.round'', f64_of_u64 r1),
            (''node.transactions.pending'', f64_of_u64 (word_of_nat (Mempool_Size (as_mempool s))))] @
           (case as_p2p s of None \<Rightarrow> []
            | Some n \<Rightarrow> [(''node.peers.connected'', f64_of_u64 (word_of_nat (GetPeerCount peers n)))]) @
           [(''consensus.round_duration_ms'', f64_mul (Duration_Seconds (cs_RoundDuration cs)) (Finite 1000)),
            (''consensus.epoch'', f64_of_u64 epoch)])))))"

text \<open>The JSON object of a debug answer, its keys in the order \<open>json.Marshal\<close> writes them.\<close>

datatype debug_value = DebugNumber nat | DebugText string

definition GetDebugInfo :: "string list \<Rightarrow> string \<Rightarrow> ('d, 'h) APIServer \<Rightarrow>
    ('d, 'h) APIServer \<times> (string \<times> debug_value) list answer" where
  "GetDebugInfo ks component s =
     (if component = [] then (s, Inl (CodeInvalidArgument, ''component is required''))
      else if component = ''consensus'' then
        let (e1, r1) = CurrentRound ks (as_consensus s); (e2, r2) = CurrentRound ks e1 in
        (s\<lparr>as_consensus := e2\<rparr>,
         Inr [(''current_round'', DebugNumber (unat r1)), (''events_count'', DebugNumber (EventsCount (en_dag e1))),
              (''witnesses'', DebugNumber (length (GetWitnesses (en_dag e2) r2)))])
      else if component = ''mempool'' then
        (s, Inr [(''capacity'', DebugNumber 10000), (''evictions'', DebugNumber 0),
                 (''size'', DebugNumber (Mempool_Size (as_mempool s)))])
      else if component = ''storage'' then
        (s, Inr [(''db_path'', DebugText (sc_Path (cf_Storage (as_config s)))),
                 (''event_count'', DebugNumber (EventsCount (en_dag (as_consensus s))))])
      else (s, Inl (CodeInvalidArgument, ''unknown component: '' @ component)))"

text \<open>Status and message; no action does more than answer.\<close>

definition ControlNode :: "string \<Rightarrow> (string \<times> string) answer" where
  "ControlNode action =
     (if action = [] then Inl (CodeInvalidArgument, ''action is required'')
      else if action = ''stop'' then Inr (''stopping'', ''node is shutting down gracefully'')
      else if action = ''restart'' then Inr (''restarting'', ''node is restarting'')
      else if action = ''pause'' then Inr (''paused'', ''node operations paused'')
      else if action = ''resume'' then Inr (''running'', ''node operations resumed'')
      else Inl (CodeInvalidArgument, ''invalid action: '' @ action))"

definition GetLogs :: "string list \<times> int" where
  "GetLogs = (let logs = [''node started successfully'', ''connected to 3 peers'', ''consensus running normally'']
     in (logs, int (length logs)))"

section \<open>Submitting transactions\<close>

lemma Mempool_Add_admits:
  assumes "map_of (mp_txs m) (tx_Id tx) = None" and "length (mp_txs m) < mp_maxSize m" and "\<not> mp_chanClosed m"
  shows "\<exists>m'. Mempool_Add text_len m tx = (m', Ret True) \<and> Mempool_Has m' (tx_Id tx)"
  using assms by (auto simp: Mempool_Add_def Let_def Mempool_Has_def)

text \<open>A transaction that the service takes.\<close>

definition submittable :: "'d api_env \<Rightarrow> ('d, 'h) APIServer \<Rightarrow> Transaction \<Rightarrow> bool" where
  "submittable E s tx \<longleftrightarrow> api_validateTransaction s tx = None \<and>
     EventStore_Has (ae_ldb E) (as_storage s) (bytes_of_string (tx_Id tx)) \<noteq> Inr True \<and>
     \<not> Mempool_Has (as_mempool s) (tx_Id tx) \<and>
     Mempool_Size (as_mempool s) < mp_maxSize (as_mempool s) \<and> \<not> mp_chanClosed (as_mempool s)"

lemma SubmitTx_admits:
  assumes "submittable E s tx"
  shows "\<exists>m'. Mempool_Has m' (tx_Id tx) \<and> SubmitTx E publish now (Some tx) async s =
    (s\<lparr>as_mempool := m'\<rparr>,
     (case as_p2p s of None \<Rightarrow> None | Some n \<Rightarrow> fst (BroadcastTransaction (ae_marshalTx E) publish n tx)),
     Ret (Inr (submitted (tx_Id tx) (if async then ''pending'' else ''accepted'') [] now)))"
proof -
  have "map_of (mp_txs (as_mempool s)) (tx_Id tx) = None" "length (mp_txs (as_mempool s)) < mp_maxSize (as_mempool s)"
    "\<not> mp_chanClosed (as_mempool s)"
    using assms by (auto simp: submittable_def Mempool_Has_def Mempool_Size_def)
  from Mempool_Add_admits [OF this, of "ae_text_len E"] obtain m' where
    m': "Mempool_Add (ae_text_len E) (as_mempool s) tx = (m', Ret True)" "Mempool_Has m' (tx_Id tx)" by auto
  then show ?thesis
    using assms by (intro exI [of _ m']) (simp add: SubmitTx_def submittable_def)
qed

section \<open>Epochs\<close>

lemma seconds_below_one:
  assumes "0 \<le> n" and "n < (1000000000 :: int)"
  shows "round53 (round53 (of_int n / 1000000000)) < 1" "0 \<le> round53 (round53 (of_int n / 1000000000))"
proof -
  have c: "round53 (round53 (999999999 / 1000000000)) < 1" by code_simp
  have "n \<le> 999999999" using assms(2) by simp
  then have "(of_int n :: rat) \<le> 999999999" by (metis of_int_le_iff of_int_numeral)
  then have "(of_int n :: rat) / 1000000000 \<le> 999999999 / 1000000000" by (simp add: divide_right_mono)
  from round53_monotone [OF round53_monotone [OF this]] c
  show "round53 (round53 (of_int n / 1000000000)) < 1" by linarith
  have "0 \<le> (of_int n :: rat) / 1000000000" using assms(1) by simp
  from round53_monotone [OF round53_monotone [OF this]]
  show "0 \<le> round53 (round53 (of_int n / 1000000000))" by simp
qed

lemma Duration_Seconds_nonneg:
  assumes "0 \<le> sint d"
  shows "Duration_Seconds d = Finite (round53 (round53 (of_int (sint d div 1000000000)) +
    round53 (round53 (of_int (sint d mod 1000000000)) / 1000000000)))"
proof -
  have "sgn (sint d) * (\<bar>sint d\<bar> div 1000000000) = sint d div 1000000000"
    "sgn (sint d) * (\<bar>sint d\<bar> mod 1000000000) = sint d mod 1000000000"
    using assms by (simp_all add: sgn_if)
  then show ?thesis by (simp only: Duration_Seconds_def Let_def f64_div.simps f64_add.simps) simp
qed

lemma calculateEpoch_short:
  assumes "0 \<le> sint d" and "sint d < 1000000000"
  shows "calculateEpoch r d = Panic ''runtime error: integer divide by zero''"
proof -
  have sec: "sint d div 1000000000 = 0" "sint d mod 1000000000 = sint d"
    using assms by simp_all
  have b: "\<bar>sint d\<bar> < 2 ^ 53" using assms by simp
  let ?q = "round53 (round53 (of_int (sint d) / 1000000000))"
  have "Duration_Seconds d = Finite ?q"
    unfolding Duration_Seconds_nonneg [OF assms(1)] sec round53_int [OF b] by simp
  moreover have "\<lfloor>?q\<rfloor> = 0" using seconds_below_one [OF assms] by (simp add: floor_eq_iff)
  ultimately have "u64_of_f64 (Duration_Seconds d) = 0"
    using seconds_below_one [OF assms] by (simp add: u64_of_f64_def)
  then show ?thesis by (simp add: calculateEpoch_def)
qed

lemma calculateEpoch_seconds:
  assumes "sint d = int k * 1000000000" and "0 < k" and "k < 2 ^ 53"
  shows "calculateEpoch r d = Ret (r div word_of_nat k)"
proof -
  have sec: "0 \<le> sint d" "sint d div 1000000000 = int k" "sint d mod 1000000000 = 0"
    using assms(1,2) by simp_all
  have k: "round53 (of_nat k) = of_nat k" using assms(3) by (rule round53_exact)
  then have "Duration_Seconds d = Finite (of_nat k)"
    unfolding Duration_Seconds_nonneg [OF sec(1)] sec(2,3) by simp
  then have "u64_of_f64 (Duration_Seconds d) = word_of_nat k" by (simp add: u64_of_f64_def)
  moreover have "(word_of_nat k :: u64) \<noteq> 0"
    using assms(2,3) by (auto simp: word_of_nat_eq_0_iff dest: dvd_imp_le)
  ultimately show ?thesis by (simp add: calculateEpoch_def)
qed

section \<open>Properties\<close>

text \<open>The node takes transactions that no node relays. \<open>SubmitTx\<close> checks neither the signature
  nor the nonce: whoever submits a transaction for any sender has it accepted and pending in the
  pool, and it is broadcast; every peer drops the message.\<close>

theorem unsigned_tx_submitted:
  assumes "submittable E s tx" and "\<not> VerifyTransactionSignature L tx" and "as_p2p s = Some n" and "nt_txTopic n"
    and "ae_marshalTx E tx = Inr data" and "unmarshal data = Inr tx"
  shows "\<exists>s'. SubmitTx E None now (Some tx) async s =
      (s', Some data, Ret (Inr (submitted (tx_Id tx) (if async then ''pending'' else ''accepted'') [] now))) \<and>
    Mempool_Has (as_mempool s') (tx_Id tx) \<and> handle_tx L unmarshal (Inr data) peer = Ret peer"
proof -
  from SubmitTx_admits [OF assms(1), of None now async] obtain m' where m': "Mempool_Has m' (tx_Id tx)"
    "SubmitTx E None now (Some tx) async s = (s\<lparr>as_mempool := m'\<rparr>,
      (case as_p2p s of None \<Rightarrow> None | Some n \<Rightarrow> fst (BroadcastTransaction (ae_marshalTx E) None n tx)),
      Ret (Inr (submitted (tx_Id tx) (if async then ''pending'' else ''accepted'') [] now)))" by blast
  have "fst (BroadcastTransaction (ae_marshalTx E) None n tx) = Some data"
    using assms(4,5) by (simp add: BroadcastTransaction_def)
  moreover have "net_validateTransaction L peer (Some tx) \<noteq> None"
    using assms(2) by (simp add: validateTransaction_iff)
  then have "handle_tx L unmarshal (Inr data) peer = Ret peer"
    using assms(6) by (simp add: handle_tx_def)
  ultimately show ?thesis
    using m' assms(3) by (intro exI [of _ "s\<lparr>as_mempool := m'\<rparr>"]) simp
qed

definition api_sample_tx :: Transaction where
  "api_sample_tx = zero_transaction\<lparr>tx_Id := ''t'', tx_ChainId := ''ndag-devnet-v1'', tx_NetworkId := ''ndag-devnet'',
     tx_Fee := 1000, tx_GasLimit := 21000\<rparr>"

definition sample_api :: "((bytes \<rightharpoonup> bytes)) api_env" where
  "sample_api = \<lparr>ae_ldb = mem_ldb, ae_text_len = (\<lambda>_. 0), ae_marshalTx = (\<lambda>_. Inr [1]),
     ae_unmarshalTx = (\<lambda>_. Inr api_sample_tx), ae_unmarshalEvent = (\<lambda>_. Inl [])\<rparr>"

definition sample_server :: "(bytes \<rightharpoonup> bytes, unit) APIServer" where
  "sample_server = (NewAPIServer DefaultConfig Map.empty (NewMempool 10000000) (NewConsensusEngine NewDAG))
     \<lparr>as_p2p := Some sample_net\<rparr>"

lemma sample_submittable: "submittable sample_api sample_server api_sample_tx"
  by (simp add: submittable_def api_validateTransaction_def sample_server_def NewAPIServer_def DefaultConfig_def
      api_sample_tx_def EventStore_Has_def Engine_Has_def sample_api_def mem_ldb_def NewMempool_def Mempool_Has_def
      Mempool_Size_def)

theorem unsigned_tx_submitted_witness:
  "\<exists>s'. SubmitTx sample_api None 0 (Some api_sample_tx) False sample_server =
      (s', Some [1], Ret (Inr (submitted ''t'' ''accepted'' [] 0))) \<and> Mempool_Has (as_mempool s') ''t''"
proof -
  have "\<not> VerifyTransactionSignature sample_lib api_sample_tx"
    by (simp add: VerifyTransactionSignature_def api_sample_tx_def zero_transaction_def SignatureSize_def)
  moreover have "nt_txTopic sample_net" by (simp add: sample_net_defs)
  moreover have "as_p2p sample_server = Some sample_net" "ae_marshalTx sample_api api_sample_tx = Inr [1]" "tx_Id api_sample_tx = ''t''"
    by (simp_all add: sample_server_def sample_api_def api_sample_tx_def)
  ultimately show ?thesis
    using unsigned_tx_submitted [OF sample_submittable, of sample_lib sample_net "[1]" "\<lambda>_. Inr api_sample_tx" 0 False]
    by auto
qed

text \<open>A configuration with an epoch of less than a second, which validation lets through, makes
  the status and the metrics unavailable: both divide by the epoch's whole seconds, and what the
  client gets is the recovered panic. With an epoch of whole seconds the epoch is the quotient.\<close>

theorem status_unavailable:
  assumes "sint (cs_EpochDuration (cf_Consensus (as_config s))) = d" and "0 \<le> d"
  shows "(d < 1000000000 \<longrightarrow>
      unary_call (snd (GetNodeStatus peers ks t now s)) =
        Inl (CodeInternal, ''panic recovered: runtime error: integer divide by zero'') \<and>
      unary_call (snd (GetMetrics peers m ks s)) =
        Inl (CodeInternal, ''panic recovered: runtime error: integer divide by zero'')) \<and>
    (d = int k * 1000000000 \<and> 0 < k \<and> k < 2 ^ 53 \<longrightarrow>
      (\<exists>st. unary_call (snd (GetNodeStatus peers ks t now s)) = Inr st \<and>
        ns_LatestEpoch st = LatestRound ks (en_dag (as_consensus s)) div word_of_nat k))"
proof (intro conjI impI)
  assume "d < 1000000000"
  then have p: "calculateEpoch r (cs_EpochDuration (cf_Consensus (as_config s))) =
      Panic ''runtime error: integer divide by zero''" for r
    using assms calculateEpoch_short by blast
  show "unary_call (snd (GetNodeStatus peers ks t now s)) =
        Inl (CodeInternal, ''panic recovered: runtime error: integer divide by zero'')"
    by (simp add: GetNodeStatus_def Let_def p unary_call_def rateLimitInterceptor_def recoveryInterceptor_def)
  show "unary_call (snd (GetMetrics peers m ks s)) =
        Inl (CodeInternal, ''panic recovered: runtime error: integer divide by zero'')"
    by (simp add: GetMetrics_def Let_def p unary_call_def rateLimitInterceptor_def recoveryInterceptor_def
        split: prod.split)
next
  assume "d = int k * 1000000000 \<and> 0 < k \<and> k < 2 ^ 53"
  then have p: "calculateEpoch r (cs_EpochDuration (cf_Consensus (as_config s))) = Ret (r div word_of_nat k)" for r
    using assms(1) calculateEpoch_seconds by blast
  show "\<exists>st. unary_call (snd (GetNodeStatus peers ks t now s)) = Inr st \<and>
        ns_LatestEpoch st = LatestRound ks (en_dag (as_consensus s)) div word_of_nat k"
    by (simp add: GetNodeStatus_def Let_def p unary_call_def rateLimitInterceptor_def recoveryInterceptor_def
        split: prod.split)
qed

definition short_epoch :: "(bytes \<rightharpoonup> bytes, unit) APIServer" where
  "short_epoch = sample_server\<lparr>as_config := DefaultConfig\<lparr>cf_Consensus :=
     (cf_Consensus DefaultConfig)\<lparr>cs_EpochDuration := 500000000\<rparr>\<rparr>\<rparr>"

theorem status_unavailable_witness:
  "Config_Validate (as_config short_epoch) = None \<and>
   unary_call (snd (GetNodeStatus (\<lambda>_. []) [] [] 0 short_epoch)) =
     Inl (CodeInternal, ''panic recovered: runtime error: integer divide by zero'')"
proof -
  have "sint (cs_EpochDuration (cf_Consensus (as_config short_epoch))) = 500000000"
    by (simp add: short_epoch_def)
  from status_unavailable [OF this] show ?thesis
    by (simp add: short_epoch_def DefaultConfig_def Config_Validate_def)
qed

text \<open>No update changes the configuration, and whether one is refused does not depend on the order.\<close>

lemma update_loop_refuses:
  "(\<exists>k. update_loop rs ks = Inl k) \<longleftrightarrow> (\<exists>k \<in> set ks. k \<notin> {''logging.level'', ''p2p.max_peers'', ''network.chain_id'',
     ''consensus.round_duration'', ''api.listen_address''})"
  by (induction rs ks rule: update_loop.induct) auto

end
