(* ===== verification/Wallet.thy ===== *)
theory Wallet
  imports Keystore Api
begin

text \<open>
  The wallet service, \<open>pkg/api/wallet_service.go\<close>: the handlers that check a request, call the key
  store and build the response. The state is the key store; what it gets from outside (randomness,
  the clock, system calls) are arguments here, too.
\<close>

section \<open>Messages\<close>

record GenerateKeyResponse =
  gk_Address :: string
  gk_PublicKey :: string
  gk_Mnemonic :: string

record ImportKeyResponse =
  ik_Address :: string
  ik_PublicKey :: string
  ik_Result :: string
  ik_CreatedAt :: int

record apiKeyInfo =
  ak_Name :: string
  ak_Address :: string
  ak_PublicKey :: string
  ak_CreatedAt :: int
  ak_IsActive :: bool

record SignTxResponse =
  sx_SignedTransaction :: Transaction
  sx_Signature :: bytes
  sx_ErrorMessage :: string

text \<open>The text of a key store's error; \<open>ks_text\<close> is \<open>Error\<close>.\<close>

record wallet_env =
  we_lib :: crypto_lib
  we_kdf :: "bytes \<Rightarrow> bytes \<Rightarrow> bytes option"
  we_path :: "string \<Rightarrow> string"
  we_text :: "ks_error \<Rightarrow> string"

definition wallet_address :: "Keypair \<Rightarrow> string" where
  "wallet_address k = ''ndag'' @ hex_encode (take 8 (kp_Public k))"

definition demo_mnemonic :: string where
  "demo_mnemonic = ''abandon ability able about above absent absorb abstract absurd abuse access accident''"

definition stored_mnemonic :: string where
  "stored_mnemonic = ''abandon ability able about above absent absorb abstract absurd abuse access accident '' @
     ''achieve acid acoustic acquire across action actor actress actual adapt add addict address''"

text \<open>The service works on the key store below the node's data directory; \<open>home\<close> is what
  \<open>os.UserHomeDir\<close> answers, whose error \<open>GetFullDataDir\<close> ignores.\<close>

definition NewWalletService :: "(ks_error \<Rightarrow> string) \<Rightarrow> string option \<Rightarrow> (string \<Rightarrow> bool) \<Rightarrow> (string \<rightharpoonup> KeyFile option) \<Rightarrow>
    (string \<Rightarrow> string list option) \<Rightarrow> Config \<Rightarrow> string + string \<times> KeyStore" where
  "NewWalletService text_of home mkdir disk listing cfg =
     (case NewKeyStore home mkdir disk listing
         (GetFullDataDir (case home of None \<Rightarrow> [] | Some h \<Rightarrow> h) cfg @ ''/keystore'') of
        Inl e \<Rightarrow> Inl (wrap ''failed to create keystore'' (text_of e))
      | Inr store \<Rightarrow> Inr store)"

section \<open>Handlers\<close>

text \<open>\<open>words\<close> is the optional field \<open>Mnemonic\<close>, \<open>entropy_ok\<close> the answer of the random source.\<close>

definition Wallet_GenerateKey :: "wallet_env \<Rightarrow> bytes option \<Rightarrow> key_inputs \<Rightarrow> string option \<Rightarrow>
    string \<Rightarrow> string \<Rightarrow> string option \<Rightarrow> KeyStore \<Rightarrow> KeyStore \<times> GenerateKeyResponse answer" where
  "Wallet_GenerateKey E entropy inp entropy_err name password words ks =
     (if name = [] then (ks, Inl (CodeInvalidArgument, ''key_name is required''))
      else if password = [] then (ks, Inl (CodeInvalidArgument, ''password is required''))
      else
        (case GenerateKey (we_lib E) (we_kdf E) (we_path E) entropy inp ks name password of
           (ks1, Inl err) \<Rightarrow> (ks1, Inl (CodeInternal, ''failed to generate key: '' @ we_text E err))
         | (ks1, Inr keypair) \<Rightarrow>
             let resp = (\<lambda>m. \<lparr>gk_Address = wallet_address keypair, gk_PublicKey = hex_encode (kp_Public keypair),
                   gk_Mnemonic = m\<rparr>) in
             if words \<noteq> None \<and> words \<noteq> Some [] then (ks1, Inr (resp (the words)))
             else
               (case entropy_err of
                  Some e \<Rightarrow> (ks1, Inl (CodeInternal, ''failed to generate entropy: '' @ e))
                | None \<Rightarrow> (ks1, Inr (resp demo_mnemonic)))))"

definition Wallet_ImportKey :: "wallet_env \<Rightarrow> key_inputs \<Rightarrow> int \<Rightarrow> string \<Rightarrow> string \<Rightarrow> string \<Rightarrow> KeyStore \<Rightarrow>
    KeyStore \<times> ImportKeyResponse answer" where
  "Wallet_ImportKey E inp now name password private_key ks =
     (if name = [] then (ks, Inl (CodeInvalidArgument, ''key_name is required''))
      else if password = [] then (ks, Inl (CodeInvalidArgument, ''password is required''))
      else if private_key = [] then (ks, Inl (CodeInvalidArgument, ''private_key is required''))
      else
        (case hex_decode private_key of
           None \<Rightarrow> (ks, Inl (CodeInvalidArgument, ''invalid private key format''))
         | Some privateKey \<Rightarrow>
             (case ImportKey (we_lib E) (we_kdf E) (we_path E) inp ks name password privateKey of
                (ks1, Inl err) \<Rightarrow> (ks1, Inl (CodeInternal, ''failed to import key: '' @ we_text E err))
              | (ks1, Inr keypair) \<Rightarrow>
                  (ks1, Inr \<lparr>ik_Address = wallet_address keypair, ik_PublicKey = hex_encode (kp_Public keypair),
                     ik_Result = ''success'', ik_CreatedAt = now\<rparr>))))"

definition api_key_info :: "string \<Rightarrow> KeyInfo \<Rightarrow> apiKeyInfo" where
  "api_key_info name info = \<lparr>ak_Name = name, ak_Address = ki_Address info, ak_PublicKey = hex_encode (ki_PublicKey info),
     ak_CreatedAt = ki_CreatedAt info, ak_IsActive = ki_IsActive info\<rparr>"

text \<open>A key whose information cannot be had leaves a nil entry; \<open>order\<close> is Go's order of the map.\<close>

definition Wallet_ListKeys :: "string list \<Rightarrow> KeyStore \<Rightarrow> apiKeyInfo option list" where
  "Wallet_ListKeys order ks =
     map (\<lambda>name. case GetKeyInfo ks name of Inl _ \<Rightarrow> None | Inr info \<Rightarrow> Some (api_key_info name info))
       (ListKeys order ks)"

definition Wallet_GetKey :: "wallet_env \<Rightarrow> string \<Rightarrow> KeyStore \<Rightarrow> apiKeyInfo answer" where
  "Wallet_GetKey E name ks =
     (if name = [] then Inl (CodeInvalidArgument, ''key_name is required'')
      else
        (case GetKeyInfo ks name of
           Inl err \<Rightarrow> Inl (CodeNotFound, ''key not found: '' @ we_text E err)
         | Inr info \<Rightarrow> Inr (api_key_info name info)))"

definition Wallet_DeleteKey :: "wallet_env \<Rightarrow> bool \<Rightarrow> string \<Rightarrow> string \<Rightarrow> KeyStore \<Rightarrow> KeyStore \<times> string answer" where
  "Wallet_DeleteKey E remove_ok name password ks =
     (if name = [] then (ks, Inl (CodeInvalidArgument, ''key_name is required''))
      else if password = [] then (ks, Inl (CodeInvalidArgument, ''password is required''))
      else
        (case GetKey (we_lib E) (we_kdf E) (we_path E) ks name password of
           Inl err \<Rightarrow> (ks, Inl (CodePermissionDenied, ''invalid password: '' @ we_text E err))
         | Inr _ \<Rightarrow>
             (case DeleteKey (we_path E) remove_ok ks name of
                (ks1, Some err) \<Rightarrow> (ks1, Inl (CodeInternal, ''failed to delete key: '' @ we_text E err))
              | (ks1, None) \<Rightarrow> (ks1, Inr ''success''))))"

text \<open>The transaction is changed in place before it is signed.\<close>

definition Wallet_SignTx :: "wallet_env \<Rightarrow> Transaction option \<Rightarrow> string \<Rightarrow> string \<Rightarrow> KeyStore \<Rightarrow> SignTxResponse answer" where
  "Wallet_SignTx E transaction name password ks =
     (case transaction of
        None \<Rightarrow> Inl (CodeInvalidArgument, ''transaction is required'')
      | Some tx \<Rightarrow>
          if name = [] then Inl (CodeInvalidArgument, ''key_name is required'')
          else if password = [] then Inl (CodeInvalidArgument, ''password is required'')
          else
            (case GetKey (we_lib E) (we_kdf E) (we_path E) ks name password of
               Inl err \<Rightarrow> Inl (CodePermissionDenied, ''failed to get key: '' @ we_text E err)
             | Inr keypair \<Rightarrow>
                 (case SignTransaction (we_lib E) (tx\<lparr>tx_Signature := [], tx_PublicKey := kp_Public keypair\<rparr>) keypair of
                    (_, False) \<Rightarrow> Inl (CodeInternal, ''failed to sign transaction'')
                  | (tx1, True) \<Rightarrow>
                      Inr \<lparr>sx_SignedTransaction = tx1, sx_Signature = tx_Signature tx1, sx_ErrorMessage = []\<rparr>)))"

definition Wallet_GetMnemonic :: "wallet_env \<Rightarrow> string \<Rightarrow> string \<Rightarrow> KeyStore \<Rightarrow> string answer" where
  "Wallet_GetMnemonic E name password ks =
     (if name = [] then Inl (CodeInvalidArgument, ''key_name is required'')
      else if password = [] then Inl (CodeInvalidArgument, ''password is required'')
      else
        (case GetKey (we_lib E) (we_kdf E) (we_path E) ks name password of
           Inl err \<Rightarrow> Inl (CodePermissionDenied, ''invalid password: '' @ we_text E err)
         | Inr _ \<Rightarrow> Inr stored_mnemonic))"

section \<open>Properties\<close>

lemma Wallet_GenerateKey_key:
  assumes "Wallet_GenerateKey E entropy inp ee name password words ks = (ks1, Inr resp)"
  obtains k where "GenerateKey (we_lib E) (we_kdf E) (we_path E) entropy inp ks name password = (ks1, Inr k)"
    "name \<noteq> []" "password \<noteq> []"
  using assms
  by (cases "GenerateKey (we_lib E) (we_kdf E) (we_path E) entropy inp ks name password")
    (auto simp: Wallet_GenerateKey_def Let_def split: if_splits sum.splits option.splits)

lemma generated_public:
  assumes "GenerateKey L kdf path (Some priv) inp ks name password = (ks1, Inr k)"
  shows "kp_Private k = priv \<and> kp_Public k = cl_public L priv"
  using GenerateKey_sealed [OF assms] by auto

text \<open>The key store of a node on which the key \<open>main\<close> was made, see \<open>sample_run\<close>.\<close>

definition sample_wallet :: wallet_env where
  "sample_wallet = \<lparr>we_lib = sample_lib, we_kdf = sample_kdf, we_path = filepath_join (fst sample_store), we_text = (\<lambda>_. [])\<rparr>"

lemma sample_generated:
  "Wallet_GenerateKey sample_wallet (Some (replicate 64 7)) sample_inputs None ''main'' ''secret'' None
     (snd sample_store) =
   (fst sample_run, Inr \<lparr>gk_Address = wallet_address sample_key, gk_PublicKey = hex_encode (replicate 32 7),
      gk_Mnemonic = demo_mnemonic\<rparr>)"
proof -
  have "GenerateKey (we_lib sample_wallet) (we_kdf sample_wallet) (we_path sample_wallet) (Some (replicate 64 7))
      sample_inputs (snd sample_store) ''main'' ''secret'' = sample_run"
    by (simp add: sample_wallet_def sample_run_def)
  also note sample_run_ok [folded sample_key_def]
  finally show ?thesis by (simp add: Wallet_GenerateKey_def sample_key_def)
qed

text \<open>A key made by the service signs: whatever the transaction, \<open>SignTx\<close> with the name and the
  password of a generated key returns the transaction with a signature that verifies, and so one
  that every peer of the network relays when chain, network, nonce and fee are right.\<close>

theorem wallet_signs:
  assumes "lib_ok (we_lib E)" and "length priv = 64"
    and "Wallet_GenerateKey E (Some priv) inp ee name password words ks = (ks1, Inr resp)"
  shows "\<exists>r. Wallet_SignTx E (Some tx) name password ks1 = Inr r \<and>
    VerifyTransactionSignature (we_lib E) (sx_SignedTransaction r) \<and>
    sx_Signature r = tx_Signature (sx_SignedTransaction r) \<and>
    (tx_ChainId tx = nc_ChainID (cf_Network (nt_config n)) \<and> tx_NetworkId tx = nc_NetworkID (cf_Network (nt_config n)) \<and>
     tx_Nonce tx \<noteq> 0 \<and> cs_MinGasPrice (cf_Consensus (nt_config n)) \<le> tx_Fee tx \<longrightarrow>
     net_validateTransaction (we_lib E) n (Some (sx_SignedTransaction r)) = None)"
proof -
  from Wallet_GenerateKey_key [OF assms(3)] obtain k where
    k: "GenerateKey (we_lib E) (we_kdf E) (we_path E) (Some priv) inp ks name password = (ks1, Inr k)"
    and np: "name \<noteq> []" "password \<noteq> []" by blast
  have get: "GetKey (we_lib E) (we_kdf E) (we_path E) ks1 name password = Inr k"
    using GetKey_generated [OF k assms(2)] by simp
  have pub: "kp_Public k = cl_public (we_lib E) (kp_Private k)" "length (kp_Private k) = 64"
    using generated_public [OF k] assms(2) by simp_all
  let ?tx = "tx\<lparr>tx_Signature := [], tx_PublicKey := kp_Public k\<rparr>"
  obtain tx1 where sign: "SignTransaction (we_lib E) ?tx k = (tx1, True)"
    by (simp add: SignTransaction_result [OF assms(1) pub(2)])
  have verifies: "VerifyTransactionSignature (we_lib E) tx1"
    using SignTransaction_verifies [OF assms(1) pub(2,1), of ?tx] by (simp add: sign)
  have "tx_Id tx1 \<noteq> []" "tx_ChainId tx1 = tx_ChainId tx" "tx_NetworkId tx1 = tx_NetworkId tx"
    "tx_Nonce tx1 = tx_Nonce tx" "tx_Fee tx1 = tx_Fee tx"
    using sign by (auto simp: SignTransaction_result [OF assms(1) pub(2)] HashTransaction_nonempty)
  with verifies get np sign show ?thesis
    by (simp add: Wallet_SignTx_def validateTransaction_iff)
qed

theorem wallet_signs_witness:
  "\<exists>r. Wallet_SignTx sample_wallet (Some zero_transaction) ''main'' ''secret'' (fst sample_run) = Inr r \<and>
    VerifyTransactionSignature sample_lib (sx_SignedTransaction r)"
proof -
  have "lib_ok (we_lib sample_wallet)" by (simp add: sample_wallet_def sample_lib_ok)
  from wallet_signs [OF this _ sample_generated, of zero_transaction] show ?thesis
    by (auto simp: sample_wallet_def)
qed

text \<open>Whoever can call the service deletes any key that was not loaded otherwise: the password
  that protects the deletion is checked by \<open>GetKey\<close>, which accepts every password from which a
  key can be derived.\<close>

theorem any_password_deletes:
  assumes "Wallet_GenerateKey E (Some priv) inp ee name password words ks = (ks1, Inr resp)" and "length priv = 64"
    and "\<And>s. \<exists>key. we_kdf E (bytes_of_string guess) s = Some key \<and> 32 \<le> length key" and "guess \<noteq> []"
  shows "\<exists>ks2. Wallet_DeleteKey E True name guess ks1 = (ks2, Inr ''success'') \<and>
    map_of (ks_keys ks2) name = None \<and> GetKey (we_lib E) (we_kdf E) (we_path E) ks2 name password = Inl FileUnreadable"
proof -
  from Wallet_GenerateKey_key [OF assms(1)] obtain k where
    k: "GenerateKey (we_lib E) (we_kdf E) (we_path E) (Some priv) inp ks name password = (ks1, Inr k)"
    and np: "name \<noteq> []" by blast
  obtain k' where k': "GetKey (we_lib E) (we_kdf E) (we_path E) ks1 name guess = Inr k'"
    using GetKey_any_password [OF k assms(2,3)] by blast
  have cached: "map_of (ks_keys ks1) name \<noteq> None"
    using GenerateKey_sealed [OF k] by (auto dest: seal_key_cached)
  obtain ks2 where ks2: "DeleteKey (we_path E) True ks1 name = (ks2, None)" "map_of (ks_keys ks2) name = None"
    "ks_disk ks2 (we_path E (name @ ''.key'')) = None"
    using cached by (auto simp: DeleteKey_def)
  have "Wallet_DeleteKey E True name guess ks1 = (ks2, Inr ''success'')"
    using k' np assms(4) by (simp add: Wallet_DeleteKey_def ks2(1))
  moreover have "GetKey (we_lib E) (we_kdf E) (we_path E) ks2 name password = Inl FileUnreadable"
    by (simp add: GetKey_def loadKeyFile_def ks2(3))
  ultimately show ?thesis using ks2(2) by blast
qed

theorem any_password_deletes_witness:
  "\<exists>ks2. Wallet_DeleteKey sample_wallet True ''main'' ''guess'' (fst sample_run) = (ks2, Inr ''success'') \<and>
    map_of (ks_keys ks2) ''main'' = None"
  using any_password_deletes [OF sample_generated, of "''guess''"]
  by (auto simp: sample_wallet_def sample_kdf_def)

text \<open>The address the service reports is made of the public key, the key store's of its hash: they
  agree only when the two begin with the same eight bytes.\<close>

theorem wallet_address_differs:
  assumes "lib_ok L" and "length (kp_Public k) = 32"
  shows "wallet_address k = GetAddressFromPublicKey L (kp_Public k) \<longleftrightarrow>
    take 8 (kp_Public k) = take 8 (cl_blake3 L (kp_Public k))"
  using assms by (auto simp: wallet_address_def GetAddressFromPublicKey_def AddressPrefix_def hex_encode_inject)

end
