(* ===== verification/Gateway.thy ===== *)
theory Gateway
  imports Api
begin

text \<open>
  The life of the API server (\<open>Start\<close>, \<open>startGRPC\<close>, \<open>startREST\<close>, \<open>Stop\<close> of \<open>pkg/api/gateway.go\<close>)
  the chains of interceptors, and the HTTP side of its gateway: error answers, common headers,
  health and metrics. Listening,
  dialling, registration of the services and the numbers and texts of gRPC's codes are parameters.
\<close>

section \<open>Starting and stopping\<close>

definition startGRPC :: "string option \<Rightarrow> ('d, 'h) APIServer \<Rightarrow> ('d, 'h) APIServer \<times> string option" where
  "startGRPC listen s =
     (case listen of
        Some err \<Rightarrow> (s, Some (wrap ''failed to create gRPC listener'' err))
      | None \<Rightarrow> (s\<lparr>as_grpcSrv := Some SrvServing\<rparr>, None))"

text \<open>
  What the gateway's start meets: the dialling, given whether the server listens, which blocks
  until there is a connection or the context ends (\<open>None\<close> as long as neither happens), and the
  three registrations.
\<close>

record rest_answers =
  ra_dial :: "bool \<Rightarrow> string option option"
  ra_node :: "string option"
  ra_wallet :: "string option"
  ra_admin :: "string option"

definition startREST :: "rest_answers \<Rightarrow> ('d, 'h) APIServer \<Rightarrow> (('d, 'h) APIServer \<times> string option) option" where
  "startREST R s =
     (case ra_dial R (as_grpcSrv s = Some SrvServing) of
        None \<Rightarrow> None
      | Some (Some err) \<Rightarrow> Some (s, Some (wrap ''failed to dial gRPC server'' err))
      | Some None \<Rightarrow>
          (case ra_node R of
             Some err \<Rightarrow> Some (s, Some (wrap ''failed to register node service handler'' err))
           | None \<Rightarrow>
               (case ra_wallet R of
                  Some err \<Rightarrow> Some (s, Some (wrap ''failed to register wallet service handler'' err))
                | None \<Rightarrow>
                    (case ra_admin R of
                       Some err \<Rightarrow> Some (s, Some (wrap ''failed to register admin service handler'' err))
                     | None \<Rightarrow> Some (s\<lparr>as_gateway := Some SrvServing\<rparr>, None)))))"

text \<open>\<open>Start\<close> waits for its context once both servers are up; it may also wait for the gateway's
  connection as long as the context lasts.\<close>

datatype api_started = ApiServing | ApiFailed string | ApiBlocked

definition api_Start :: "string option \<Rightarrow> rest_answers \<Rightarrow> ('d, 'h) APIServer \<Rightarrow> ('d, 'h) APIServer \<times> api_started" where
  "api_Start listen R s =
     (let (s1, err) = (if ap_EnableGRPC (cf_API (as_config s)) then startGRPC listen s else (s, None)) in
      case err of
        Some e \<Rightarrow> (s1, ApiFailed (wrap ''failed to start gRPC server'' e))
      | None \<Rightarrow>
          if ap_EnableREST (cf_API (as_config s)) then
            (case startREST R s1 of
               None \<Rightarrow> (s1, ApiBlocked)
             | Some (s2, Some e) \<Rightarrow> (s2, ApiFailed (wrap ''failed to start REST gateway'' e))
             | Some (s2, None) \<Rightarrow> (s2, ApiServing))
          else (s1, ApiServing))"

text \<open>The goroutine that watches the context stops the gRPC server, and only that.\<close>

definition api_ctx_done :: "('d, 'h) APIServer \<Rightarrow> ('d, 'h) APIServer" where
  "api_ctx_done s = s\<lparr>as_grpcSrv := map_option (\<lambda>_. SrvStopped) (as_grpcSrv s)\<rparr>"

text \<open>\<open>Stop\<close>: the gateway stops listening also when its shutdown fails, which is logged.\<close>

definition api_Stop :: "('d, 'h) APIServer \<Rightarrow> ('d, 'h) APIServer \<times> string option" where
  "api_Stop s =
     (s\<lparr>as_grpcSrv := map_option (\<lambda>_. SrvStopped) (as_grpcSrv s),
        as_gateway := map_option (\<lambda>_. SrvStopped) (as_gateway s)\<rparr>, None)"

section \<open>Interceptors and streams\<close>

text \<open>The logging interceptors pass on what the handler answers; a panic goes through them.\<close>

definition loggingInterceptor :: "'a answer outcome \<Rightarrow> 'a answer outcome" where
  "loggingInterceptor handler = bind_outcome handler Ret"

definition streamLoggingInterceptor :: "(grpc_code \<times> string) option outcome \<Rightarrow> (grpc_code \<times> string) option outcome" where
  "streamLoggingInterceptor handler = bind_outcome handler Ret"

definition streamRecoveryInterceptor :: "(grpc_code \<times> string) option outcome \<Rightarrow> (grpc_code \<times> string) option" where
  "streamRecoveryInterceptor handler =
     (case handler of Ret err \<Rightarrow> err | Panic r \<Rightarrow> Some (CodeInternal, ''panic recovered: '' @ r))"

text \<open>The two chains of \<open>startGRPC\<close>, the first interceptor outermost.\<close>

definition unary_chain :: "'a answer outcome \<Rightarrow> 'a answer outcome" where
  "unary_chain handler = loggingInterceptor (Ret (recoveryInterceptor (rateLimitInterceptor handler)))"

definition stream_chain :: "(grpc_code \<times> string) option outcome \<Rightarrow> (grpc_code \<times> string) option outcome" where
  "stream_chain handler = streamLoggingInterceptor (Ret (streamRecoveryInterceptor handler))"

text \<open>No panic of a handler reaches the server.\<close>

lemma chains_answer:
  "unary_chain handler = Ret (unary_call handler)"
  "\<exists>err. stream_chain stream = Ret err"
  by (simp_all add: unary_chain_def stream_chain_def loggingInterceptor_def streamLoggingInterceptor_def unary_call_def)

text \<open>The set of validators the node service answers with is always empty.\<close>

definition GetValidatorSet :: "(string list \<times> u64) answer" where
  "GetValidatorSet = Inr ([], 0)"

section \<open>HTTP\<close>

datatype json_value = JsonText string | JsonNumber int

datatype http_body = BodyJson "(string \<times> json_value) list" | BodyText string

record http_response =
  hr_header :: "(string \<times> string) list"
  hr_status :: nat
  hr_body :: http_body

text \<open>A response nothing has been written to: the status is 200 unless one is set.\<close>

definition fresh_response :: http_response where
  "fresh_response = \<lparr>hr_header = [], hr_status = 200, hr_body = BodyText []\<rparr>"

definition set_header :: "string \<Rightarrow> string \<Rightarrow> http_response \<Rightarrow> http_response" where
  "set_header k v w = w\<lparr>hr_header := AList.update k v (hr_header w)\<rparr>"

record grpc_lib =
  gl_number :: "grpc_code \<Rightarrow> int"
  gl_error :: "grpc_code \<times> string \<Rightarrow> string"
  gl_http :: "grpc_code \<Rightarrow> nat"

text \<open>The keys of an object in the order the encoder writes them.\<close>

definition customErrorHandler :: "grpc_lib \<Rightarrow> grpc_code \<times> string \<Rightarrow> http_response \<Rightarrow> http_response" where
  "customErrorHandler G err w =
     (set_header ''Content-Type'' ''application/json'' w)
       \<lparr>hr_status := gl_http G (fst err),
        hr_body := BodyJson [(''code'', JsonNumber (gl_number G (fst err))), (''error'', JsonText (gl_error G err)),
          (''message'', JsonText (snd err))]\<rparr>"

definition customResponseModifier :: "http_response \<Rightarrow> http_response \<times> string option" where
  "customResponseModifier w =
     (set_header ''X-NDAG-Network'' ''ndag-mainnet'' (set_header ''X-NDAG-Version'' ''1.0.0'' w), None)"

text \<open>\<open>uptime\<close> is the text of the time that passes between reading the clock twice.\<close>

definition healthHandler :: "string \<Rightarrow> ('d, 'h) APIServer \<Rightarrow> http_response \<Rightarrow> http_response" where
  "healthHandler uptime s w =
     (set_header ''Content-Type'' ''application/json'' w)
       \<lparr>hr_body := BodyJson [(''chain'', JsonText (nc_ChainID (cf_Network (as_config s)))),
          (''network'', JsonText (nc_NetworkID (cf_Network (as_config s)))), (''status'', JsonText ''healthy''),
          (''uptime'', JsonText uptime), (''version'', JsonText ''1.0.0'')]\<rparr>"

definition metricsHandler :: "http_response \<Rightarrow> http_response" where
  "metricsHandler w =
     (set_header ''Content-Type'' ''text/plain'' w)
       \<lparr>hr_status := 200,
        hr_body := BodyText (''# NDAG Coin Metrics'' @ [CHR 0x0A] @ ''node_health 1'' @ [CHR 0x0A])\<rparr>"

section \<open>Properties\<close>

text \<open>Where the server listens.\<close>

definition listening :: "('d, 'h) APIServer \<Rightarrow> bool \<times> bool" where
  "listening s = (as_grpcSrv s = Some SrvServing, as_gateway s = Some SrvServing)"

lemma start_frame:
  assumes "api_Start listen R s = (s', res)"
  shows "\<exists>g h. s' = s\<lparr>as_grpcSrv := g, as_gateway := h\<rparr>"
proof -
  have "\<exists>g h. s1 = s\<lparr>as_grpcSrv := g, as_gateway := h\<rparr>" if "startGRPC listen s = (s1, e)" for s1 e
    using that by (intro exI [of _ "as_grpcSrv s1"] exI [of _ "as_gateway s1"])
      (auto simp: startGRPC_def split: option.splits)
  moreover have "\<exists>g h. s2 = s1\<lparr>as_grpcSrv := g, as_gateway := h\<rparr>" if "startREST R s1 = Some (s2, e)" for s1 s2 :: "('a, 'b) APIServer" and e
    using that by (intro exI [of _ "as_grpcSrv s2"] exI [of _ "as_gateway s2"])
      (auto simp: startREST_def split: option.splits)
  moreover have "\<exists>g h. s = s\<lparr>as_grpcSrv := g, as_gateway := h\<rparr>"
    by (intro exI [of _ "as_grpcSrv s"] exI [of _ "as_gateway s"]) simp
  ultimately show ?thesis
    using assms by (fastforce simp: api_Start_def split: prod.splits option.splits if_splits)
qed

text \<open>What \<open>Start\<close> brings up: with both servers enabled either both listen, or the start fails and
  says at which step; a failure after the gRPC server is up leaves it listening until the context
  is done. Without the gRPC server the gateway
  never comes up: it connects to that server, and the call blocks while nobody listens there. After \<open>Stop\<close> nothing listens.\<close>

theorem api_lifecycle:
  assumes "api_Start listen R s = (s', res)" and "as_grpcSrv s = None" and "as_gateway s = None"
    and "ra_dial R False = None"
  shows "(res = ApiServing \<longrightarrow> listening s' = (ap_EnableGRPC (cf_API (as_config s)), ap_EnableREST (cf_API (as_config s)))) \<and>
    (res \<noteq> ApiServing \<longrightarrow> listening s' = (ap_EnableGRPC (cf_API (as_config s)) \<and> listen = None, False)) \<and>
    (ap_EnableREST (cf_API (as_config s)) \<and> \<not> ap_EnableGRPC (cf_API (as_config s)) \<longrightarrow> res = ApiBlocked) \<and>
    listening (fst (api_Stop s')) = (False, False) \<and> snd (api_Stop s') = None"
  using assms
  by (auto simp: api_Start_def startGRPC_def startREST_def listening_def api_Stop_def
      split: if_splits option.splits prod.splits)

theorem api_lifecycle_witness:
  "snd (api_Start None \<lparr>ra_dial = (\<lambda>up. if up then Some None else None), ra_node = None, ra_wallet = None, ra_admin = None\<rparr>
     (NewAPIServer (DefaultConfig\<lparr>cf_API := (cf_API DefaultConfig)\<lparr>ap_EnableGRPC := False, ap_EnableREST := True\<rparr>\<rparr>)
        (Map.empty :: bytes \<rightharpoonup> bytes) (NewMempool 1) (NewConsensusEngine NewDAG) :: (bytes \<rightharpoonup> bytes, unit) APIServer)) = ApiBlocked"
proof -
  let ?R = "\<lparr>ra_dial = (\<lambda>up. if up then Some None else None), ra_node = None, ra_wallet = None, ra_admin = None\<rparr> :: rest_answers"
  let ?s = "NewAPIServer (DefaultConfig\<lparr>cf_API := (cf_API DefaultConfig)\<lparr>ap_EnableGRPC := False, ap_EnableREST := True\<rparr>\<rparr>)
        (Map.empty :: bytes \<rightharpoonup> bytes) (NewMempool 1) (NewConsensusEngine NewDAG) :: (bytes \<rightharpoonup> bytes, unit) APIServer"
  obtain s' res where r: "api_Start None ?R ?s = (s', res)" by fastforce
  have "res = ApiBlocked" using api_lifecycle [OF r] by (simp add: NewAPIServer_def)
  then show ?thesis by (simp only: r snd_conv)
qed

text \<open>Every answer of the gateway names the main network, whatever network the node is of.\<close>

lemma header_names_mainnet:
  "map_of (hr_header (fst (customResponseModifier w))) ''X-NDAG-Network'' = Some ''ndag-mainnet''"
  by (simp add: customResponseModifier_def set_header_def map_of_update)

lemma error_answer:
  "map_of (hr_header (customErrorHandler G (c, m) w)) ''Content-Type'' = Some ''application/json'' \<and>
   hr_status (customErrorHandler G (c, m) w) = gl_http G c"
  by (simp add: customErrorHandler_def set_header_def map_of_update)

end
