(* ===== verification/EventLoop.thy ===== *)
theory EventLoop
  imports NodeProps
begin

text \<open>
  The event loop of the production node (\<open>eventLoop\<close> of \<open>pkg/node/node_production.go\<close>) over the
  signals its \<open>select\<close> gets, and what keeps it running.
\<close>

section \<open>The loop\<close>

text \<open>A tick comes with the readings of the memory in use and of the number of goroutines.\<close>

datatype loop_signal = CtxDone | LoopTick tick_inputs u64 nat

datatype loop_end = LoopRunning | LoopDone | LoopRecovered string | LoopFatal

text \<open>
  The node and how the loop stands after the signals; \<open>None\<close> when a tick never returns. The
  deferred function recovers from a panic, and the loop has then ended.
\<close>

fun prod_eventLoop :: "'d node_env \<Rightarrow> (('d, 'h) NodeProduction \<Rightarrow> ('d, 'h) NodeProduction) \<Rightarrow> loop_signal list \<Rightarrow>
    ('d, 'h) NodeProduction \<Rightarrow> (('d, 'h) NodeProduction \<times> loop_end) option" where
  "prod_eventLoop E pne [] n = Some (n, LoopRunning)"
| "prod_eventLoop E pne (CtxDone # sigs) n = Some (n, LoopDone)"
| "prod_eventLoop E pne (LoopTick inp alloc goroutines # sigs) n =
     (case processTick E pne inp n of
        None \<Rightarrow> None
      | Some (n1, Panic m) \<Rightarrow> Some (n1, LoopRecovered m)
      | Some (n1, Ret _) \<Rightarrow>
          if shouldEmergencyShutdown alloc goroutines then Some (n1, LoopFatal)
          else prod_eventLoop E pne sigs n1)"

section \<open>Calm engines\<close>

definition calm :: "Engine \<Rightarrow> bool" where
  "calm e \<longleftrightarrow> undecided (en_dag e) \<and> en_currentRound e < 18446744073709551615 \<and>
     (\<forall>i ev. event_of (en_dag e) i = Some ev \<longrightarrow> ev_Round ev < 18446744073709551615)"

lemma LatestRound_below:
  assumes "\<And>i ev. event_of d i = Some ev \<Longrightarrow> ev_Round ev < b" and "0 < b"
  shows "LatestRound ks d < b"
proof -
  have "fold (\<lambda>e m. if ev_Round e > m then ev_Round e else m) xs m < b"
    if "\<forall>e \<in> set xs. ev_Round e < b" "m < b" for xs m
    using that by (induction xs arbitrary: m) auto
  moreover have "\<forall>e \<in> set (range_values ks (dg_events d)). ev_Round e < b"
    using assms(1) by (fastforce simp: range_values_def map_filter_def)
  ultimately show ?thesis using assms(2) by (simp add: LatestRound_def)
qed

lemma calm_CurrentRound:
  assumes "calm e"
  shows "calm (fst (CurrentRound ks e))" "snd (CurrentRound ks e) < 18446744073709551615"
proof -
  have "LatestRound ks (en_dag e) < 18446744073709551615"
    using assms by (intro LatestRound_below) (auto simp: calm_def)
  with assms show "calm (fst (CurrentRound ks e))" "snd (CurrentRound ks e) < 18446744073709551615"
    by (auto simp: calm_def CurrentRound_def Let_def)
qed

lemma calm_AddEvent:
  assumes "calm e" and "ev_Round ev < 18446744073709551615"
  shows "calm (e\<lparr>en_dag := fst (AddEvent (en_dag e) (Some ev))\<rparr>)"
proof (cases "accepts (en_dag e) ev")
  case True
  then show ?thesis using assms undecided_AddEvent [of "en_dag e" "Some ev"] by (auto simp: calm_def AddEvent_events)
next
  case False
  then show ?thesis using assms by (simp add: AddEvent_rejected)
qed

text \<open>Two methods the loop calls are defined nowhere. A \<open>Sign\<close> that never raises a round to the
  greatest of all; a \<open>processNetworkEvents\<close>, called where there is a network, that keeps engines
  calm and leaves the database alone.\<close>

definition sign_keeps_bound :: "'d node_env \<Rightarrow> bool" where
  "sign_keeps_bound E \<longleftrightarrow> (\<forall>ev event. ne_sign E ev = Inr event \<and> ev_Round ev < 18446744073709551615 \<longrightarrow>
     ev_Round event < 18446744073709551615)"

definition keeps_calm :: "(('d, 'h) NodeProduction \<Rightarrow> ('d, 'h) NodeProduction) \<Rightarrow> bool" where
  "keeps_calm f \<longleftrightarrow> (\<forall>n. np_network n \<noteq> None \<and> calm (np_engine n) \<longrightarrow>
     calm (np_engine (f n)) \<and> xs_db (np_exec (f n)) = xs_db (np_exec n))"

definition ready_for :: "(('d, 'h) NodeProduction \<Rightarrow> ('d, 'h) NodeProduction) \<Rightarrow> 'd \<Rightarrow> ('d, 'h) NodeProduction \<Rightarrow> bool" where
  "ready_for pne db n \<longleftrightarrow> calm (np_engine n) \<and> xs_db (np_exec n) = db \<and> (np_network n = None \<or> keeps_calm pne)"

section \<open>A tick\<close>

lemma ready_processMempool:
  assumes "sign_keeps_bound E" and "ready_for pne db n"
  shows "ready_for pne db (fst (prod_processMempool E inp n))"
proof -
  obtain m1 txs where g: "GetPending (np_mempool n) 100 = (m1, txs)" by fastforce
  obtain e1 ps where p: "getLatestParents (ti_before inp) (np_engine n) = (e1, ps)" by fastforce
  obtain e2 r where c: "CurrentRound (ti_before inp) e1 = (e2, r)" by fastforce
  have "calm (np_engine n)" using assms(2) by (simp add: ready_for_def)
  then have "calm (fst (getLatestParents (ti_before inp) (np_engine n)))"
    using calm_CurrentRound(1) [of "np_engine n" "ti_before inp"]
    by (simp add: getLatestParents_def case_prod_beta Let_def)
  then have e2: "calm e2" "r < 18446744073709551615"
    using calm_CurrentRound [of e1 "ti_before inp"] by (simp_all add: p c)
  define ev where "ev = zero_event\<lparr>ev_Id := prod_generateEventID (ti_nano inp) (ti_unix inp),
    ev_Creator := prod_getNodeID (np_config n), ev_Parents := ps, ev_Timestamp := ti_nano inp,
    ev_Round := r, ev_Transactions := txs\<rparr>"
  have "calm (e2\<lparr>en_dag := fst (AddEvent (en_dag e2) (Some event))\<rparr>)" if "ne_sign E ev = Inr event" for event
  proof (rule calm_AddEvent [OF e2(1)])
    have "ev_Round ev < 18446744073709551615" using e2(2) by (simp add: ev_def)
    with that assms(1) show "ev_Round event < 18446744073709551615" by (simp add: sign_keeps_bound_def)
  qed
  moreover have pn: "np_engine (n\<lparr>np_mempool := m1\<rparr>) = np_engine n" by simp
  note def = prod_processMempool_def [of E inp n, unfolded Let_def g prod.case pn p c set_engine_simps,
      folded ev_def]
  ultimately show ?thesis
    using assms(2) e2(1)
    by (auto simp: def ready_for_def split: sum.split prod.split option.split)
qed

lemma ready_checkFinality:
  assumes "calm (xs_consensus st)"
  shows "\<exists>st1. prod_checkFinality E ks st = Some (st1, Ret ()) \<and> calm (xs_consensus st1) \<and> xs_db st1 = xs_db st"
proof -
  obtain e1 r where c: "CurrentRound ks (xs_consensus st) = (e1, r)" by fastforce
  have e1: "calm e1" "r < 18446744073709551615" using calm_CurrentRound [OF assms, of ks] by (simp_all add: c)
  then have "finality_rounds E r 0 (st\<lparr>xs_consensus := e1\<rparr>) = Some (st\<lparr>xs_consensus := e1\<rparr>, Ret ())"
    by (intro finality_rounds_undecided) (simp_all add: calm_def)
  with e1 show ?thesis by (simp add: prod_checkFinality_def c)
qed

lemma ready_tick:
  assumes "sign_keeps_bound E" and "ready_for pne db n"
  shows "\<exists>n'. processTick E pne inp n = Some (n', Ret ()) \<and> ready_for pne db n'"
proof -
  define n1 where "n1 = fst (prod_processMempool E inp n)"
  have n1: "ready_for pne db n1" unfolding n1_def using assms by (rule ready_processMempool)
  then obtain st where st: "prod_checkFinality (ne_exec E) (ti_after inp) (np_exec n1) = Some (st, Ret ())"
    "calm (xs_consensus st)" "xs_db st = db"
    using ready_checkFinality [of "np_exec n1" "ne_exec E" "ti_after inp"] by (auto simp: ready_for_def)
  define n2 where "n2 = n1\<lparr>np_exec := st\<rparr>"
  have n2: "ready_for pne db n2" using n1 st by (simp add: n2_def ready_for_def)
  then have "ready_for pne db (if np_network n2 \<noteq> None then pne n2 else n2)"
    by (auto simp: ready_for_def keeps_calm_def)
  moreover have "ready_for pne db (prod_cleanup m)" if "ready_for pne db m" for m
    using that by (simp add: ready_for_def prod_cleanup_def)
  moreover have "processTick E pne inp n = Some (prod_cleanup (if np_network n2 \<noteq> None then pne n2 else n2), Ret ())"
    unfolding processTick_def Let_def n1_def [symmetric] st(1) n2_def by (simp only: option.case prod.case outcome.case)
  ultimately show ?thesis by blast
qed

definition calm_tick :: "loop_signal \<Rightarrow> bool" where
  "calm_tick s = (case s of CtxDone \<Rightarrow> False | LoopTick inp alloc goroutines \<Rightarrow> \<not> shouldEmergencyShutdown alloc goroutines)"

lemma loop_continues:
  assumes "sign_keeps_bound E" and "list_all calm_tick sigs" and "ready_for pne db n"
  shows "\<exists>n'. ready_for pne db n' \<and>
    (\<forall>rest. prod_eventLoop E pne (sigs @ rest) n = prod_eventLoop E pne rest n')"
  using assms(2,3)
proof (induction sigs arbitrary: n)
  case (Cons s sigs)
  then obtain inp alloc goroutines where s: "s = LoopTick inp alloc goroutines"
    "\<not> shouldEmergencyShutdown alloc goroutines"
    by (cases s) (auto simp: calm_tick_def)
  obtain n1 where "processTick E pne inp n = Some (n1, Ret ())" "ready_for pne db n1"
    using ready_tick [OF assms(1) Cons.prems(2)] by blast
  with Cons.IH [of n1] Cons.prems(1) s show ?case by simp
qed auto

section \<open>Properties\<close>

text \<open>C16: the event loop of a production node goes on until it is told to stop. The node starts with
  a calm engine: it has decided nothing and knows no event of the greatest round. Then ticks
  within the bounds on memory and goroutines neither hang, nor panic, nor end the loop, whatever
  the clock, the orders of the maps and the answers of the topic; the engine stays calm, nothing
  is written to the database, and the cancelled context ends the loop. Two methods the loop calls
  are defined nowhere in the repository and nothing is assumed of them: the only ways out are a
  \<open>Sign\<close> that turns a lesser round into the greatest, and, on a node with a network, a
  \<open>processNetworkEvents\<close> that itself decides, adds such an event or writes.\<close>

theorem event_loop_survives:
  assumes "calm (np_engine n)" and "list_all calm_tick sigs"
  shows "(\<exists>n'. prod_eventLoop E pne sigs n = Some (n', LoopRunning) \<and>
      prod_eventLoop E pne (sigs @ CtxDone # rest) n = Some (n', LoopDone) \<and>
      calm (np_engine n') \<and> xs_db (np_exec n') = xs_db (np_exec n)) \<or>
    (\<exists>ev event. ne_sign E ev = Inr event \<and> ev_Round ev < 18446744073709551615 \<and> ev_Round event = 18446744073709551615) \<or>
    np_network n \<noteq> None \<and> (\<exists>m. np_network m \<noteq> None \<and> calm (np_engine m) \<and>
      (\<not> calm (np_engine (pne m)) \<or> xs_db (np_exec (pne m)) \<noteq> xs_db (np_exec m)))"
proof (cases "sign_keeps_bound E \<and> (np_network n = None \<or> keeps_calm pne)")
  case True
  then have "ready_for pne (xs_db (np_exec n)) n" using assms(1) by (simp add: ready_for_def)
  from loop_continues [OF conjunct1 [OF True] assms(2) this] obtain n'
    where n': "ready_for pne (xs_db (np_exec n)) n'"
      "\<And>rest. prod_eventLoop E pne (sigs @ rest) n = prod_eventLoop E pne rest n'"
    by blast
  from n'(1) n'(2) [of "[]"] n'(2) [of "CtxDone # rest"] show ?thesis
    by (intro disjI1 exI [of _ n']) (simp add: ready_for_def)
next
  case False
  then consider (sign) "\<not> sign_keeps_bound E" | (hook) "np_network n \<noteq> None" "\<not> keeps_calm pne"
    by (cases "sign_keeps_bound E") simp_all
  then show ?thesis
  proof cases
    case sign
    then obtain ev event where "ne_sign E ev = Inr event" "ev_Round ev < 18446744073709551615"
      "\<not> ev_Round event < 18446744073709551615"
      by (auto simp: sign_keeps_bound_def)
    moreover from this(3) have "ev_Round event = 18446744073709551615"
      using word_le_max [of "ev_Round event"] by (simp add: order_less_le)
    ultimately show ?thesis by blast
  next
    case hook
    then show ?thesis by (simp add: keeps_calm_def)
  qed
qed

theorem event_loop_survives_witness:
  "\<exists>n'. prod_eventLoop sample_node_env (\<lambda>n. n) [LoopTick sample_tick 1000 12, LoopTick sample_tick 2147483648 10000] busy_node =
     Some (n', LoopRunning)"
proof -
  have calm: "calm (np_engine busy_node)"
    by (simp add: busy_node_def calm_def NewConsensusEngine_def NewDAG_def undecided_def)
  have ticks: "list_all calm_tick [LoopTick sample_tick 1000 12, LoopTick sample_tick 2147483648 10000]"
    by (simp add: calm_tick_def shouldEmergencyShutdown_def)
  have sign: "ne_sign sample_node_env ev = Inr ev" for ev by (simp add: sample_node_env_def)
  have offline: "np_network busy_node = None" by (simp add: busy_node_def)
  from event_loop_survives [OF calm ticks, of sample_node_env "\<lambda>n. n" "[]"] show ?thesis
    by (elim disjE exE conjE) (rule exI, assumption, simp add: sign, simp add: offline, simp add: offline)
qed

end
