(* ===== verification/Standalone.thy ===== *)
theory Standalone
  imports NodeProps
begin

text \<open>
  The program \<open>main.go\<close>: its node, built from the same parts as those of \<open>pkg/node\<close> and kept in the
  same record (its state machine is made and never used). Its event loop executes the transactions
  of an event on the executor when a verdict on fame comes from the finality channel. Signals and
  printing are left out; its start-up files are in \<open>Startup\<close>.
\<close>

section \<open>Construction, start and stop\<close>

definition main_initializeNode :: "string \<Rightarrow> string + 'd \<Rightarrow> Config \<Rightarrow> string + ('d, 'h) NodeProduction" where
  "main_initializeNode home opened cfg =
     (case NewStore opened (filepath_join (GetFullDataDir home cfg) (sc_Path (cf_Storage cfg))) of
        Inl e \<Rightarrow> Inl (wrap ''failed to initialize storage'' e)
      | Inr store \<Rightarrow>
          (case new_network cfg of
             Inl e \<Rightarrow> Inl (wrap ''failed to initialize P2P network'' e)
           | Inr net \<Rightarrow> Inr \<lparr>np_config = cfg, np_exec = \<lparr>xs_db = store, xs_consensus = NewConsensusEngine NewDAG\<rparr>,
               np_mempool = NewMempool (cs_MaxGasPerRound (cf_Consensus cfg)), np_network = net,
               np_apiServer = ap_Enabled (cf_API cfg), np_running = False\<rparr>))"

text \<open>Every part starts in a goroutine of its own; an error of the network's start is logged.\<close>

definition main_Start :: "'h start_answers \<Rightarrow> ('d, 'h) NodeProduction \<Rightarrow> ('d, 'h) NodeProduction" where
  "main_Start A n =
     (case np_network n of None \<Rightarrow> n | Some net \<Rightarrow> n\<lparr>np_network := Some (fst (net_Start A net))\<rparr>)"

definition main_Stop :: "string option \<Rightarrow> ('d, 'h) NodeProduction \<Rightarrow> ('d, 'h) NodeProduction outcome" where
  "main_Stop close_host n =
     bind_outcome (stop_network close_host n) (\<lambda>n1. bind_outcome (stop_mempool n1) stop_consensus)"

section \<open>The event loop\<close>

definition main_generateEventID :: "i64 \<Rightarrow> i64 \<Rightarrow> string" where
  "main_generateEventID nano unix = ''event-'' @ fmt_i64 nano @ ''-'' @ fmt_i64 unix"

text \<open>The node afterwards and the message broadcast, whose failure is only logged.\<close>

definition main_processMempool :: "'d node_env \<Rightarrow> tick_inputs \<Rightarrow> ('d, 'h) NodeProduction \<Rightarrow>
    ('d, 'h) NodeProduction \<times> bytes option" where
  "main_processMempool E inp n =
     (let (m1, pending) = GetPending (np_mempool n) 100; n1 = n\<lparr>np_mempool := m1\<rparr> in
      if length pending > 0 then
        let (e1, r) = CurrentRound (ti_before inp) (np_engine n1);
            event = zero_event\<lparr>ev_Id := main_generateEventID (ti_nano inp) (ti_unix inp), ev_Creator := ''node'',
              ev_Timestamp := ti_nano inp, ev_Round := r, ev_Transactions := pending\<rparr>;
            n2 = set_engine e1 n1
        in case ne_sign E event of
             Inl err \<Rightarrow> (n2, None)
           | Inr event \<Rightarrow>
               (case AddEvent (en_dag e1) (Some event) of
                  (d, Some err) \<Rightarrow> (set_engine (e1\<lparr>en_dag := d\<rparr>) n2, None)
                | (d, None) \<Rightarrow>
                    ((set_engine (e1\<lparr>en_dag := d\<rparr>) n2)
                       \<lparr>np_mempool := fold (\<lambda>tx m. Mempool_Remove m (tx_Id tx)) pending m1\<rparr>,
                     case np_network n of None \<Rightarrow> None
                     | Some net \<Rightarrow> fst (BroadcastEvent (ne_marshalEvent E) (ti_publish inp) net event)))
      else (n1, None))"

text \<open>The same loop as in \<open>node.go\<close>: what \<open>CheckFinality\<close> answers is dropped.\<close>

definition main_checkFinality :: "string list \<Rightarrow> ('d, 'h) NodeProduction \<Rightarrow> ('d, 'h) NodeProduction option" where
  "main_checkFinality ks n = map_option (\<lambda>e. set_engine e n) (node_checkFinality ks (np_engine n))"

text \<open>Also when the verdict denies fame. The loop over the transactions is that of the production node.\<close>

definition main_on_verdict :: "'d exec_env \<Rightarrow> FinalityEvent \<Rightarrow> ('d, 'h) NodeProduction \<Rightarrow>
    ('d, 'h) NodeProduction outcome" where
  "main_on_verdict E f n =
     (case GetEvent (np_dag n) (fe_EventID f) of
        None \<Rightarrow> Ret n
      | Some event \<Rightarrow>
          (case executeFinalizedEvent E (ev_Transactions event) (np_exec n) of
             (st, Panic m) \<Rightarrow> Panic m
           | (st, Ret _) \<Rightarrow> Ret (n\<lparr>np_exec := st\<rparr>)))"

definition main_on_event :: "Event \<Rightarrow> ('d, 'h) NodeProduction \<Rightarrow> ('d, 'h) NodeProduction" where
  "main_on_event event n = set_engine ((np_engine n)\<lparr>en_dag := fst (AddEvent (np_dag n) (Some event))\<rparr>) n"

text \<open>
  One turn when Go's \<open>select\<close> takes the given case: \<open>None\<close> when the case is not ready, or when a tick
  never returns. The context is the background, which is never done. The channel expressions are
  evaluated first, so a nil network panics whatever case is ready. A closed channel gives zero
  values: a nil event or transaction, whose id is read, or an empty verdict.
\<close>

datatype main_case = MainDone | MainTick tick_inputs | MainEvent | MainTx | MainVerdict

definition empty_verdict :: FinalityEvent where
  "empty_verdict = \<lparr>fe_EventID = [], fe_Round = 0, fe_Timestamp = 0, fe_Famous = False\<rparr>"

fun main_select :: "'d node_env \<Rightarrow> main_case \<Rightarrow> 'h P2PNetwork \<Rightarrow> ('d, 'h) NodeProduction \<Rightarrow>
    ('d, 'h) NodeProduction outcome option" where
  "main_select E MainDone net n = None"
| "main_select E (MainTick inp) net n =
     map_option Ret (main_checkFinality (ti_after inp) (fst (main_processMempool E inp n)))"
| "main_select E MainEvent net n =
     (case nt_eventChan net of
        [] \<Rightarrow> if nt_closed net then Some (Panic ''nil pointer dereference'') else None
      | e # es \<Rightarrow> Some (Ret (main_on_event e (n\<lparr>np_network := Some (net\<lparr>nt_eventChan := es\<rparr>)\<rparr>))))"
| "main_select E MainTx net n =
     (case mp_chan (np_mempool n) of
        [] \<Rightarrow> if mp_chanClosed (np_mempool n) then Some (Panic ''nil pointer dereference'') else None
      | tx # txs \<Rightarrow> Some (Ret (n\<lparr>np_mempool := (np_mempool n)\<lparr>mp_chan := txs\<rparr>\<rparr>)))"
| "main_select E MainVerdict net n =
     (case en_finality (np_engine n) of
        [] \<Rightarrow> if en_finalityClosed (np_engine n) then Some (main_on_verdict (ne_exec E) empty_verdict n) else None
      | f # fs \<Rightarrow> Some (main_on_verdict (ne_exec E) f (set_engine ((np_engine n)\<lparr>en_finality := fs\<rparr>) n)))"

definition main_turn :: "'d node_env \<Rightarrow> main_case \<Rightarrow> ('d, 'h) NodeProduction \<Rightarrow> ('d, 'h) NodeProduction outcome option" where
  "main_turn E c n =
     (case np_network n of
        None \<Rightarrow> Some (Panic ''nil pointer dereference'')
      | Some net \<Rightarrow> main_select E c net n)"

section \<open>Runs\<close>

text \<open>The transactions a turn executes.\<close>

definition head_verdict :: "Engine \<Rightarrow> FinalityEvent" where
  "head_verdict e = (case en_finality e of [] \<Rightarrow> empty_verdict | f # _ \<Rightarrow> f)"

definition turn_executes :: "main_case \<Rightarrow> ('d, 'h) NodeProduction \<Rightarrow> Transaction list" where
  "turn_executes c n =
     (if c = MainVerdict
      then (case GetEvent (np_dag n) (fe_EventID (head_verdict (np_engine n))) of None \<Rightarrow> [] | Some e \<Rightarrow> ev_Transactions e)
      else [])"

text \<open>
  A step and the transactions it executes: a turn, start, stop, and anything other goroutines do to
  the engine, determining fame included, to the pool and to the network.
\<close>

inductive main_step :: "'d node_env \<Rightarrow> ('d, 'h) NodeProduction \<Rightarrow> Transaction list \<Rightarrow> ('d, 'h) NodeProduction \<Rightarrow> bool" for E where
  turn: "main_turn E c n = Some (Ret n') \<Longrightarrow> main_step E n (turn_executes c n) n'"
| starts: "main_step E n [] (main_Start A n)"
| stops: "main_Stop ch n = Ret n' \<Longrightarrow> main_step E n [] n'"
| engine: "engine_step (np_engine n) e \<Longrightarrow> main_step E n [] (set_engine e n)"
| pool: "mempool_step text_len (np_mempool n) m \<Longrightarrow> main_step E n [] (n\<lparr>np_mempool := m\<rparr>)"
| network: "np_network n = Some net \<Longrightarrow> net_step L ue ut net net' \<Longrightarrow> main_step E n [] (n\<lparr>np_network := Some net'\<rparr>)"

inductive main_run :: "'d node_env \<Rightarrow> ('d, 'h) NodeProduction \<Rightarrow> Transaction list \<Rightarrow> ('d, 'h) NodeProduction \<Rightarrow> bool" for E where
  stay: "main_run E n [] n"
| move: "main_run E n txs n1 \<Longrightarrow> main_step E n1 ts n2 \<Longrightarrow> main_run E n (txs @ ts) n2"

section \<open>What a step does to the database\<close>

lemma executeFinalizedEvent_sequence:
  "executeFinalizedEvent E txs st = (st', Ret u) \<Longrightarrow> st' = execute_sequence E txs st"
proof (induction txs arbitrary: st)
  case (Cons tx txs)
  then show ?case by (auto simp: execute_sequence_def split: prod.splits outcome.splits)
qed (simp add: execute_sequence_def)

text \<open>The database after a step is that after its transactions.\<close>

definition executes :: "'d exec_env \<Rightarrow> 'd exec_state \<Rightarrow> Transaction list \<Rightarrow> 'd exec_state \<Rightarrow> bool" where
  "executes E st txs st' \<longleftrightarrow> (\<exists>c c'. st' = (execute_sequence E txs (st\<lparr>xs_consensus := c\<rparr>))\<lparr>xs_consensus := c'\<rparr>)"

lemma same_db_executes: "xs_db st' = xs_db st \<Longrightarrow> executes E st [] st'"
  by (cases st; cases st') (auto simp: executes_def execute_sequence_def)

lemma on_verdict_executes:
  assumes "main_on_verdict E f n = Ret n'"
  shows "executes E (np_exec n) (case GetEvent (np_dag n) (fe_EventID f) of None \<Rightarrow> [] | Some e \<Rightarrow> ev_Transactions e) (np_exec n')"
proof (cases "GetEvent (np_dag n) (fe_EventID f)")
  case None
  with assms show ?thesis by (simp add: main_on_verdict_def same_db_executes)
next
  case (Some e)
  with assms obtain st u where "executeFinalizedEvent E (ev_Transactions e) (np_exec n) = (st, Ret u)"
    "n' = n\<lparr>np_exec := st\<rparr>"
    by (auto simp: main_on_verdict_def split: prod.splits outcome.splits)
  with executeFinalizedEvent_sequence [OF this(1)] Some show ?thesis
    by (simp add: executes_def) (metis exec_state.surjective exec_state.update_convs(2))
qed

lemma processMempool_db [simp]: "xs_db (np_exec (fst (main_processMempool E inp n))) = xs_db (np_exec n)"
  by (simp add: main_processMempool_def Let_def split: prod.split sum.split option.split)

lemma checkFinality_db: "main_checkFinality ks n = Some n' \<Longrightarrow> xs_db (np_exec n') = xs_db (np_exec n)"
  by (auto simp: main_checkFinality_def)

lemma turn_step_executes:
  assumes "main_turn E c n = Some (Ret n')"
  shows "executes (ne_exec E) (np_exec n) (turn_executes c n) (np_exec n')"
proof -
  from assms obtain net where net: "main_select E c net n = Some (Ret n')"
    by (auto simp: main_turn_def split: option.splits)
  show ?thesis
  proof (cases c)
    case MainVerdict
    obtain fs where v: "main_on_verdict (ne_exec E) (head_verdict (np_engine n))
        (if en_finality (np_engine n) = [] then n else set_engine ((np_engine n)\<lparr>en_finality := fs\<rparr>) n) = Ret n'"
      using net MainVerdict by (auto simp: head_verdict_def split: list.splits if_splits)
    let ?n1 = "if en_finality (np_engine n) = [] then n else set_engine ((np_engine n)\<lparr>en_finality := fs\<rparr>) n"
    have "np_dag ?n1 = np_dag n" by simp
    with on_verdict_executes [OF v] have "executes (ne_exec E) (np_exec ?n1) (turn_executes c n) (np_exec n')"
      using MainVerdict by (simp add: turn_executes_def)
    then show ?thesis by (auto simp: executes_def set_engine_def split: if_splits)
  next
    case MainEvent
    with net show ?thesis
      by (auto simp: turn_executes_def main_on_event_def intro!: same_db_executes split: list.splits if_splits)
  next
    case MainTx
    with net show ?thesis
      by (auto simp: turn_executes_def intro!: same_db_executes split: list.splits if_splits)
  next
    case (MainTick inp)
    with net show ?thesis
      by (auto simp: turn_executes_def intro!: same_db_executes dest: checkFinality_db)
  qed (use net in simp)
qed

lemma stop_db:
  "stop_network ch n = Ret n' \<Longrightarrow> xs_db (np_exec n') = xs_db (np_exec n)"
  "stop_mempool n = Ret n' \<Longrightarrow> xs_db (np_exec n') = xs_db (np_exec n)"
  "stop_consensus n = Ret n' \<Longrightarrow> xs_db (np_exec n') = xs_db (np_exec n)"
  by (auto simp: stop_network_def stop_mempool_def stop_consensus_def bind_outcome_Ret split: option.splits)

lemma step_executes: "main_step E n ts n' \<Longrightarrow> executes (ne_exec E) (np_exec n) ts (np_exec n')"
proof (induction rule: main_step.induct)
  case (turn c n n')
  then show ?case by (rule turn_step_executes)
next
  case (stops ch n n')
  then show ?case
    by (auto simp: main_Stop_def bind_outcome_Ret intro!: same_db_executes dest!: stop_db)
qed (auto intro!: same_db_executes simp: main_Start_def split: option.split)

section \<open>Nonces along a run\<close>

lemma sequence_keyed:
  "env_ok E view \<Longrightarrow> list_all has_handler txs \<Longrightarrow> keyed E st \<Longrightarrow> keyed E (execute_sequence E txs st)"
proof (induction txs arbitrary: st)
  case (Cons tx txs)
  obtain st' r where e: "Execute E st (Some tx) = (st', r)" by fastforce
  from Execute_nonces [OF Cons.prems(1,3) _ this] Cons.prems(2) have "keyed E st'" by simp
  with Cons e show ?case by (simp add: execute_sequence_def)
qed (simp add: execute_sequence_def)

lemma ledger_consensus [simp]:
  "ledger E (st\<lparr>xs_consensus := c\<rparr>) = ledger E st" "keyed E (st\<lparr>xs_consensus := c\<rparr>) = keyed E st"
  by (simp_all add: ledger_def keyed_def fun_eq_iff)

lemma executes_nonces:
  assumes "env_ok E view" and "executes E st txs st'" and "list_all has_handler txs" and "keyed E st"
    and "ledger E st a = Some h" and "unat (ho_nonce h) + length txs < 18446744073709551616"
  shows "keyed E st' \<and> (\<exists>h'. ledger E st' a = Some h' \<and>
    unat (ho_nonce h) \<le> unat (ho_nonce h') \<and> unat (ho_nonce h') \<le> unat (ho_nonce h) + length txs)"
proof -
  obtain c c' where st': "st' = (execute_sequence E txs (st\<lparr>xs_consensus := c\<rparr>))\<lparr>xs_consensus := c'\<rparr>"
    using assms(2) by (auto simp: executes_def)
  show ?thesis
    using sequence_nonces [OF assms(1) _ assms(3), of "st\<lparr>xs_consensus := c\<rparr>" a h] assms(4-6)
      sequence_keyed [OF assms(1,3), of "st\<lparr>xs_consensus := c\<rparr>"]
    by (simp add: st')
qed

lemma run_nonces:
  assumes "env_ok (ne_exec E) view"
  shows "main_run E n txs n' \<Longrightarrow> list_all has_handler txs \<Longrightarrow> keyed (ne_exec E) (np_exec n) \<Longrightarrow>
    ledger (ne_exec E) (np_exec n) a = Some h \<Longrightarrow> unat (ho_nonce h) + length txs < 18446744073709551616 \<Longrightarrow>
    keyed (ne_exec E) (np_exec n') \<and> (\<exists>h'. ledger (ne_exec E) (np_exec n') a = Some h' \<and>
      unat (ho_nonce h) \<le> unat (ho_nonce h') \<and> unat (ho_nonce h') \<le> unat (ho_nonce h) + length txs)"
proof (induction rule: main_run.induct)
  case (move n txs n1 ts n2)
  then obtain h1 where h1: "keyed (ne_exec E) (np_exec n1)" "ledger (ne_exec E) (np_exec n1) a = Some h1"
    "unat (ho_nonce h) \<le> unat (ho_nonce h1)" "unat (ho_nonce h1) \<le> unat (ho_nonce h) + length txs"
    by auto
  with move.prems executes_nonces [OF assms step_executes [OF move.hyps(2)] _ h1(1,2)]
  obtain h2 where "keyed (ne_exec E) (np_exec n2)" "ledger (ne_exec E) (np_exec n2) a = Some h2"
    "unat (ho_nonce h1) \<le> unat (ho_nonce h2)" "unat (ho_nonce h2) \<le> unat (ho_nonce h1) + length ts"
    by auto
  with h1 show ?case by auto
qed auto

section \<open>Properties\<close>

text \<open>C8: in every run of the node a transaction succeeds at most once: when it has succeeded it is
  refused for its nonce, and changes nothing, whatever steps follow, verdicts on any events
  included, as long as the run executes only transactions whose handlers the repository
  defines and fewer than a nonce needs to wrap around.\<close>

theorem succeeds_once:
  assumes "env_ok (ne_exec E) view" and "keyed (ne_exec E) (np_exec n)"
    and "Execute (ne_exec E) (np_exec n) (Some tx) = (st1, Ret (r, None))"
    and "main_run E (n\<lparr>np_exec := st1\<rparr>) txs n2" and "list_all has_handler (tx # txs)"
    and "unat (tx_Nonce tx) + length txs + 1 < 18446744073709551616"
  shows "\<exists>m. Execute (ne_exec E) (np_exec n2) (Some tx) = (np_exec n2, refuse tx m ''invalid nonce'' 0)"
proof -
  let ?a = "GetAddressFromPublicKey (xe_lib (ne_exec E)) (tx_PublicKey tx)"
  obtain h where h: "keyed (ne_exec E) st1" "VerifyTransactionSignature (xe_lib (ne_exec E)) tx"
    "ledger (ne_exec E) st1 ?a = Some h" "ho_nonce h = tx_Nonce tx"
    using Execute_spends [OF assms(1,2) _ assms(3)] assms(5) by auto
  then obtain h' where h': "ledger (ne_exec E) (np_exec n2) ?a = Some h'"
    "unat (tx_Nonce tx) \<le> unat (ho_nonce h')" "unat (ho_nonce h') \<le> unat (tx_Nonce tx) + length txs"
    using run_nonces [OF assms(1,4)] assms(5,6) by force
  show ?thesis by (rule spent_refused [OF h'(1) h(2) h'(2)]) (use h'(3) assms(6) in linarith)
qed

definition sample_main :: "(bytes \<rightharpoonup> bytes) exec_state \<Rightarrow> (bytes \<rightharpoonup> bytes, unit) NodeProduction" where
  "sample_main st = \<lparr>np_config = DefaultConfig, np_exec = st, np_mempool = NewMempool 1, np_network = None,
     np_apiServer = False, np_running = False\<rparr>"

theorem succeeds_once_witness:
  "\<exists>st1 r n2 m. Execute sample_env (sample_state [sample_account alice 100])
      (Some (sample_tx (Transfer \<lparr>tp_To = ''bob'', tp_Amount = 30, tp_Memo = None\<rparr>) 60)) = (st1, Ret (Some r, None)) \<and>
    main_step sample_node_env (sample_main st1) [] n2 \<and>
    Execute sample_env (np_exec n2) (Some (sample_tx (Transfer \<lparr>tp_To = ''bob'', tp_Amount = 30, tp_Memo = None\<rparr>) 60)) =
      (np_exec n2, refuse (sample_tx (Transfer \<lparr>tp_To = ''bob'', tp_Amount = 30, tp_Memo = None\<rparr>) 60) m ''invalid nonce'' 0)"
proof -
  let ?tx = "sample_tx (Transfer \<lparr>tp_To = ''bob'', tp_Amount = 30, tp_Memo = None\<rparr>) 60"
  let ?st = "sample_state [sample_account alice 100]"
  obtain st1 r where e: "Execute sample_env ?st (Some ?tx) = (st1, Ret (Some r, None))"
    using sample_transfer_success by blast
  let ?n2 = "set_engine (fst (CheckFinality (np_engine (sample_main st1)) ''e'')) (sample_main st1)"
  have step: "main_step sample_node_env (sample_main st1) [] ?n2"
    by (intro main_step.engine engine_step.intros)
  from main_run.move [OF main_run.stay this]
  have "main_run sample_node_env ((sample_main ?st)\<lparr>np_exec := st1\<rparr>) [] ?n2" by (simp add: sample_main_def)
  from succeeds_once [OF _ _ _ this, of "\<lambda>d. d" ?tx "Some r"] e step show ?thesis
    by (force simp: sample_node_env_def sample_env_ok sample_keyed sample_main_def has_handler_def)
qed

text \<open>A witness voted not famous has its transactions executed too: the transfer it carries is paid.\<close>

lemma Execute_consensus_hyps [simp]:
  "admits E (st\<lparr>xs_consensus := c\<rparr>) tx s = admits E st tx s"
  "getOrCreateAccount E (st\<lparr>xs_consensus := c\<rparr>) a = getOrCreateAccount E st a"
  by (simp_all add: admits_def getOrCreateAccount_def)

theorem denied_transfer_paid:
  assumes "env_ok (ne_exec E) view" and "keyed (ne_exec E) (np_exec n)" and "admits (ne_exec E) (np_exec n) tx s"
    and "tx_Payload tx = Transfer p" and "tp_Amount p \<noteq> 0" and "tp_Amount p \<le> ast_Balance s" and "ascii_account s"
    and "ascii_account (getOrCreateAccount (ne_exec E) (np_exec n) (tp_To p))"
    and "np_network n = Some net" and "en_finality (np_engine n) = f # fs" and "\<not> fe_Famous f"
    and "GetEvent (np_dag n) (fe_EventID f) = Some event" and "ev_Transactions event = [tx]"
  shows "\<exists>n'. main_turn E MainVerdict n = Some (Ret n') \<and> ledger (ne_exec E) (np_exec n') =
    ledger_transfer (ledger (ne_exec E) (np_exec n)) (ast_Address s) (tp_To p) (tp_Amount p) (tx_Fee tx)"
proof -
  let ?n1 = "set_engine ((np_engine n)\<lparr>en_finality := fs\<rparr>) n"
  have x: "np_exec ?n1 = (np_exec n)\<lparr>xs_consensus := (np_engine n)\<lparr>en_finality := fs\<rparr>\<rparr>" by (simp add: set_engine_def)
  obtain st' r where e: "Execute (ne_exec E) (np_exec ?n1) (Some tx) = (st', Ret (Some r, None))"
    "ledger (ne_exec E) st' = ledger_transfer (ledger (ne_exec E) (np_exec n)) (ast_Address s) (tp_To p) (tp_Amount p) (tx_Fee tx)"
    using transfer_executes [of "ne_exec E" view "np_exec ?n1" tx s p] assms(1-8) unfolding x by auto
  then show ?thesis using assms(9,10,12,13)
    by (simp add: main_turn_def main_on_verdict_def)
qed

end
