(* ===== verification/History.thy ===== *)
theory History
  imports Standalone
begin

text \<open>
  What a production node executes once events are final: every check of finality executes the
  transactions of all finalized witnesses, those it has executed before included, because
  \<open>CheckFinality\<close> answers yes for an event that is final already.
\<close>

section \<open>Execution leaves the graph alone\<close>

lemma saveAccount_engine: "saveAccount E st acc = (st', err) \<Longrightarrow> xs_consensus st' = xs_consensus st"
  by (auto simp: saveAccount_def split: sum.splits prod.splits option.splits)

lemma succeed_dag [simp]: "en_dag (xs_consensus (fst (succeed E st ctx m g c))) = en_dag (xs_consensus st)"
  by (simp add: succeed_def emit_event_def case_prod_beta)

lemma validator_engine_dag [simp]:
  "en_dag (AddValidator e v) = en_dag e" "en_dag (set_stake a s e) = en_dag e"
  by (simp_all add: AddValidator_def set_stake_def split: option.split)

lemma stake_handlers_dag:
  "en_dag (xs_consensus (fst (ex_executeTransfer E st ctx p))) = en_dag (xs_consensus st)"
  "en_dag (xs_consensus (fst (ex_executeCreateValidator E st ctx v))) = en_dag (xs_consensus st)"
  "en_dag (xs_consensus (fst (ex_executeDelegateStake E st ctx d))) = en_dag (xs_consensus st)"
  by (auto simp: ex_executeTransfer_def ex_executeCreateValidator_def ex_executeDelegateStake_def Let_def
      split: sum.split prod.split option.split dest!: saveAccount_engine)

lemma token_handlers_dag:
  "en_dag (xs_consensus (fst (ex_executeCreateToken E st ctx c))) = en_dag (xs_consensus st)"
  "en_dag (xs_consensus (fst (ex_executeMintToken E st ctx m))) = en_dag (xs_consensus st)"
  "en_dag (xs_consensus (fst (ex_executeTransferToken E st ctx t))) = en_dag (xs_consensus st)"
  by (auto simp: ex_executeCreateToken_def ex_executeMintToken_def ex_executeTransferToken_def Let_def
      split: sum.split prod.split option.split dest!: saveAccount_engine)

lemma nft_handlers_dag:
  "en_dag (xs_consensus (fst (ex_executeCreateCollection E st ctx c))) = en_dag (xs_consensus st)"
  "en_dag (xs_consensus (fst (ex_executeMintNFT E st ctx m))) = en_dag (xs_consensus st)"
  by (auto simp: ex_executeCreateCollection_def ex_executeMintNFT_def Let_def case_prod_beta
      split: sum.split option.split)

lemma handlers_dag:
  "has_handler (ec_Tx ctx) \<Longrightarrow> en_dag (xs_consensus (fst (ex_executeTransaction E st ctx))) = en_dag (xs_consensus st)"
  by (auto simp: ex_executeTransaction_def has_handler_def stake_handlers_dag token_handlers_dag nft_handlers_dag
      split: payload.splits)

lemma Execute_dag:
  assumes "has_handler tx"
  shows "en_dag (xs_consensus (fst (Execute E st (Some tx)))) = en_dag (xs_consensus st)"
proof -
  have "en_dag (xs_consensus st1) = en_dag (xs_consensus st)" if "ex_executeTransaction E st ctx = (st1, r)" "ec_Tx ctx = tx" for ctx st1 r
    using handlers_dag [of ctx E st] that assms by simp
  then show ?thesis
    by (auto simp: Execute_def Let_def split: sum.split prod.split outcome.split option.split dest!: saveAccount_engine)
qed

lemma execute_sequence_dag:
  "list_all has_handler txs \<Longrightarrow> en_dag (xs_consensus (execute_sequence E txs st)) = en_dag (xs_consensus st)"
  unfolding execute_sequence_def by (induction txs arbitrary: st) (simp_all add: Execute_dag)

lemma execute_sequence_append:
  "execute_sequence E (xs @ ys) st = execute_sequence E ys (execute_sequence E xs st)"
  by (simp add: execute_sequence_def)

section \<open>Settled engines\<close>

text \<open>No check of finality can decide on a further event.\<close>

definition quiescent :: "DAG \<Rightarrow> bool" where
  "quiescent d \<longleftrightarrow> (\<forall>i. event_of d i \<noteq> None \<and> dg_famous d i \<and> GetAncestors d i \<subseteq> finalized_set d \<longrightarrow> dg_finalized d i)"

lemma quiescent_CheckFinality:
  assumes "quiescent (en_dag e)"
  shows "CheckFinality e i = (e, dg_finalized (en_dag e) i)"
  using assms by (auto simp: CheckFinality_def Let_def quiescent_def finalized_set_def split: option.split)

text \<open>The transactions of the finalized witnesses of a round, and of a range of rounds.\<close>

definition final_transactions :: "DAG \<Rightarrow> u64 \<Rightarrow> Transaction list" where
  "final_transactions d r = concat (map ev_Transactions (filter (\<lambda>w. dg_finalized d (ev_Id w)) (GetWitnesses d r)))"

definition history :: "DAG \<Rightarrow> nat \<Rightarrow> nat \<Rightarrow> Transaction list" where
  "history d a b = concat (map (\<lambda>k. final_transactions d (word_of_nat k)) [a..<b])"

lemma witnesses_execute:
  assumes "quiescent (en_dag (xs_consensus st))" and "finality_witnesses E ws st = (st', Ret u)"
    and "list_all has_handler (concat (map ev_Transactions (filter (\<lambda>w. dg_finalized (en_dag (xs_consensus st)) (ev_Id w)) ws)))"
  shows "st' = execute_sequence E
      (concat (map ev_Transactions (filter (\<lambda>w. dg_finalized (en_dag (xs_consensus st)) (ev_Id w)) ws))) st"
  using assms
proof (induction ws arbitrary: st)
  case (Cons w ws)
  let ?d = "en_dag (xs_consensus st)"
  have check: "CheckFinality (xs_consensus st) (ev_Id w) = (xs_consensus st, dg_finalized ?d (ev_Id w))"
    by (rule quiescent_CheckFinality [OF Cons.prems(1)])
  show ?case
  proof (cases "dg_finalized ?d (ev_Id w)")
    case True
    with Cons.prems(2) check obtain st1 v where run: "executeFinalizedEvent E (ev_Transactions w) st = (st1, Ret v)"
      "finality_witnesses E ws st1 = (st', Ret u)"
      by (auto split: prod.splits outcome.splits)
    have st1: "st1 = execute_sequence E (ev_Transactions w) st" by (rule executeFinalizedEvent_sequence [OF run(1)])
    then have d: "en_dag (xs_consensus st1) = ?d"
      using Cons.prems(3) True by (simp add: execute_sequence_dag)
    show ?thesis
      using Cons.IH [OF _ run(2)] Cons.prems(1,3) True by (simp add: d) (simp add: st1 execute_sequence_append)
  next
    case False
    with Cons.IH [of st] Cons.prems check show ?thesis by simp
  qed
qed (simp add: execute_sequence_def)

lemma rounds_execute:
  assumes "latestRound < 18446744073709551615"
  shows "quiescent (en_dag (xs_consensus st)) \<Longrightarrow> finality_rounds E latestRound r st = Some (st', Ret u) \<Longrightarrow>
    list_all has_handler (history (en_dag (xs_consensus st)) (unat r) (unat latestRound + 1)) \<Longrightarrow>
    st' = execute_sequence E (history (en_dag (xs_consensus st)) (unat r) (unat latestRound + 1)) st"
proof (induction "unat latestRound + 1 - unat r" arbitrary: r st rule: less_induct)
  case less
  let ?d = "en_dag (xs_consensus st)"
  show ?case
  proof (cases "r \<le> latestRound")
    case True
    then obtain st1 v where run: "finality_witnesses E (GetWitnesses ?d r) st = (st1, Ret v)"
      "finality_rounds E latestRound (r + 1) st1 = Some (st', Ret u)"
      using less.prems(2) by (subst (asm) finality_rounds.simps) (auto split: prod.splits outcome.splits)
    have "r < 18446744073709551615" using True assms by (rule order.strict_trans1)
    then have next_r: "unat (r + 1) = unat r + 1" by (rule unat_next_word)
    have "[unat r..<unat latestRound + 1] = unat r # [unat (r + 1)..<unat latestRound + 1]"
      using True by (simp add: upt_rec next_r word_le_nat_alt)
    then have h: "history ?d (unat r) (unat latestRound + 1) =
        final_transactions ?d r @ history ?d (unat (r + 1)) (unat latestRound + 1)"
      by (simp add: history_def)
    have handled: "list_all has_handler (final_transactions ?d r)"
      "list_all has_handler (history ?d (unat (r + 1)) (unat latestRound + 1))"
      using less.prems(3) unfolding h by simp_all
    have st1: "st1 = execute_sequence E (final_transactions ?d r) st"
      using witnesses_execute [OF less.prems(1) run(1)] handled(1) by (simp add: final_transactions_def)
    then have d: "en_dag (xs_consensus st1) = ?d" using handled(1) by (simp add: execute_sequence_dag)
    from less.hyps [OF word_loop_progress [OF True assms], of st1] less.prems(1) run(2) handled(2)
    show ?thesis unfolding h execute_sequence_append st1 [symmetric] by (simp only: d)
  next
    case False
    then have "history ?d (unat r) (unat latestRound + 1) = []"
      by (simp add: history_def word_le_nat_alt)
    moreover have "st' = st"
      using False less.prems(2) by (subst (asm) finality_rounds.simps) simp
    ultimately show ?thesis by (simp add: execute_sequence_def)
  qed
qed

section \<open>Properties\<close>

text \<open>C18: a check of finality that decides nothing new executes the whole history again: it runs the
  transactions of every finalized witness, round by round, on the database, and leaves the graph as
  it is, so the next check does the same. Only the nonces stand between a transaction and its second
  execution.\<close>

theorem history_reexecuted:
  assumes "quiescent (en_dag (xs_consensus st))" and "prod_checkFinality E ks st = Some (st', Ret u)"
    and "snd (CurrentRound ks (xs_consensus st)) = r" and "r < 18446744073709551615"
    and "list_all has_handler (history (en_dag (xs_consensus st)) 0 (unat r + 1))"
  shows "st' = execute_sequence E (history (en_dag (xs_consensus st)) 0 (unat r + 1))
      (st\<lparr>xs_consensus := fst (CurrentRound ks (xs_consensus st))\<rparr>) \<and>
    en_dag (xs_consensus st') = en_dag (xs_consensus st)"
proof -
  let ?st = "st\<lparr>xs_consensus := fst (CurrentRound ks (xs_consensus st))\<rparr>"
  have "finality_rounds E r 0 ?st = Some (st', Ret u)"
    using assms(2,3) by (simp add: prod_checkFinality_def case_prod_beta)
  from rounds_execute [OF assms(4) _ this] assms(1,5) show ?thesis
    by (simp add: execute_sequence_dag)
qed

definition paid_tx :: Transaction where
  "paid_tx = sample_tx (Transfer \<lparr>tp_To = ''bob'', tp_Amount = 30, tp_Memo = None\<rparr>) 5"

definition paid_dag :: DAG where
  "paid_dag = (fst (AddEvent NewDAG (Some ((mk_event ''x'' ''v'' [] 0)\<lparr>ev_Transactions := [paid_tx]\<rparr>))))
     \<lparr>dg_famous := (\<lambda>i. i = ''x''), dg_finalized := (\<lambda>i. i = ''x'')\<rparr>"

abbreviation paid_state :: "(bytes \<rightharpoonup> bytes) exec_state" where
  "paid_state \<equiv> (sample_state [sample_account alice 100])\<lparr>xs_consensus := NewConsensusEngine paid_dag\<rparr>"

lemma paid_dag_facts:
  "event_of paid_dag i \<noteq> None \<longleftrightarrow> i = ''x''" "dg_finalized paid_dag i \<longleftrightarrow> i = ''x''"
  "map ev_Id (GetWitnesses paid_dag 0) = [''x'']" "map ev_Transactions (GetWitnesses paid_dag 0) = [[paid_tx]]"
  "LatestRound [] paid_dag = 0"
  by (simp_all add: paid_dag_def AddEvent_def NewDAG_def set_event_def isWitness_def GetWitnesses_def
      LatestRound_def range_values_def slice_at_def append_at_def List.map_filter_def)

lemma paid_quiescent: "quiescent paid_dag"
  using paid_dag_facts(1,2) by (simp add: quiescent_def)

lemma paid_round: "CurrentRound [] (NewConsensusEngine paid_dag) = (NewConsensusEngine paid_dag, 0)"
  by (simp add: CurrentRound_def NewConsensusEngine_def paid_dag_facts)

lemma paid_history: "history paid_dag 0 1 = [paid_tx]"
proof -
  obtain w where "GetWitnesses paid_dag 0 = [w]" "ev_Id w = ''x''" "ev_Transactions w = [paid_tx]"
    using paid_dag_facts(3,4) by (auto simp: Cons_eq_map_conv)
  then show ?thesis by (simp add: history_def final_transactions_def paid_dag_facts(2))
qed

lemma paid_executes: "\<exists>st1 r. Execute sample_env paid_state (Some paid_tx) = (st1, Ret r)"
proof -
  have "\<exists>st' r. Execute sample_env paid_state (Some paid_tx) = (st', Ret (Some r, None)) \<and> er_Success r \<and>
    ledger sample_env st' = ledger_transfer (ledger sample_env paid_state)
      (ast_Address (read_back (sample_account alice 100))) ''bob'' 30 5"
    using transfer_executes [OF sample_env_ok, of paid_state paid_tx "read_back (sample_account alice 100)"
        "\<lparr>tp_To = ''bob'', tp_Amount = 30, tp_Memo = None\<rparr>"]
      sample_admits [of 5 100 "Transfer \<lparr>tp_To = ''bob'', tp_Amount = 30, tp_Memo = None\<rparr>"] sample_keyed
      sample_ascii(1) [of 100]
    by (simp add: paid_tx_def sample_create_bob sample_ascii(2) ascii_def) (simp add: read_back_def sample_account_def)
  then show ?thesis by blast
qed

lemma paid_check: "\<exists>st'. prod_checkFinality sample_env [] paid_state = Some (st', Ret ())"
proof -
  obtain w where w: "GetWitnesses paid_dag 0 = [w]" "ev_Id w = ''x''" "ev_Transactions w = [paid_tx]"
    using paid_dag_facts(3,4) by (auto simp: Cons_eq_map_conv)
  obtain st1 r where x: "Execute sample_env paid_state (Some paid_tx) = (st1, Ret r)" using paid_executes by blast
  have dag: "en_dag (NewConsensusEngine paid_dag) = paid_dag" by (simp add: NewConsensusEngine_def)
  have check: "CheckFinality (NewConsensusEngine paid_dag) ''x'' = (NewConsensusEngine paid_dag, True)"
    using quiescent_CheckFinality [of "NewConsensusEngine paid_dag" "''x''"] paid_quiescent paid_dag_facts(2) by (simp add: dag)
  have ws: "finality_witnesses sample_env [w] paid_state = (st1, Ret ())"
    by (simp add: w check x)
  have last_round: "finality_rounds sample_env 0 1 st1 = Some (st1, Ret ())"
    by (subst finality_rounds.simps) simp
  have "finality_rounds sample_env 0 0 paid_state = Some (st1, Ret ())"
    by (subst finality_rounds.simps) (simp add: dag w(1) ws last_round del: finality_witnesses.simps)
  then show ?thesis by (simp add: prod_checkFinality_def paid_round)
qed

theorem history_reexecuted_witness:
  "\<exists>st'. prod_checkFinality sample_env [] paid_state = Some (st', Ret ()) \<and>
    st' = execute_sequence sample_env [paid_tx] paid_state \<and> en_dag (xs_consensus st') = paid_dag"
proof -
  have dag: "en_dag (NewConsensusEngine paid_dag) = paid_dag" by (simp add: NewConsensusEngine_def)
  have handled: "has_handler paid_tx" by (simp add: paid_tx_def has_handler_def)
  obtain st' where st': "prod_checkFinality sample_env [] paid_state = Some (st', Ret ())" using paid_check by blast
  have "st' = execute_sequence sample_env [paid_tx] paid_state \<and> en_dag (xs_consensus st') = paid_dag"
    using history_reexecuted [of paid_state sample_env "[]" st' "()" 0] paid_quiescent st'
    by (auto simp: dag paid_round paid_history [unfolded One_nat_def] handled)
  with st' show ?thesis by blast
qed

end
