(* ===== verification/Daemon.thy ===== *)
theory Daemon
  imports StateMachine Mempool Network Storage
begin

text \<open>
  The daemon \<open>cmd/ndagd/main.go\<close>: the construction of its node, start, stop and the turns of its
  event loop, and the goroutine of the engine that waits for the end of the context; its commands
  are in \<open>Startup\<close>. Unlike the nodes of \<open>pkg/node\<close> it executes on the
  state machine, when a verdict on fame comes from the finality channel. The state machine holds
  the engine. Printing and signals are left out; LevelDB, libp2p and randomness are parameters.
\<close>

section \<open>The node\<close>

record 'h Daemon =
  dm_config :: Config
  dm_state :: StateMachine
  dm_mempool :: Mempool
  dm_network :: "'h P2PNetwork option"
  dm_apiServer :: bool
  dm_crypto :: "Keypair option"
  dm_cancelled :: bool
  dm_watchers :: nat

text \<open>\<open>dm_watchers\<close> counts the goroutines of \<open>Start\<close> of the engine that wait for the context.\<close>

abbreviation dm_engine :: "'h Daemon \<Rightarrow> Engine" where
  "dm_engine n \<equiv> sm_consensus (dm_state n)"

definition with_engine :: "Engine \<Rightarrow> 'h Daemon \<Rightarrow> 'h Daemon" where
  "with_engine e n = n\<lparr>dm_state := (dm_state n)\<lparr>sm_consensus := e\<rparr>\<rparr>"

text \<open>The key file is not read: a named file stands for a fresh key.\<close>

definition loadValidatorKey :: "crypto_lib \<Rightarrow> bytes option \<Rightarrow> string \<Rightarrow> string + Keypair" where
  "loadValidatorKey L entropy keyFile =
     (if keyFile = [] then Inl ''validator key file not specified''
      else
        (case GenerateKeypair L entropy of
           None \<Rightarrow> Inl ''failed to generate keypair''
         | Some k \<Rightarrow> Inr k))"

definition daemon_key :: "crypto_lib \<Rightarrow> bytes option \<Rightarrow> Config \<Rightarrow> string + Keypair option" where
  "daemon_key L entropy cfg =
     (if IsValidator cfg
      then map_sum (wrap ''failed to load validator key'') Some (loadValidatorKey L entropy (vc_KeyFile (cf_Validator cfg)))
      else Inr None)"

definition daemon_network :: "Config \<Rightarrow> string + 'h P2PNetwork option" where
  "daemon_network cfg =
     (if pc_Enabled (cf_P2P cfg)
      then map_sum (wrap ''failed to initialize P2P network'') Some (NewP2PNetwork cfg)
      else Inr None)"

definition initializeNode :: "crypto_lib \<Rightarrow> bytes option \<Rightarrow> string \<Rightarrow> string + 'd \<Rightarrow> Config \<Rightarrow> string + 'h Daemon" where
  "initializeNode L entropy home opened cfg =
     (case NewStore opened (filepath_join (GetFullDataDir home cfg) (sc_Path (cf_Storage cfg))) of
        Inl e \<Rightarrow> Inl (wrap ''failed to initialize storage'' e)
      | Inr store \<Rightarrow>
          (case daemon_key L entropy cfg of
             Inl e \<Rightarrow> Inl e
           | Inr key \<Rightarrow>
               (case daemon_network cfg of
                  Inl e \<Rightarrow> Inl e
                | Inr net \<Rightarrow>
                    Inr \<lparr>dm_config = cfg, dm_state = NewStateMachine (NewConsensusEngine NewDAG),
                      dm_mempool = NewMempool (cs_MaxGasPerRound (cf_Consensus cfg)), dm_network = net,
                      dm_apiServer = ap_Enabled (cf_API cfg), dm_crypto = key, dm_cancelled = False,
                      dm_watchers = 0\<rparr>)))"

text \<open>
  \<open>Start\<close> of the engine: a goroutine waits for the context and then calls the engine's \<open>Stop\<close>. Of
  the two definitions in the file both do. One turn of the goroutine, \<open>None\<close> while there is
  nothing to do.
\<close>

definition engine_Start :: "'h Daemon \<Rightarrow> 'h Daemon" where
  "engine_Start n = n\<lparr>dm_watchers := dm_watchers n + 1\<rparr>"

definition engine_watch :: "'h Daemon \<Rightarrow> 'h Daemon outcome option" where
  "engine_watch n =
     (if dm_cancelled n \<and> 0 < dm_watchers n
      then Some (bind_outcome (StopEngine (dm_engine n)) (\<lambda>e. Ret ((with_engine e n)\<lparr>dm_watchers := dm_watchers n - 1\<rparr>)))
      else None)"

text \<open>The goroutines of the pool and of the state machine change nothing here: the pool's clean-up is
  among its steps, and \<open>Stop\<close> of the state machine is empty.\<close>

definition daemon_Start :: "'h start_answers \<Rightarrow> 'h Daemon \<Rightarrow> 'h Daemon \<times> string option" where
  "daemon_Start A n0 =
     (let n = engine_Start n0 in
      case dm_network n of
        None \<Rightarrow> (n, None)
      | Some net \<Rightarrow>
          (case net_Start A net of
             (net1, Some e) \<Rightarrow> (n\<lparr>dm_network := Some net1\<rparr>, Some (wrap ''failed to start network'' e))
           | (net1, None) \<Rightarrow> (n\<lparr>dm_network := Some net1\<rparr>, None)))"

text \<open>\<open>Stop\<close> cancels the context and then stops the parts.\<close>

definition stop_parts :: "string option \<Rightarrow> 'h Daemon \<Rightarrow> 'h Daemon outcome" where
  "stop_parts close_host n =
     bind_outcome
       (case dm_network n of
          None \<Rightarrow> Ret n
        | Some net \<Rightarrow> bind_outcome (net_Stop close_host net) (\<lambda>(net1, err). Ret (n\<lparr>dm_network := Some net1\<rparr>)))
       (\<lambda>n2. bind_outcome (StopEngine (dm_engine n2)) (\<lambda>e.
          bind_outcome (Mempool_Stop (dm_mempool n2)) (\<lambda>m. Ret ((with_engine e n2)\<lparr>dm_mempool := m\<rparr>))))"

definition daemon_Stop :: "string option \<Rightarrow> 'h Daemon \<Rightarrow> 'h Daemon outcome" where
  "daemon_Stop close_host n = stop_parts close_host (n\<lparr>dm_cancelled := True\<rparr>)"

section \<open>The event loop\<close>

text \<open>Errors are printed; a write to a nil map panics.\<close>

fun execute_verdict :: "Transaction list \<Rightarrow> StateMachine \<Rightarrow> StateMachine outcome" where
  "execute_verdict [] sm = Ret sm"
| "execute_verdict (tx # txs) sm =
     (case ExecuteTransaction sm tx of
        (sm1, NilMapWrite) \<Rightarrow> Panic ''assignment to entry in nil map''
      | (sm1, _) \<Rightarrow> execute_verdict txs sm1)"

text \<open>Whatever the verdict was.\<close>

definition on_verdict :: "FinalityEvent \<Rightarrow> 'h Daemon \<Rightarrow> 'h Daemon outcome" where
  "on_verdict f n =
     (case GetEvent (en_dag (dm_engine n)) (fe_EventID f) of
        None \<Rightarrow> Ret n
      | Some event \<Rightarrow> bind_outcome (execute_verdict (ev_Transactions event) (dm_state n)) (\<lambda>sm. Ret (n\<lparr>dm_state := sm\<rparr>)))"

definition on_event :: "Event \<Rightarrow> 'h Daemon \<Rightarrow> 'h Daemon" where
  "on_event event n =
     (case AddEvent (en_dag (dm_engine n)) (Some event) of
        (d, Some err) \<Rightarrow> with_engine ((dm_engine n)\<lparr>en_dag := d\<rparr>) n
      | (d, None) \<Rightarrow> with_engine (fst (CheckFinality ((dm_engine n)\<lparr>en_dag := d\<rparr>) (ev_Id event))) n)"

text \<open>
  One turn of the loop when Go's \<open>select\<close> takes the given case: \<open>None\<close> when that case is not ready;
  the flag says whether the loop goes on. The channel expressions of all cases are evaluated
  first, so a nil network panics whatever case is ready. A closed channel gives zero values:
  a nil event or transaction, whose id is read, or an empty verdict.
\<close>

datatype select_case = OnDone | OnEvent | OnFinality | OnTx

definition daemon_turn :: "select_case \<Rightarrow> 'h Daemon \<Rightarrow> ('h Daemon \<times> bool) outcome option" where
  "daemon_turn c n =
     (case dm_network n of
        None \<Rightarrow> Some (Panic ''nil pointer dereference'')
      | Some net \<Rightarrow>
          (case c of
             OnDone \<Rightarrow> if dm_cancelled n then Some (Ret (n, False)) else None
           | OnEvent \<Rightarrow>
               (case nt_eventChan net of
                  [] \<Rightarrow> if nt_closed net then Some (Panic ''nil pointer dereference'') else None
                | e # es \<Rightarrow> Some (Ret (on_event e (n\<lparr>dm_network := Some (net\<lparr>nt_eventChan := es\<rparr>)\<rparr>), True)))
           | OnFinality \<Rightarrow>
               (case en_finality (dm_engine n) of
                  [] \<Rightarrow>
                    if en_finalityClosed (dm_engine n)
                    then Some (bind_outcome (on_verdict \<lparr>fe_EventID = [], fe_Round = 0, fe_Timestamp = 0, fe_Famous = False\<rparr> n)
                      (\<lambda>n. Ret (n, True)))
                    else None
                | f # fs \<Rightarrow>
                    Some (bind_outcome (on_verdict f (with_engine ((dm_engine n)\<lparr>en_finality := fs\<rparr>) n)) (\<lambda>n. Ret (n, True))))
           | OnTx \<Rightarrow>
               (case mp_chan (dm_mempool n) of
                  [] \<Rightarrow> if mp_chanClosed (dm_mempool n) then Some (Panic ''nil pointer dereference'') else None
                | tx # txs \<Rightarrow> Some (Ret (n\<lparr>dm_mempool := (dm_mempool n)\<lparr>mp_chan := txs\<rparr>\<rparr>, True)))))"

section \<open>Steps\<close>

text \<open>The turns, start and stop, and anything other goroutines do to the engine, determining fame
  included, to the pool and to the network.\<close>

inductive daemon_step :: "'h Daemon \<Rightarrow> 'h Daemon \<Rightarrow> bool" where
  turn: "daemon_turn c n = Some (Ret (n', b)) \<Longrightarrow> daemon_step n n'"
| starts: "daemon_step n (fst (daemon_Start A n))"
| stops: "daemon_Stop ch n = Ret n' \<Longrightarrow> daemon_step n n'"
| watch: "engine_watch n = Some (Ret n') \<Longrightarrow> daemon_step n n'"
| engine: "engine_step (dm_engine n) e \<Longrightarrow> daemon_step n (with_engine e n)"
| pool: "mempool_step text_len (dm_mempool n) m \<Longrightarrow> daemon_step n (n\<lparr>dm_mempool := m\<rparr>)"
| network: "dm_network n = Some net \<Longrightarrow> net_step L ue ut net net' \<Longrightarrow> daemon_step n (n\<lparr>dm_network := Some net'\<rparr>)"

lemma no_accounts_refuses:
  "sm_accounts sm = Map.empty \<Longrightarrow> \<exists>err. ExecuteTransaction sm tx = (sm, Rejected (VerificationFailed err))"
  by (simp add: ExecuteTransaction_def verifyTransaction_def)

lemma no_accounts_verdict: "sm_accounts sm = Map.empty \<Longrightarrow> execute_verdict txs sm = Ret sm"
proof (induction txs)
  case (Cons tx txs)
  from no_accounts_refuses [OF Cons.prems, of tx] obtain err
    where "ExecuteTransaction sm tx = (sm, Rejected (VerificationFailed err))" by blast
  with Cons show ?case by simp
qed simp

lemma with_engine_simps [simp]:
  "dm_network (with_engine e n) = dm_network n" "dm_engine (with_engine e n) = e"
  "sm_accounts (dm_state (with_engine e n)) = sm_accounts (dm_state n)"
  by (simp_all add: with_engine_def)

lemma no_accounts_on_verdict: "sm_accounts (dm_state n) = Map.empty \<Longrightarrow> on_verdict f n = Ret n"
  by (simp add: on_verdict_def no_accounts_verdict split: option.split)

lemma no_accounts_on_event: "sm_accounts (dm_state (on_event e n)) = sm_accounts (dm_state n)"
  by (simp add: on_event_def split: prod.split option.split)

lemma no_accounts_turn:
  assumes "daemon_turn c n = Some (Ret (n', b))" and "sm_accounts (dm_state n) = Map.empty"
  shows "sm_accounts (dm_state n') = Map.empty"
  using assms
  by (cases c) (auto simp: daemon_turn_def no_accounts_on_event no_accounts_on_verdict
      split: option.splits list.splits if_splits)

lemma no_accounts_step: "daemon_step n n' \<Longrightarrow> sm_accounts (dm_state n) = Map.empty \<Longrightarrow> sm_accounts (dm_state n') = Map.empty"
proof (induction rule: daemon_step.induct)
  case (turn c n n' b)
  then show ?case by (rule no_accounts_turn)
next
  case (starts n A)
  then show ?case by (simp add: daemon_Start_def engine_Start_def Let_def split: option.split prod.split)
next
  case (stops ch n n')
  then show ?case
    by (auto simp: daemon_Stop_def stop_parts_def bind_outcome_Ret split: option.splits)
next
  case (watch n n')
  then show ?case by (auto simp: engine_watch_def bind_outcome_Ret split: if_splits)
qed simp_all

interpretation no_accounts: keeping_steps daemon_step "\<lambda>n. sm_accounts (dm_state n) = Map.empty"
  by unfold_locales (rule no_accounts_step)

section \<open>Properties\<close>

text \<open>The daemon executes nothing: its state machine starts without accounts and never gets one,
  so whatever events come, and even if fame is determined and verdicts reach the loop, the
  accounts stay empty, every transaction is refused and no verdict makes the loop panic.\<close>

theorem daemon_executes_nothing:
  assumes "initializeNode L entropy home opened cfg = Inr n0" and "daemon_step\<^sup>*\<^sup>* n0 n"
  shows "sm_accounts (dm_state n) = Map.empty \<and>
    (\<exists>err. ExecuteTransaction (dm_state n) tx = (dm_state n, Rejected (VerificationFailed err))) \<and>
    on_verdict f n = Ret n"
proof -
  have "sm_accounts (dm_state n0) = Map.empty"
    using assms(1) by (auto simp: initializeNode_def NewStateMachine_def split: sum.splits)
  with assms(2) have "sm_accounts (dm_state n) = Map.empty" by (rule no_accounts.run)
  then show ?thesis using no_accounts_refuses no_accounts_on_verdict by blast
qed

theorem daemon_executes_nothing_witness:
  "\<exists>n0 :: nat Daemon. initializeNode sample_lib None ''/home/n'' (Inr ()) DefaultConfig = Inr n0 \<and>
    sm_accounts (dm_state (with_engine (fst (CheckFinality (dm_engine n0) ''e'')) n0)) = Map.empty \<and>
    on_verdict \<lparr>fe_EventID = ''e'', fe_Round = 0, fe_Timestamp = 7, fe_Famous = True\<rparr> (with_engine (fst (CheckFinality (dm_engine n0) ''e'')) n0) =
      Ret (with_engine (fst (CheckFinality (dm_engine n0) ''e'')) n0)"
proof -
  obtain n0 :: "nat Daemon" where init: "initializeNode sample_lib None ''/home/n'' (Inr ()) DefaultConfig = Inr n0"
    by (auto simp: initializeNode_def NewStore_def NewLevelDBEngine_def daemon_key_def IsValidator_def
        daemon_network_def NewP2PNetwork_def DefaultConfig_def split: sum.split)
  have "daemon_step\<^sup>*\<^sup>* n0 (with_engine (fst (CheckFinality (dm_engine n0) ''e'')) n0)"
    by (intro r_into_rtranclp daemon_step.engine engine_step.intros)
  from daemon_executes_nothing [OF init this] init show ?thesis by blast
qed

text \<open>Without the peer-to-peer network, which a valid configuration may switch off, the first turn
  of the event loop panics in its goroutine, which ends the process.\<close>

theorem daemon_without_p2p_panics:
  assumes "initializeNode L entropy home opened cfg = Inr n" and "\<not> pc_Enabled (cf_P2P cfg)"
  shows "daemon_Start A n = (engine_Start n, None) \<and> daemon_turn c (engine_Start n) = Some (Panic ''nil pointer dereference'')"
  using assms by (auto simp: initializeNode_def daemon_network_def daemon_Start_def engine_Start_def
      daemon_turn_def split: sum.splits)

text \<open>After \<open>Stop\<close> the loop may panic before it sees the cancelled context: the pool's channel is
  closed and ready as well.\<close>

theorem stopped_daemon_may_panic:
  assumes "daemon_Stop ch n = Ret n'" and "dm_network n = Some net" and "mp_chan (dm_mempool n) = []"
  shows "daemon_turn OnTx n' = Some (Panic ''nil pointer dereference'') \<and> daemon_turn OnDone n' = Some (Ret (n', False))"
  using assms
  by (auto simp: daemon_Stop_def stop_parts_def bind_outcome_Ret daemon_turn_def Mempool_Stop_def Mempool_Clear_def with_engine_def
      split: if_splits)

section \<open>Shutdown\<close>

text \<open>
  The process from the return of \<open>Start\<close> on. \<open>Stop\<close> is two steps, with the context cancelled in
  between, so the engine's goroutine can run before, between and after the parts are stopped; so
  can the event loop and whatever works on the pool and the network. When \<open>Stop\<close> has returned the process may exit, whatever still runs.
\<close>

datatype 'h process = Serving "'h Daemon" | Stopping "'h Daemon" | Stopped "'h Daemon" | Crashed string | Exited

inductive process_step :: "string option \<Rightarrow> 'h process \<Rightarrow> 'h process \<Rightarrow> bool" for ch where
  cancel: "process_step ch (Serving n) (Stopping (n\<lparr>dm_cancelled := True\<rparr>))"
| stop: "stop_parts ch n = Ret n' \<Longrightarrow> process_step ch (Stopping n) (Stopped n')"
| stop_panic: "stop_parts ch n = Panic m \<Longrightarrow> process_step ch (Stopping n) (Crashed m)"
| exit: "process_step ch (Stopped n) Exited"
| watch: "p \<in> {Serving, Stopping, Stopped} \<Longrightarrow> engine_watch n = Some (Ret n') \<Longrightarrow> process_step ch (p n) (p n')"
| watch_panic: "p \<in> {Serving, Stopping, Stopped} \<Longrightarrow> engine_watch n = Some (Panic m) \<Longrightarrow> process_step ch (p n) (Crashed m)"
| turn: "p \<in> {Serving, Stopping, Stopped} \<Longrightarrow> daemon_turn c n = Some (Ret (n', b)) \<Longrightarrow> process_step ch (p n) (p n')"
| turn_panic: "p \<in> {Serving, Stopping, Stopped} \<Longrightarrow> daemon_turn c n = Some (Panic m) \<Longrightarrow> process_step ch (p n) (Crashed m)"
| pool: "p \<in> {Serving, Stopping, Stopped} \<Longrightarrow> process_step ch (p n) (p (n\<lparr>dm_mempool := m\<rparr>))"
| network: "p \<in> {Serving, Stopping, Stopped} \<Longrightarrow> process_step ch (p n) (p (n\<lparr>dm_network := net\<rparr>))"

text \<open>Whoever closes the channel of verdicts first, the other is still to come.\<close>

fun doomed :: "'h process \<Rightarrow> bool" where
  "doomed (Serving n) \<longleftrightarrow> sm_accounts (dm_state n) = Map.empty \<and> \<not> dm_cancelled n \<and> 0 < dm_watchers n"
| "doomed (Stopping n) \<longleftrightarrow> sm_accounts (dm_state n) = Map.empty \<and> dm_cancelled n \<and>
     (en_finalityClosed (dm_engine n) \<or> 0 < dm_watchers n)"
| "doomed (Stopped n) \<longleftrightarrow> sm_accounts (dm_state n) = Map.empty \<and> dm_cancelled n \<and>
     en_finalityClosed (dm_engine n) \<and> 0 < dm_watchers n"
| "doomed _ \<longleftrightarrow> True"

lemma turn_frame:
  assumes "daemon_turn c n = Some (Ret (n', b))" and "sm_accounts (dm_state n) = Map.empty"
  shows "dm_cancelled n' = dm_cancelled n \<and> dm_watchers n' = dm_watchers n \<and>
    en_finalityClosed (dm_engine n') = en_finalityClosed (dm_engine n)"
proof -
  have "en_finalityClosed (fst (CheckFinality e i)) = en_finalityClosed e" for e i
    using CheckFinality_cases [of e i] by auto
  then have event: "dm_cancelled (on_event ev m) = dm_cancelled m \<and> dm_watchers (on_event ev m) = dm_watchers m \<and>
      en_finalityClosed (dm_engine (on_event ev m)) = en_finalityClosed (dm_engine m)" for ev and m :: "'a Daemon"
    by (simp add: on_event_def with_engine_def split: prod.split option.split)
  show ?thesis
    using assms event
    by (cases c) (auto simp: daemon_turn_def no_accounts_on_verdict with_engine_def split: option.splits list.splits if_splits)
qed

lemma stop_parts_frame:
  assumes "stop_parts ch n = Ret n'"
  shows "\<not> en_finalityClosed (dm_engine n) \<and> en_finalityClosed (dm_engine n') \<and> dm_cancelled n' = dm_cancelled n \<and>
    dm_watchers n' = dm_watchers n \<and> sm_accounts (dm_state n') = sm_accounts (dm_state n)"
  using assms
  by (auto simp: stop_parts_def bind_outcome_Ret StopEngine_def with_engine_def split: option.splits if_splits)

lemma doomed_step: "process_step ch s s' \<Longrightarrow> doomed s \<Longrightarrow> doomed s'"
proof (induction rule: process_step.induct)
  case (stop n n')
  then show ?case using stop_parts_frame [OF stop(1)] by auto
next
  case (watch p n n')
  then show ?case by (auto simp: engine_watch_def bind_outcome_Ret StopEngine_def with_engine_def split: if_splits)
next
  case (turn p c n n' b)
  then show ?case using turn_frame [OF turn(2)] no_accounts_turn [OF turn(2)] by auto
qed auto

interpretation doomed_processes: keeping_steps "process_step ch" doomed for ch
  by unfold_locales (rule doomed_step)

lemma doomed_watch:
  assumes "doomed (Stopped n)"
  shows "\<exists>m. process_step ch (Stopped n) (Crashed m)"
proof -
  have "engine_watch n = Some (Panic ''close of closed channel'')"
    using assms by (simp add: engine_watch_def StopEngine_def)
  then show ?thesis using process_step.watch_panic [of Stopped n _ ch] by blast
qed

lemma doomed_stopping: "doomed (Stopping n) \<Longrightarrow> \<exists>m. (process_step ch)\<^sup>*\<^sup>* (Stopping n) (Crashed m)"
proof (cases "stop_parts ch n")
  case (Ret n')
  assume d: "doomed (Stopping n)"
  have step: "process_step ch (Stopping n) (Stopped n')" using Ret by (rule process_step.stop)
  obtain m where "process_step ch (Stopped n') (Crashed m)" using doomed_watch [OF doomed_step [OF step d]] by blast
  with step show ?thesis by (meson converse_rtranclp_into_rtranclp r_into_rtranclp)
qed (blast intro: process_step.stop_panic)

text \<open>C39: no shutdown of the daemon is clean. Cancelling the context makes the engine's goroutine,
  which \<open>Start\<close> has started, close the channel of verdicts that \<open>Stop\<close> closes too. However goroutine,
  event loop, pool, network and \<open>Stop\<close> interleave, \<open>Stop\<close> never returns with the goroutine finished: either one of
  them has panicked, or the goroutine is still to come and will. In every state from start to stop
  a panic is thus ahead on some interleaving, and only the exit of the process can come before it.\<close>

theorem shutdown_panics:
  assumes "initializeNode L entropy home opened cfg = Inr n0" and "daemon_Start A n0 = (n1, None)"
    and "(process_step ch)\<^sup>*\<^sup>* (Serving n1) s"
  shows "(\<forall>n. s = Stopped n \<longrightarrow> 0 < dm_watchers n \<and> engine_watch n = Some (Panic ''close of closed channel'')) \<and>
    (s \<noteq> Exited \<longrightarrow> (\<exists>m. (process_step ch)\<^sup>*\<^sup>* s (Crashed m)))"
proof -
  have "doomed (Serving n1)"
    using assms(1,2) by (auto simp: initializeNode_def NewStateMachine_def daemon_Start_def engine_Start_def Let_def
        split: sum.splits option.splits prod.splits)
  with assms(3) have d: "doomed s" by (rule doomed_processes.run)
  then have "\<forall>n. s = Stopped n \<longrightarrow> 0 < dm_watchers n \<and> engine_watch n = Some (Panic ''close of closed channel'')"
    by (auto simp: engine_watch_def StopEngine_def)
  moreover have "\<exists>m. (process_step ch)\<^sup>*\<^sup>* s (Crashed m)" if "s \<noteq> Exited"
  proof (cases s)
    case (Serving n)
    then have step: "process_step ch s (Stopping (n\<lparr>dm_cancelled := True\<rparr>))" by (simp add: process_step.cancel)
    from doomed_stopping [OF doomed_step [OF step d]] step show ?thesis by (meson converse_rtranclp_into_rtranclp)
  next
    case (Stopping n)
    then show ?thesis using d doomed_stopping by blast
  next
    case (Stopped n)
    then show ?thesis using d doomed_watch [of n ch] by blast
  qed (use that in auto)
  ultimately show ?thesis by blast
qed

text \<open>A daemon without the network, stopped at once: the goroutine is left with the closed channel.\<close>

definition offline_config :: Config where
  "offline_config = DefaultConfig\<lparr>cf_P2P := (cf_P2P DefaultConfig)\<lparr>pc_Enabled := False\<rparr>\<rparr>"

theorem shutdown_panics_witness:
  "\<exists>(n0 :: unit Daemon) n m. initializeNode sample_lib None ''/home/n'' (Inr ()) offline_config = Inr n0 \<and>
    daemon_Stop None (fst (daemon_Start sample_answers n0)) = Ret n \<and> 0 < dm_watchers n \<and> engine_watch n = Some (Panic m)"
proof -
  obtain n0 :: "unit Daemon" where init: "initializeNode sample_lib None ''/home/n'' (Inr ()) offline_config = Inr n0"
    and n0: "dm_network n0 = None" "dm_engine n0 = NewConsensusEngine NewDAG" "dm_mempool n0 = NewMempool 10000000"
    by (simp add: initializeNode_def NewStore_def NewLevelDBEngine_def daemon_key_def IsValidator_def offline_config_def
        daemon_network_def DefaultConfig_def NewStateMachine_def)
  let ?n1 = "engine_Start n0"
  have start: "daemon_Start sample_answers n0 = (?n1, None)" using n0(1) by (simp add: daemon_Start_def engine_Start_def Let_def)
  obtain n where stop: "daemon_Stop None ?n1 = Ret n"
    using n0 by (simp add: daemon_Stop_def stop_parts_def engine_Start_def NewConsensusEngine_def StopEngine_def
        Mempool_Stop_def NewMempool_def Mempool_Clear_def)
  then have "process_step None (Stopping (?n1\<lparr>dm_cancelled := True\<rparr>)) (Stopped n)"
    unfolding daemon_Stop_def by (rule process_step.stop)
  then have "(process_step None)\<^sup>*\<^sup>* (Stopping (?n1\<lparr>dm_cancelled := True\<rparr>)) (Stopped n)"
    by (rule r_into_rtranclp)
  then have "(process_step None)\<^sup>*\<^sup>* (Serving ?n1) (Stopped n)"
    by (rule converse_rtranclp_into_rtranclp [where r = "process_step None", OF process_step.cancel])
  from shutdown_panics [OF init start this] init start stop show ?thesis by auto
qed

end
