(* ===== verification/Startup.thy ===== *)
theory Startup
  imports Config
begin

text \<open>
  What the programs do before a node runs: the commands \<open>init\<close> and \<open>validate\<close> of the two daemons
  \<open>cmd/ndagd/main.go\<close> and \<open>cmd/ndagd/ndagd.go\<close>, and the loading of the configuration and making of
  the data directories in \<open>main.go\<close>, \<open>pkg/node/node.go\<close> and \<open>ndagd.go\<close>. Flags and printing are left
  out. TOML and the answers of the file system are parameters: \<open>mkdir d\<close> is the error of making
  the directory \<open>d\<close>, \<open>mkdir_config\<close> and \<open>write\<close> those of saving the configuration.
\<close>

section \<open>Commands of the daemon\<close>

definition network_type :: "string \<Rightarrow> string" where
  "network_type network =
     (if network = ''mainnet'' then NetworkTypeMainnet
      else if network = ''testnet'' then NetworkTypeTestnet
      else NetworkTypeDevnet)"

text \<open>The directories made and the bytes of the configuration file, or the error.\<close>

definition runInit :: "(Config \<Rightarrow> string + bytes) \<Rightarrow> (string \<Rightarrow> string option) \<Rightarrow> string option \<Rightarrow> string option \<Rightarrow>
    string \<Rightarrow> string \<Rightarrow> string \<Rightarrow> string + string list \<times> bytes" where
  "runInit marshal mkdir mkdir_config write home network dataDir =
     (let cfg = GenerateNetworkConfig (network_type network);
          cfg = (if dataDir \<noteq> [] then cfg\<lparr>cf_Network := (cf_Network cfg)\<lparr>nc_DataDir := dataDir\<rparr>\<rparr> else cfg);
          dataPath = GetFullDataDir home cfg;
          storage = filepath_join dataPath (sc_Path (cf_Storage cfg));
          logs = filepath_join dataPath ''logs''
      in case mkdir dataPath of
           Some e \<Rightarrow> Inl (wrap ''failed to create data directory'' e)
         | None \<Rightarrow>
             (case mkdir storage of
                Some e \<Rightarrow> Inl (wrap ''failed to create storage directory'' e)
              | None \<Rightarrow>
                  (case mkdir logs of
                     Some e \<Rightarrow> Inl (wrap ''failed to create logs directory'' e)
                   | None \<Rightarrow>
                       (case SaveConfig marshal mkdir_config write cfg of
                          Inl e \<Rightarrow> Inl (wrap ''failed to save config'' e)
                        | Inr data \<Rightarrow> Inr ([dataPath, storage, logs], data)))))"

definition load_valid :: "(bytes \<Rightarrow> Config \<Rightarrow> string + Config) \<Rightarrow> string + bytes \<Rightarrow> string + Config" where
  "load_valid unmarshal file =
     (case LoadConfig unmarshal file of
        Inl e \<Rightarrow> Inl (wrap ''failed to load config'' e)
      | Inr cfg \<Rightarrow>
          (case Config_Validate cfg of
             Some e \<Rightarrow> Inl (wrap ''invalid configuration'' e)
           | None \<Rightarrow> Inr cfg))"

text \<open>\<open>files\<close> is the file system.\<close>

definition runValidate :: "(bytes \<Rightarrow> Config \<Rightarrow> string + Config) \<Rightarrow> (string \<Rightarrow> string + bytes) \<Rightarrow> string list \<Rightarrow>
    string + Config" where
  "runValidate unmarshal files args =
     (case args of
        [] \<Rightarrow> Inl ''configuration file path required''
      | path # _ \<Rightarrow> load_valid unmarshal (files path))"

section \<open>Data directories\<close>

definition data_dirs :: "string \<Rightarrow> Config \<Rightarrow> string list" where
  "data_dirs home cfg =
     (let dataDir = GetFullDataDir home cfg in
      [dataDir, filepath_join dataDir (sc_Path (cf_Storage cfg)), filepath_join dataDir ''logs'',
       filepath_join dataDir ''keystore''])"

text \<open>The directories made before the first error, and the error with its message.\<close>

fun make_dirs :: "(string \<Rightarrow> string) \<Rightarrow> (string \<Rightarrow> string option) \<Rightarrow> string list \<Rightarrow> string list \<times> string option" where
  "make_dirs message mkdir [] = ([], None)"
| "make_dirs message mkdir (dir # dirs) =
     (case mkdir dir of
        Some e \<Rightarrow> ([], Some (wrap (message dir) e))
      | None \<Rightarrow> apfst (Cons dir) (make_dirs message mkdir dirs))"

definition main_createDataDirectories :: "(string \<Rightarrow> string option) \<Rightarrow> string \<Rightarrow> Config \<Rightarrow> string list \<times> string option" where
  "main_createDataDirectories mkdir home cfg =
     make_dirs (\<lambda>dir. ''failed to create directory '' @ dir) mkdir (data_dirs home cfg)"

definition node_createDataDirectories :: "(string \<Rightarrow> string option) \<Rightarrow> string \<Rightarrow> Config \<Rightarrow> string list \<times> string option" where
  "node_createDataDirectories mkdir home cfg =
     make_dirs (\<lambda>dir. ''failed to create directory: '' @ dir) mkdir (data_dirs home cfg)"

definition ndagd_createDataDirectories :: "(string \<Rightarrow> string option) \<Rightarrow> string \<Rightarrow> Config \<Rightarrow> string list \<times> string option" where
  "ndagd_createDataDirectories mkdir home cfg =
     make_dirs (\<lambda>dir. ''failed to create '' @ dir) mkdir (data_dirs home cfg)"

section \<open>Commands of the other daemon\<close>

definition ndagd_runInit :: "(Config \<Rightarrow> string + bytes) \<Rightarrow> (string \<Rightarrow> string option) \<Rightarrow> string option \<Rightarrow> string option \<Rightarrow>
    string \<Rightarrow> string \<Rightarrow> string + string list \<times> bytes" where
  "ndagd_runInit marshal mkdir mkdir_config write home network =
     (let cfg = GenerateNetworkConfig (network_type network) in
      case ndagd_createDataDirectories mkdir home cfg of
        (dirs, Some e) \<Rightarrow> Inl (wrap ''failed to create data directories'' e)
      | (dirs, None) \<Rightarrow>
          (case SaveConfig marshal mkdir_config write cfg of
             Inl e \<Rightarrow> Inl (wrap ''failed to save configuration'' e)
           | Inr data \<Rightarrow> Inr (dirs, data)))"

definition ndagd_runValidate :: "(bytes \<Rightarrow> Config \<Rightarrow> string + Config) \<Rightarrow> (string \<Rightarrow> string + bytes) \<Rightarrow> string list \<Rightarrow>
    string + Config" where
  "ndagd_runValidate unmarshal files args =
     (case args of
        [] \<Rightarrow> Inl ''configuration file path required''
      | path # _ \<Rightarrow>
          (case LoadConfig unmarshal (files path) of
             Inl e \<Rightarrow> Inl (wrap ''failed to load config'' e)
           | Inr cfg \<Rightarrow>
               (case Config_Validate cfg of
                  Some e \<Rightarrow> Inl (wrap ''validation failed'' e)
                | None \<Rightarrow> Inr cfg)))"

text \<open>The configuration a start goes on with, and the directories it made; the node is made after.\<close>

definition ndagd_prepare :: "(bytes \<Rightarrow> Config \<Rightarrow> string + Config) \<Rightarrow> (string \<Rightarrow> string option) \<Rightarrow> string \<Rightarrow> string + bytes \<Rightarrow>
    string + Config \<times> string list" where
  "ndagd_prepare unmarshal mkdir home file =
     (case load_valid unmarshal file of
        Inl e \<Rightarrow> Inl e
      | Inr cfg \<Rightarrow>
          (case ndagd_createDataDirectories mkdir home cfg of
             (dirs, Some e) \<Rightarrow> Inl (wrap ''failed to create data directories'' e)
           | (dirs, None) \<Rightarrow> Inr (cfg, dirs)))"

section \<open>Loading or creating the configuration\<close>

text \<open>
  The file \<open>config.toml\<close>: whether \<open>os.Stat\<close> finds it missing, and what reading it answers given
  the bytes just written.
\<close>

record config_file =
  cg_missing :: bool
  cg_mkdir :: "string option"
  cg_write :: "string option"
  cg_read :: "bytes option \<Rightarrow> string + bytes"

text \<open>In \<open>main.go\<close> a new configuration is not read back, in \<open>node.go\<close> it is.\<close>

definition main_loadConfig :: "(Config \<Rightarrow> string + bytes) \<Rightarrow> (bytes \<Rightarrow> Config \<Rightarrow> string + Config) \<Rightarrow> config_file \<Rightarrow>
    string + Config" where
  "main_loadConfig marshal unmarshal F =
     (if cg_missing F then
        let cfg = GenerateNetworkConfig NetworkTypeDevnet in
        case SaveConfig marshal (cg_mkdir F) (cg_write F) cfg of
          Inl e \<Rightarrow> Inl (wrap ''failed to save config'' e)
        | Inr data \<Rightarrow> Inr cfg
      else LoadConfig unmarshal (cg_read F None))"

definition node_loadConfig :: "(Config \<Rightarrow> string + bytes) \<Rightarrow> (bytes \<Rightarrow> Config \<Rightarrow> string + Config) \<Rightarrow> config_file \<Rightarrow>
    string + Config" where
  "node_loadConfig marshal unmarshal F =
     (if cg_missing F then
        (case SaveConfig marshal (cg_mkdir F) (cg_write F) (GenerateNetworkConfig NetworkTypeDevnet) of
           Inl e \<Rightarrow> Inl e
         | Inr data \<Rightarrow> LoadConfig unmarshal (cg_read F (Some data)))
      else LoadConfig unmarshal (cg_read F None))"

section \<open>Properties\<close>

text \<open>TOML reads back over the defaults what it wrote.\<close>

definition toml_reads_back :: "(Config \<Rightarrow> string + bytes) \<Rightarrow> (bytes \<Rightarrow> Config \<Rightarrow> string + Config) \<Rightarrow> bool" where
  "toml_reads_back marshal unmarshal \<longleftrightarrow>
     (\<forall>cfg data. marshal cfg = Inr data \<longrightarrow> unmarshal data DefaultConfig = Inr cfg)"

lemma SaveConfig_Inr: "SaveConfig marshal mkdir write cfg = Inr data \<Longrightarrow> marshal cfg = Inr data"
  by (simp add: SaveConfig_def split: sum.splits option.splits)

lemma saved_loads:
  assumes "toml_reads_back marshal unmarshal" and "SaveConfig marshal mkdir write cfg = Inr data"
  shows "LoadConfig unmarshal (Inr data) = Inr cfg"
  using assms SaveConfig_Inr [OF assms(2)] by (simp add: toml_reads_back_def LoadConfig_def)

lemma network_type_known: "network_type n \<in> {NetworkTypeMainnet, NetworkTypeTestnet, NetworkTypeDevnet}"
  by (simp add: network_type_def)

lemmas generated = generated_configs [OF network_type_known]

lemma data_dir_frame [simp]:
  "Config_Validate (c\<lparr>cf_Network := (cf_Network c)\<lparr>nc_DataDir := d\<rparr>\<rparr>) = Config_Validate c"
  "GetNetworkType (c\<lparr>cf_Network := (cf_Network c)\<lparr>nc_DataDir := d\<rparr>\<rparr>) = GetNetworkType c"
  by (simp_all add: Config_Validate_def GetNetworkType_def)

lemma load_valid_saved:
  assumes "toml_reads_back marshal unmarshal" and "SaveConfig marshal mkdir write cfg = Inr data"
    and "Config_Validate cfg = None"
  shows "load_valid unmarshal (Inr data) = Inr cfg"
  using saved_loads [OF assms(1,2)] assms(3) by (simp add: load_valid_def)

lemma make_dirs_all: "snd (make_dirs message mkdir dirs) = None \<longleftrightarrow> (\<forall>d \<in> set dirs. mkdir d = None)"
  by (induction dirs) (auto split: option.split)

lemma make_dirs_made: "snd (make_dirs message mkdir dirs) = None \<Longrightarrow> fst (make_dirs message mkdir dirs) = dirs"
  by (induction dirs) (auto split: option.splits)

text \<open>The three programs make the same directories or fail alike.\<close>

lemma createDataDirectories_agree:
  "fst (main_createDataDirectories mkdir home cfg) = fst (node_createDataDirectories mkdir home cfg) \<and>
   fst (main_createDataDirectories mkdir home cfg) = fst (ndagd_createDataDirectories mkdir home cfg)"
proof -
  have "fst (make_dirs m1 mkdir dirs) = fst (make_dirs m2 mkdir dirs)" for m1 m2 dirs
    by (induction dirs) (simp_all split: option.split)
  then show ?thesis
    by (simp add: main_createDataDirectories_def node_createDataDirectories_def ndagd_createDataDirectories_def)
qed

text \<open>What \<open>init\<close> writes \<open>validate\<close> accepts: it loads the configuration of the network asked
  for, with the data directory given, and the directories made are those of that configuration.\<close>

theorem init_then_validate:
  assumes "toml_reads_back marshal unmarshal"
    and "runInit marshal mkdir mkdir_config write home network dataDir = Inr (dirs, data)"
    and "files path = Inr data"
  shows "\<exists>cfg. runValidate unmarshal files (path # args) = Inr cfg \<and> GetNetworkType cfg = network_type network \<and>
    (dataDir \<noteq> [] \<longrightarrow> nc_DataDir (cf_Network cfg) = dataDir) \<and> dirs = take 3 (data_dirs home cfg) \<and>
    (\<forall>d \<in> set dirs. mkdir d = None)"
proof -
  let ?c = "GenerateNetworkConfig (network_type network)"
  define cfg where "cfg = (if dataDir \<noteq> [] then ?c\<lparr>cf_Network := (cf_Network ?c)\<lparr>nc_DataDir := dataDir\<rparr>\<rparr> else ?c)"
  have keeps: "Config_Validate cfg = None" "GetNetworkType cfg = network_type network"
    "dataDir \<noteq> [] \<longrightarrow> nc_DataDir (cf_Network cfg) = dataDir"
    using generated [of network] by (simp_all add: cfg_def)
  have "SaveConfig marshal mkdir_config write cfg = Inr data" "dirs = take 3 (data_dirs home cfg)"
    "\<forall>d \<in> set dirs. mkdir d = None"
    using assms(2) unfolding runInit_def Let_def cfg_def [symmetric]
    by (auto simp: data_dirs_def Let_def split: option.splits sum.splits)
  moreover from load_valid_saved [OF assms(1) this(1) keeps(1)]
  have "runValidate unmarshal files (path # args) = Inr cfg" using assms(3) by (simp add: runValidate_def)
  ultimately show ?thesis using keeps by blast
qed

theorem init_then_validate_witness:
  "\<exists>marshal unmarshal dirs cfg. runInit marshal (\<lambda>_. None) None None ''/home/u'' ''testnet'' ''/data'' = Inr (dirs, [7]) \<and>
    runValidate unmarshal (\<lambda>_. Inr [7]) [''config.toml''] = Inr cfg \<and> GetNetworkType cfg = NetworkTypeTestnet \<and>
    nc_DataDir (cf_Network cfg) = ''/data''"
proof -
  let ?g = "GenerateNetworkConfig NetworkTypeTestnet"
  let ?c = "?g\<lparr>cf_Network := (cf_Network ?g)\<lparr>nc_DataDir := ''/data''\<rparr>\<rparr>"
  let ?m = "\<lambda>c. if c = ?c then Inr [7] else Inl ''unknown''" and ?u = "\<lambda>_ _. Inr ?c"
  have t: "network_type ''testnet'' = NetworkTypeTestnet" by (simp add: network_type_def)
  then obtain dirs where i: "runInit ?m (\<lambda>_. None) None None ''/home/u'' ''testnet'' ''/data'' = Inr (dirs, [7])"
    by (simp add: runInit_def Let_def SaveConfig_def)
  have "toml_reads_back ?m ?u" by (simp add: toml_reads_back_def)
  from init_then_validate [OF this i, of "\<lambda>_. Inr [7]" "''config.toml''" "[]"] obtain cfg where
    "runValidate ?u (\<lambda>_. Inr [7]) [''config.toml''] = Inr cfg" "GetNetworkType cfg = NetworkTypeTestnet"
    "nc_DataDir (cf_Network cfg) = ''/data''"
    unfolding t by auto
  with i show ?thesis by blast
qed

text \<open>The other daemon: a start after \<open>init\<close> finds a valid configuration and its directories.\<close>

theorem ndagd_init_prepares:
  assumes "toml_reads_back marshal unmarshal"
    and "ndagd_runInit marshal mkdir mkdir_config write home network = Inr (dirs, data)"
  shows "\<exists>cfg. ndagd_prepare unmarshal mkdir home (Inr data) = Inr (cfg, dirs) \<and>
    GetNetworkType cfg = network_type network \<and> dirs = data_dirs home cfg"
proof -
  let ?c = "GenerateNetworkConfig (network_type network)"
  have made: "ndagd_createDataDirectories mkdir home ?c = (dirs, None)"
    and saved: "SaveConfig marshal mkdir_config write ?c = Inr data"
    using assms(2) by (auto simp: ndagd_runInit_def Let_def split: prod.splits option.splits sum.splits)
  have "dirs = data_dirs home ?c"
    using made make_dirs_made by (metis ndagd_createDataDirectories_def fst_conv snd_conv)
  with load_valid_saved [OF assms(1) saved] made generated [of network]
  show ?thesis by (simp add: ndagd_prepare_def)
qed

text \<open>The two ways of loading the configuration agree when the file holds what was written.\<close>

theorem loadConfig_agree:
  assumes "toml_reads_back marshal unmarshal" and "\<And>data. cg_read F (Some data) = Inr data"
  shows "main_loadConfig marshal unmarshal F = Inr cfg \<longleftrightarrow> node_loadConfig marshal unmarshal F = Inr cfg"
  using saved_loads [OF assms(1)] assms(2)
  by (auto simp: main_loadConfig_def node_loadConfig_def Let_def split: sum.split)

end
