(* ===== verification/Programs.thy ===== *)
theory Programs
  imports Standalone Daemon Startup
begin

text \<open>
  The three programs as wholes, from reading the configuration to the end of the process: \<open>main\<close> of
  \<open>main.go\<close>, and \<open>runStart\<close> of \<open>cmd/ndagd/main.go\<close> and \<open>cmd/ndagd/ndagd.go\<close>. What happens between
  start and the signal is an argument, \<open>life\<close>: a panic in any goroutine ends the process.
\<close>

section \<open>The programs\<close>

datatype 'n program_end = ExitError string | ExitPanic string | ExitOk 'n

definition main_program :: "(Config \<Rightarrow> string + bytes) \<Rightarrow> (bytes \<Rightarrow> Config \<Rightarrow> string + Config) \<Rightarrow> config_file \<Rightarrow>
    (string \<Rightarrow> string option) \<Rightarrow> string \<Rightarrow> string + 'd \<Rightarrow> 'h start_answers \<Rightarrow>
    (('d, 'h) NodeProduction \<Rightarrow> ('d, 'h) NodeProduction outcome) \<Rightarrow> string option \<Rightarrow>
    ('d, 'h) NodeProduction program_end" where
  "main_program marshal unmarshal F mkdir home opened A life close_host =
     (case main_loadConfig marshal unmarshal F of
        Inl e \<Rightarrow> ExitError (wrap ''Failed to load configuration'' e)
      | Inr cfg \<Rightarrow>
          (case snd (main_createDataDirectories mkdir home cfg) of
             Some e \<Rightarrow> ExitError (wrap ''Failed to create data directories'' e)
           | None \<Rightarrow>
               (case main_initializeNode home opened cfg of
                  Inl e \<Rightarrow> ExitError (wrap ''Failed to initialize node'' e)
                | Inr node \<Rightarrow>
                    (case bind_outcome (life (main_Start A node)) (main_Stop close_host) of
                       Panic m \<Rightarrow> ExitPanic m
                     | Ret node \<Rightarrow> ExitOk node))))"

definition runStart :: "crypto_lib \<Rightarrow> bytes option \<Rightarrow> (bytes \<Rightarrow> Config \<Rightarrow> string + Config) \<Rightarrow> string + bytes \<Rightarrow> string \<Rightarrow>
    string + 'd \<Rightarrow> 'h start_answers \<Rightarrow> ('h Daemon \<Rightarrow> 'h Daemon outcome) \<Rightarrow> string option \<Rightarrow> 'h Daemon program_end" where
  "runStart L entropy unmarshal file home opened A life close_host =
     (case load_valid unmarshal file of
        Inl e \<Rightarrow> ExitError e
      | Inr cfg \<Rightarrow>
          (case initializeNode L entropy home opened cfg of
             Inl e \<Rightarrow> ExitError (wrap ''failed to initialize node'' e)
           | Inr node \<Rightarrow>
               (case daemon_Start A node of
                  (node, Some e) \<Rightarrow> ExitError (wrap ''failed to start node'' e)
                | (node, None) \<Rightarrow>
                    (case bind_outcome (life node) (daemon_Stop close_host) of
                       Panic m \<Rightarrow> ExitPanic m
                     | Ret node \<Rightarrow> ExitOk node))))"

text \<open>The node of the other daemon, defined nowhere, is a parameter with its three operations.\<close>

definition ndagd_runStart :: "(bytes \<Rightarrow> Config \<Rightarrow> string + Config) \<Rightarrow> (string \<Rightarrow> string option) \<Rightarrow> string \<Rightarrow> string + bytes \<Rightarrow>
    (Config \<Rightarrow> string + 'n) \<Rightarrow> ('n \<Rightarrow> 'n \<times> string option) \<Rightarrow> ('n \<Rightarrow> 'n outcome) \<Rightarrow> ('n \<Rightarrow> ('n \<times> string option) outcome) \<Rightarrow>
    'n program_end" where
  "ndagd_runStart unmarshal mkdir home file make_node start life stop =
     (case ndagd_prepare unmarshal mkdir home file of
        Inl e \<Rightarrow> ExitError e
      | Inr (cfg, dirs) \<Rightarrow>
          (case make_node cfg of
             Inl e \<Rightarrow> ExitError (wrap ''failed to initialize node'' e)
           | Inr node \<Rightarrow>
               (case start node of
                  (node, Some e) \<Rightarrow> ExitError (wrap ''failed to start node'' e)
                | (node, None) \<Rightarrow>
                    (case bind_outcome (life node) stop of
                       Panic m \<Rightarrow> ExitPanic m
                     | Ret (node, Some e) \<Rightarrow> ExitError e
                     | Ret (node, None) \<Rightarrow> ExitOk node))))"

section \<open>Properties\<close>

text \<open>What the daemon does until its signal are the steps of its model.\<close>

definition daemon_lives :: "('h Daemon \<Rightarrow> 'h Daemon outcome) \<Rightarrow> bool" where
  "daemon_lives life \<longleftrightarrow> (\<forall>n n'. life n = Ret n' \<longrightarrow> daemon_step\<^sup>*\<^sup>* n n')"

lemma runStart_ok:
  assumes "runStart L entropy unmarshal file home opened A life ch = ExitOk n"
  obtains cfg n0 n1 n2 where "load_valid unmarshal file = Inr cfg" "initializeNode L entropy home opened cfg = Inr n0"
    "daemon_Start A n0 = (n1, None)" "life n1 = Ret n2" "daemon_Stop ch n2 = Ret n"
  using assms by (auto simp: runStart_def bind_outcome_Ret split: sum.splits prod.splits option.splits outcome.splits)

text \<open>C38: a whole run of the daemon executes nothing: a configuration that is not valid is refused
  before the node is made, and when the process ends in good order then its state machine has
  neither accounts nor any transaction it would not refuse, whatever events, verdicts and
  transactions came between start and stop.\<close>

theorem daemon_run_executes_nothing:
  assumes "runStart L entropy unmarshal file home opened A life ch = ExitOk n" and "daemon_lives life"
  shows "(\<exists>cfg. LoadConfig unmarshal file = Inr cfg \<and> Config_Validate cfg = None) \<and>
    sm_accounts (dm_state n) = Map.empty \<and>
    (\<exists>err. ExecuteTransaction (dm_state n) tx = (dm_state n, Rejected (VerificationFailed err)))"
  using assms(1)
proof (rule runStart_ok)
  fix cfg n0 n1 n2
  assume cfg: "load_valid unmarshal file = Inr cfg" and init: "initializeNode L entropy home opened cfg = Inr n0"
    and s: "daemon_Start A n0 = (n1, None)" "life n1 = Ret n2" "daemon_Stop ch n2 = Ret n"
  have "daemon_step n0 n1" using daemon_step.starts [of n0 A] s(1) by simp
  moreover have "daemon_step\<^sup>*\<^sup>* n1 n2" using s(2) assms(2) by (simp add: daemon_lives_def)
  moreover have "daemon_step n2 n" using s(3) by (rule daemon_step.stops)
  ultimately have "daemon_step\<^sup>*\<^sup>* n0 n" by (meson converse_rtranclp_into_rtranclp rtranclp.rtrancl_into_rtrancl)
  moreover have "sm_accounts (dm_state n0) = Map.empty"
    using init by (auto simp: initializeNode_def NewStateMachine_def split: sum.splits)
  ultimately have "sm_accounts (dm_state n) = Map.empty" using no_accounts.run by blast
  then show ?thesis
    using cfg no_accounts_refuses by (auto simp: load_valid_def split: sum.splits option.splits)
qed

definition sample_run :: "unit Daemon program_end" where
  "sample_run = runStart sample_lib None (\<lambda>_ _. Inr offline_config) (Inr []) ''/home/n'' (Inr ()) sample_answers Ret None"

lemma sample_run_ends: "\<exists>n. sample_run = ExitOk n"
  by (simp add: sample_run_def runStart_def load_valid_def LoadConfig_def offline_config_def Config_Validate_def
      DefaultConfig_def initializeNode_def NewStore_def NewLevelDBEngine_def daemon_key_def IsValidator_def
      daemon_network_def daemon_Start_def engine_Start_def daemon_Stop_def stop_parts_def Let_def NewStateMachine_def NewConsensusEngine_def StopEngine_def
      Mempool_Stop_def NewMempool_def Mempool_Clear_def)

theorem daemon_run_executes_nothing_witness:
  "\<exists>n. sample_run = ExitOk n \<and> sm_accounts (dm_state n) = Map.empty"
proof -
  obtain n where n: "sample_run = ExitOk n" using sample_run_ends by blast
  have "daemon_lives (Ret :: unit Daemon \<Rightarrow> unit Daemon outcome)" by (simp add: daemon_lives_def)
  from daemon_run_executes_nothing [OF n [unfolded sample_run_def] this] n show ?thesis by blast
qed

text \<open>The stand-alone program does not validate: whatever the file holds, valid or not, is the
  configuration its node runs with.\<close>

lemma main_runs_unvalidated:
  assumes "LoadConfig unmarshal (cg_read F None) = Inr cfg" and "\<not> cg_missing F" and "\<forall>d. mkdir d = None"
    and "\<not> pc_Enabled (cf_P2P cfg)"
  shows "\<exists>n. main_program marshal unmarshal F mkdir home (Inr store) A Ret ch = ExitOk n \<and> np_config n = cfg"
proof -
  have "snd (main_createDataDirectories mkdir home cfg) = None"
    using assms(3) by (simp add: main_createDataDirectories_def make_dirs_all)
  then show ?thesis
    using assms by (simp add: main_program_def main_loadConfig_def main_initializeNode_def NewStore_def
        NewLevelDBEngine_def new_network_def main_Start_def main_Stop_def stop_network_def stop_mempool_def
        stop_consensus_def Let_def NewConsensusEngine_def StopEngine_def Mempool_Stop_def NewMempool_def Mempool_Clear_def)
qed

text \<open>A first run without a configuration file goes on with that of the development network.\<close>

lemma main_first_run_config:
  assumes "main_program marshal unmarshal F mkdir home opened A life ch = ExitOk n" and "cg_missing F"
    and "\<And>n n'. life n = Ret n' \<Longrightarrow> np_config n' = np_config n"
  shows "np_config n = GenerateNetworkConfig NetworkTypeDevnet"
proof -
  have stop: "np_config n2 = np_config n1" if "main_Stop ch n1 = Ret n2" for n1 n2 :: "('a, 'b) NodeProduction"
    using that by (auto simp: main_Stop_def bind_outcome_Ret stop_network_def stop_mempool_def stop_consensus_def
        split: option.splits)
  have start: "np_config (main_Start A m) = np_config m" for m :: "('a, 'b) NodeProduction"
    by (simp add: main_Start_def split: option.split)
  show ?thesis
    using assms(1,2) stop assms(3) start
    by (fastforce simp: main_program_def main_loadConfig_def Let_def bind_outcome_Ret main_initializeNode_def
        split: sum.splits option.splits outcome.splits)
qed

end
