(* ===== verification/Ctl.thy ===== *)
theory Ctl
  imports Api Genesis
begin

text \<open>
  The control program \<open>cmd/ndagctl/main.go\<close>: its table of commands, the client it dials, the
  commands that make and submit transactions, the two queries, the commands on key files, the
  creation of a genesis file, and the commands that only answer that they are not implemented. A
  command on the server results in the lines it prints. Flags are left out; JSON, files, the
  clock, key generation, dialling and the server are parameters. The field \<open>Public\<close> of a private key, which does not compile, is taken as the method
  of that name.
\<close>

section \<open>Key files\<close>

text \<open>\<open>PrivateKey.Public\<close> of \<open>crypto/ed25519\<close> copies the second half of the key; it does not look
  at the length but panics when there is no second half.\<close>

definition ed25519_Public :: "bytes \<Rightarrow> bytes outcome" where
  "ed25519_Public k =
     (if length k < 32 then Panic ''slice bounds out of range'' else Ret (take 32 (drop 32 k @ replicate 32 0)))"

definition ctl_address :: "bytes \<Rightarrow> string" where
  "ctl_address pub = ''ndag'' @ hex_encode (take 8 pub)"

text \<open>JSON of a map of strings, and the texts of errors of \<open>encoding/hex\<close> and gRPC.\<close>

record ctl_env =
  ce_marshal :: "(string \<rightharpoonup> string) \<Rightarrow> bytes"
  ce_unmarshal :: "bytes \<Rightarrow> string + (string \<rightharpoonup> string)"
  ce_hex_error :: "string \<Rightarrow> string"
  ce_rpc_error :: "grpc_code \<times> string \<Rightarrow> string"

definition key_data :: "string \<Rightarrow> bytes \<Rightarrow> string \<Rightarrow> string \<rightharpoonup> string" where
  "key_data name pub private_key =
     [''name'' \<mapsto> name, ''address'' \<mapsto> ctl_address pub, ''public_key'' \<mapsto> hex_encode pub, ''private_key'' \<mapsto> private_key]"

text \<open>The address and the file written, by its name and contents; \<open>write\<close> is the file system's answer.\<close>

definition save_key :: "ctl_env \<Rightarrow> string option \<Rightarrow> string \<Rightarrow> bytes \<Rightarrow> string \<Rightarrow> string + string \<times> (string \<times> bytes) option" where
  "save_key E write name pub private_key =
     (case write of
        Some e \<Rightarrow> Inl e
      | None \<Rightarrow> Inr (ctl_address pub, Some (name @ ''.key'', ce_marshal E (key_data name pub private_key))))"

text \<open>\<open>generated\<close> is what \<open>ed25519.GenerateKey\<close> answers, a public and a private key.\<close>

definition ctl_generate :: "ctl_env \<Rightarrow> string + bytes \<times> bytes \<Rightarrow> string option \<Rightarrow> string \<Rightarrow>
    string + string \<times> (string \<times> bytes) option" where
  "ctl_generate E generated write name =
     (case generated of
        Inl e \<Rightarrow> Inl e
      | Inr (pubKey, privKey) \<Rightarrow>
          if name \<noteq> [] then save_key E write name pubKey (hex_encode privKey) else Inr (ctl_address pubKey, None))"

definition ctl_import :: "ctl_env \<Rightarrow> string option \<Rightarrow> string \<Rightarrow> string \<Rightarrow> (string + string \<times> (string \<times> bytes) option) outcome" where
  "ctl_import E write name privateKey =
     (case hex_decode privateKey of
        None \<Rightarrow> Ret (Inl (ce_hex_error E privateKey))
      | Some privKey \<Rightarrow> bind_outcome (ed25519_Public privKey) (\<lambda>pubKey. Ret (save_key E write name pubKey privateKey)))"

definition ctl_list :: "string + string list \<Rightarrow> string + string list" where
  "ctl_list files =
     map_sum id (\<lambda>fs. map (\<lambda>f. take (length f - 4) f) (filter (\<lambda>f. 4 \<le> length f \<and> drop (length f - 4) f = ''.key'') fs)) files"

text \<open>\<open>files\<close> is the file system; a map without the entry gives the empty string.\<close>

definition loadKeyFromFile :: "ctl_env \<Rightarrow> (string \<Rightarrow> string + bytes) \<Rightarrow> string \<Rightarrow> string + bytes" where
  "loadKeyFromFile E files name =
     (case files (name @ ''.key'') of
        Inl e \<Rightarrow> Inl e
      | Inr data \<Rightarrow>
          (case ce_unmarshal E data of
             Inl e \<Rightarrow> Inl e
           | Inr keyData \<Rightarrow>
               let private_key = (case keyData ''private_key'' of None \<Rightarrow> [] | Some k \<Rightarrow> k) in
               (case hex_decode private_key of None \<Rightarrow> Inl (ce_hex_error E private_key) | Some k \<Rightarrow> Inr k)))"

section \<open>Transactions\<close>

text \<open>The clock is read for the nonce, the time stamp and the name of a validator.\<close>

record ctl_clock =
  cc_nonce :: i64
  cc_nano :: i64
  cc_name :: i64

definition transfer_tx :: "string \<Rightarrow> ctl_clock \<Rightarrow> string \<Rightarrow> u64 \<Rightarrow> bytes \<Rightarrow> Transaction" where
  "transfer_tx network clk dest amount pub = zero_transaction\<lparr>tx_ChainId := network, tx_NetworkId := network @ ''-v1'',
     tx_Nonce := cc_nonce clk, tx_Fee := 1000, tx_GasLimit := 50000, tx_Timestamp := cc_nano clk,
     tx_Payload := Transfer \<lparr>tp_To = dest, tp_Amount = amount, tp_Memo = None\<rparr>, tx_PublicKey := pub\<rparr>"

record validator_flags =
  vl_moniker :: string
  vl_identity :: string
  vl_website :: string
  vl_details :: string
  vl_commissionRate :: u64

definition create_validator_tx :: "string \<Rightarrow> ctl_clock \<Rightarrow> validator_flags \<Rightarrow> bytes \<Rightarrow> Transaction" where
  "create_validator_tx network clk v pub = zero_transaction\<lparr>tx_ChainId := network, tx_NetworkId := network @ ''-v1'',
     tx_Nonce := cc_nonce clk, tx_Fee := 10000000, tx_GasLimit := 5000000, tx_Timestamp := cc_nano clk,
     tx_Payload := CreateValidator \<lparr>cv_ValidatorAddress = ''validator-'' @ fmt_i64 (cc_name clk), cv_PublicKey = pub,
       cv_CommissionRate = vl_commissionRate v, cv_MaxCommissionRate = 20000000, cv_CommissionChangeRate = 1000000,
       cv_Moniker = vl_moniker v, cv_Identity = vl_identity v, cv_Website = vl_website v, cv_Details = vl_details v\<rparr>,
     tx_PublicKey := pub\<rparr>"

definition delegate_tx :: "string \<Rightarrow> ctl_clock \<Rightarrow> string \<Rightarrow> u64 \<Rightarrow> Transaction" where
  "delegate_tx network clk validator amount = zero_transaction\<lparr>tx_ChainId := network, tx_NetworkId := network @ ''-v1'',
     tx_Nonce := cc_nonce clk, tx_Fee := 5000, tx_GasLimit := 200000, tx_Timestamp := cc_nano clk,
     tx_Payload := DelegateStake \<lparr>sp_ValidatorAddress = validator, sp_Amount = amount\<rparr>\<rparr>"

text \<open>The client is dialled at its first use and kept; \<open>dial\<close> answers for an address.\<close>

definition getClient :: "(string \<Rightarrow> string + 'c) \<Rightarrow> string \<Rightarrow> 'c option \<Rightarrow> 'c option \<times> (string + 'c)" where
  "getClient dial grpcAddr client =
     (case client of
        Some c \<Rightarrow> (client, Inr c)
      | None \<Rightarrow>
          (case dial grpcAddr of
             Inl e \<Rightarrow> (None, Inl (wrap ''failed to connect to gRPC server'' e))
           | Inr c \<Rightarrow> (Some c, Inr c)))"

text \<open>\<open>client\<close> is what \<open>getClient\<close> returns, the server's answers to a request. Signing is commented
  out in the code.\<close>

type_synonym submit_client = "string + (Transaction \<Rightarrow> SubmitTxResponse answer)"

definition ctl_transfer :: "ctl_env \<Rightarrow> (string \<Rightarrow> string + bytes) \<Rightarrow> submit_client \<Rightarrow> string \<Rightarrow>
    ctl_clock \<Rightarrow> string \<Rightarrow> string \<Rightarrow> u64 \<Rightarrow> (string + string list) outcome" where
  "ctl_transfer E files client network clk source dest amount =
     (case client of
        Inl e \<Rightarrow> Ret (Inl e)
      | Inr submit \<Rightarrow>
          (case loadKeyFromFile E files source of
             Inl e \<Rightarrow> Ret (Inl (wrap ''failed to load key'' e))
           | Inr keypair \<Rightarrow>
               bind_outcome (ed25519_Public keypair) (\<lambda>pub.
                 Ret (map_sum (\<lambda>e. wrap ''failed to submit transaction'' (ce_rpc_error E e))
                   (\<lambda>resp. [''Transaction submitted successfully!'', ''Transaction ID: '' @ sr_TxId resp,
                      ''Status: '' @ sr_Status resp])
                   (submit (transfer_tx network clk dest amount pub))))))"

text \<open>The new private key, the second of the two, is used nowhere.\<close>

definition ctl_create_validator :: "ctl_env \<Rightarrow> string + bytes \<times> bytes \<Rightarrow> submit_client \<Rightarrow> string \<Rightarrow>
    ctl_clock \<Rightarrow> validator_flags \<Rightarrow> string + string list" where
  "ctl_create_validator E generated client network clk v =
     (case client of
        Inl e \<Rightarrow> Inl e
      | Inr submit \<Rightarrow>
          (case generated of
             Inl e \<Rightarrow> Inl e
           | Inr (pubKey, privKey) \<Rightarrow>
               map_sum (ce_rpc_error E)
                 (\<lambda>resp. [''Validator created!'', ''Transaction ID: '' @ sr_TxId resp,
                    ''Public Key: '' @ hex_encode pubKey])
                 (submit (create_validator_tx network clk v pubKey))))"

definition ctl_delegate :: "ctl_env \<Rightarrow> submit_client \<Rightarrow> string \<Rightarrow> ctl_clock \<Rightarrow> string \<Rightarrow> u64 \<Rightarrow>
    string + string list" where
  "ctl_delegate E client network clk validator amount =
     (case client of
        Inl e \<Rightarrow> Inl e
      | Inr submit \<Rightarrow>
          map_sum (ce_rpc_error E) (\<lambda>resp. [''Delegation successful!'', ''Transaction ID: '' @ sr_TxId resp])
            (submit (delegate_tx network clk validator amount)))"

section \<open>Queries\<close>

record QueryBalanceResponse =
  qb_Balance :: u64
  qb_Nonce :: u64

definition ctl_balance :: "ctl_env \<Rightarrow> string + (string \<Rightarrow> QueryBalanceResponse answer) \<Rightarrow> string \<Rightarrow> string + string list" where
  "ctl_balance E client address =
     (case client of
        Inl e \<Rightarrow> Inl e
      | Inr query \<Rightarrow>
          map_sum (ce_rpc_error E)
            (\<lambda>resp. [''Balance for '' @ address @ '':'', ''  Balance: '' @ fmt_u64 (qb_Balance resp) @ '' NDAG'',
               ''  Nonce: '' @ fmt_u64 (qb_Nonce resp)])
            (query address))"

definition ctl_status :: "ctl_env \<Rightarrow> string + NodeStatus answer \<Rightarrow> string + string list" where
  "ctl_status E client =
     (case client of
        Inl e \<Rightarrow> Inl e
      | Inr status \<Rightarrow>
          map_sum (ce_rpc_error E)
            (\<lambda>resp. [''Node Status:'', ''  Node ID: '' @ ns_NodeId resp, ''  Version: '' @ ns_Version resp,
               ''  Chain ID: '' @ ns_ChainId resp, ''  Latest Round: '' @ fmt_u64 (ns_LatestRound resp),
               ''  Latest Epoch: '' @ fmt_u64 (ns_LatestEpoch resp), ''  Number of Peers: '' @ fmt_u64 (ns_NumPeers resp),
               ''  Number of Events: '' @ fmt_u64 (ns_NumEvents resp)])
            status)"

section \<open>Genesis\<close>

definition ctl_genesis :: "string \<Rightarrow> i64 \<Rightarrow> i64 \<Rightarrow> Event" where
  "ctl_genesis networkType nano nano_tx = zero_event\<lparr>ev_Id := ''genesis-event'', ev_Creator := ''genesis'',
     ev_Timestamp := nano, ev_Round := 0,
     ev_Transactions := [zero_transaction\<lparr>tx_Id := ''genesis-tx'', tx_ChainId := ''ndag-'' @ networkType,
       tx_NetworkId := ''ndag-'' @ networkType @ ''-v1'', tx_Nonce := 0, tx_Fee := 0, tx_GasLimit := 1000000,
       tx_Timestamp := nano_tx,
       tx_Payload := Genesis_Payload \<lparr>gp_Treasury = ''ndag1genesis'', gp_InitialSupply = 100000000000000,
         gp_ValidatorSet = None, gp_AccountStates = None, gp_TokenRegistry = None, gp_StateHash = []\<rparr>\<rparr>]\<rparr>"

text \<open>The bytes the output file then holds; \<open>marshal\<close> is JSON.\<close>

definition createGenesis :: "(Event \<Rightarrow> string + bytes) \<Rightarrow> string option \<Rightarrow> i64 \<Rightarrow> i64 \<Rightarrow> string \<Rightarrow> string + bytes" where
  "createGenesis marshal write nano nano_tx networkType =
     (case marshal (ctl_genesis networkType nano nano_tx) of
        Inl e \<Rightarrow> Inl e
      | Inr data \<Rightarrow> (case write of Some e \<Rightarrow> Inl e | None \<Rightarrow> Inr data))"

section \<open>Commands that are not implemented\<close>

datatype ctl_group = Tx | Query | Wallets | Token | Nft | GenesisBlock | Validators

text \<open>The table of commands, in the order they are added.\<close>

definition ctl_commands :: "(ctl_group \<times> string) list" where
  "ctl_commands =
     map (Pair Tx) [''transfer'', ''create-validator'', ''delegate'', ''create-token'', ''transfer-token'', ''mint-token'',
       ''burn-token'', ''create-collection'', ''mint-nft'', ''transfer-nft''] @
     map (Pair Query) [''balance'', ''account'', ''tx'', ''status'', ''validators'', ''token'', ''nft''] @
     map (Pair Wallets) [''generate'', ''import'', ''list''] @
     map (Pair Token) [''info'', ''balance''] @
     map (Pair Nft) [''info'', ''list''] @
     map (Pair GenesisBlock) [''create''] @
     map (Pair Validators) [''info'', ''set'']"

definition tx_placeholders :: "(ctl_group \<times> string \<times> string) list" where
  "tx_placeholders =
     [(Tx, ''create-token'', ''create-token''), (Tx, ''transfer-token'', ''transfer-token''),
      (Tx, ''mint-token'', ''mint-token''), (Tx, ''burn-token'', ''burn-token''),
      (Tx, ''create-collection'', ''create-collection''), (Tx, ''mint-nft'', ''mint-nft''),
      (Tx, ''transfer-nft'', ''transfer-nft'')]"

definition query_placeholders :: "(ctl_group \<times> string \<times> string) list" where
  "query_placeholders =
     [(Query, ''account'', ''account query''), (Query, ''tx'', ''tx query''),
      (Query, ''validators'', ''validators query''), (Query, ''token'', ''token query''),
      (Token, ''info'', ''token info''), (Token, ''balance'', ''token balance''),
      (Query, ''nft'', ''nft query''), (Nft, ''info'', ''nft info''), (Nft, ''list'', ''nft list'')]"

definition validator_placeholders :: "(ctl_group \<times> string \<times> string) list" where
  "validator_placeholders = [(Validators, ''info'', ''validator info''), (Validators, ''set'', ''validator set'')]"

definition placeholder :: "ctl_group \<Rightarrow> string \<Rightarrow> string option" where
  "placeholder g use =
     map_option (\<lambda>(g, u, what). what @ '' not yet implemented'')
       (find (\<lambda>(g', u, what). g' = g \<and> u = use) (tx_placeholders @ query_placeholders @ validator_placeholders))"

text \<open>No command is added twice; eighteen of the twenty-seven only say that they are not implemented.\<close>

lemma ctl_commands_placeholders:
  "distinct ctl_commands \<and> length ctl_commands = 27 \<and>
   filter (\<lambda>(g, u). placeholder g u = None) ctl_commands =
     [(Tx, ''transfer''), (Tx, ''create-validator''), (Tx, ''delegate''), (Query, ''balance''), (Query, ''status''),
      (Wallets, ''generate''), (Wallets, ''import''), (Wallets, ''list''), (GenesisBlock, ''create'')]"
  by code_simp

section \<open>Properties\<close>

text \<open>JSON reads the file back as the map it was made of.\<close>

definition json_reads_back :: "ctl_env \<Rightarrow> bytes \<Rightarrow> bool" where
  "json_reads_back E data \<longleftrightarrow> (\<forall>m. ce_marshal E m = data \<longrightarrow> ce_unmarshal E data = Inr m)"

lemma saved_key_loads:
  assumes "save_key E write name pub k = Inr (address, Some (file, data))"
    and "json_reads_back E data" and "files file = Inr data" and "hex_decode k = Some privKey"
  shows "loadKeyFromFile E files name = Inr privKey \<and> file = name @ ''.key''"
  using assms by (auto simp: save_key_def json_reads_back_def loadKeyFromFile_def key_data_def split: option.splits)

lemma take_key_ext: "take (length (n @ ''.key'') - 4) (n @ ''.key'') = n"
  by simp

lemma listed: "n @ ''.key'' \<in> set fs \<Longrightarrow> ctl_list (Inr fs) = Inr names \<Longrightarrow> n \<in> set names"
  using take_key_ext [of n] by (force simp: ctl_list_def image_iff)

text \<open>A key that was generated or imported and saved under a name is loaded back by that name,
  which the list shows.\<close>

theorem ctl_key_roundtrip:
  assumes "json_reads_back E data" and "files file = Inr data" and "file \<in> set fs" and "ctl_list (Inr fs) = Inr names"
    and "ctl_generate E (Inr (pubKey, privKey)) write name = Inr (address, Some (file, data)) \<or>
      hex_decode private_key = Some privKey \<and> ctl_import E write name private_key = Ret (Inr (address, Some (file, data)))"
  shows "loadKeyFromFile E files name = Inr privKey \<and> name \<in> set names"
proof -
  obtain pub k where "save_key E write name pub k = Inr (address, Some (file, data))" "hex_decode k = Some privKey"
    using assms(5) by (auto simp: ctl_generate_def ctl_import_def bind_outcome_Ret split: if_splits option.splits)
  with saved_key_loads assms(1,2) have "loadKeyFromFile E files name = Inr privKey" "file = name @ ''.key''"
    by blast+
  with listed assms(3,4) show ?thesis by blast
qed

definition sample_ctl :: ctl_env where
  "sample_ctl = \<lparr>ce_marshal = (\<lambda>m. if m = key_data ''k'' [1] (hex_encode [2]) then [1] else [2]),
     ce_unmarshal = (\<lambda>_. Inr (key_data ''k'' [1] (hex_encode [2]))),
     ce_hex_error = (\<lambda>_. ''encoding/hex: invalid byte''), ce_rpc_error = snd\<rparr>"

theorem ctl_key_roundtrip_witness:
  "ctl_generate sample_ctl (Inr ([1], [2])) None ''k'' = Inr (''ndag01'', Some (''k.key'', [1])) \<and>
   loadKeyFromFile sample_ctl (\<lambda>_. Inr [1]) ''k'' = Inr [2]"
proof -
  have g: "ctl_generate sample_ctl (Inr ([1], [2])) None ''k'' = Inr (''ndag01'', Some (''k.key'', [1]))"
    by (simp add: ctl_generate_def save_key_def ctl_address_def hex_digit_def sample_ctl_def) code_simp
  have "json_reads_back sample_ctl [1]" by (simp add: json_reads_back_def sample_ctl_def)
  moreover have "ctl_list (Inr [''k.key'']) = Inr [''k'']" by (simp add: ctl_list_def)
  ultimately show ?thesis
    using ctl_key_roundtrip [of sample_ctl "[1]" "\<lambda>_. Inr [1]" "''k.key''" "[''k.key'']" "[''k'']" "[1]" "[2]" None "''k''" "''ndag01''"] g
    by simp
qed

text \<open>A seed of 32 bytes, the other common form of a private key, is imported with the zero public
  key, whatever the seed.\<close>

lemma seed_import_zero_key: "length seed = 32 \<Longrightarrow> ed25519_Public seed = Ret (replicate 32 0)"
  by (simp add: ed25519_Public_def)

text \<open>C40: no transaction of the program is ever taken: a node with the chain id of any of the three
  networks refuses it for its chain id, and a peer that hears of it drops it, as it has neither an
  id nor a signature.\<close>

theorem ctl_transactions_refused:
  assumes "tx \<in> {transfer_tx network clk dest amount pub, create_validator_tx network clk v pub, delegate_tx network clk dest amount}"
    and "network \<in> {''mainnet'', ''testnet'', ''devnet''}"
    and "nc_ChainID (cf_Network (as_config s)) \<in> (\<lambda>n. nc_ChainID (cf_Network (GenerateNetworkConfig n))) `
      {NetworkTypeMainnet, NetworkTypeTestnet, NetworkTypeDevnet}"
    and "unmarshal data = Inr tx"
  shows "SubmitTx E publish now (Some tx) async s =
      (s, None, Ret (Inl (CodeInvalidArgument, ''invalid chain ID: '' @ network))) \<and>
    handle_tx L unmarshal (Inr data) peer = Ret peer"
proof -
  have tx: "tx_ChainId tx = network" "tx_Id tx = []"
    using assms(1) by (auto simp: transfer_tx_def create_validator_tx_def delegate_tx_def zero_transaction_def)
  have "nc_ChainID (cf_Network (as_config s)) \<in> {''ndag-mainnet-v1'', ''ndag-testnet-v1'', ''ndag-devnet-v1''}"
    using assms(3) by (auto simp: GenerateNetworkConfig_def Let_def network_types)
  then have "tx_ChainId tx \<noteq> nc_ChainID (cf_Network (as_config s))" using assms(2) tx(1) by auto
  moreover have "net_validateTransaction L peer (Some tx) \<noteq> None" using tx(2) by (simp add: validateTransaction_iff)
  ultimately show ?thesis
    using tx(1) assms(4) by (simp add: SubmitTx_def api_validateTransaction_def handle_tx_def)
qed

theorem ctl_transactions_refused_witness:
  "SubmitTx sample_api None 0 (Some (delegate_tx ''devnet'' \<lparr>cc_nonce = 7, cc_nano = 8, cc_name = 9\<rparr> ''v'' 5)) False sample_server =
     (sample_server, None, Ret (Inl (CodeInvalidArgument, ''invalid chain ID: devnet'')))"
proof -
  have "nc_ChainID (cf_Network (as_config sample_server)) \<in> (\<lambda>n. nc_ChainID (cf_Network (GenerateNetworkConfig n))) `
      {NetworkTypeMainnet, NetworkTypeTestnet, NetworkTypeDevnet}"
    by (simp add: sample_server_def NewAPIServer_def GenerateNetworkConfig_def DefaultConfig_def Let_def network_types)
  note refused = ctl_transactions_refused [OF _ _ this,
      where network = "''devnet''" and clk = "\<lparr>cc_nonce = 7, cc_nano = 8, cc_name = 9\<rparr>" and dest = "''v''" and amount = 5
        and unmarshal = "\<lambda>_. Inr (delegate_tx ''devnet'' \<lparr>cc_nonce = 7, cc_nano = 8, cc_name = 9\<rparr> ''v'' 5)"
        and tx = "delegate_tx ''devnet'' \<lparr>cc_nonce = 7, cc_nano = 8, cc_name = 9\<rparr> ''v'' 5"]
  show ?thesis by (rule refused [simplified, THEN conjunct1])
qed

text \<open>The private key of a new validator is lost: nothing the command does depends on it.\<close>

lemma validator_secret_lost:
  "ctl_create_validator E (Inr (pubKey, privKey)) client network clk v =
   ctl_create_validator E (Inr (pubKey, privKey')) client network clk v"
  by (simp add: ctl_create_validator_def split: sum.split)

text \<open>The status command shows the round of the node that serves it, unless its epochs are so short
  that the server divides by zero.\<close>

lemma status_shows_round:
  assumes "sint (cs_EpochDuration (cf_Consensus (as_config s))) = int k * 1000000000" and "0 < k" and "k < 2 ^ 53"
    and "ctl_status E (Inr (unary_call (snd (GetNodeStatus peers ks t now s)))) = Inr out"
  shows "''  Latest Round: '' @ fmt_u64 (LatestRound ks (en_dag (as_consensus s))) \<in> set out"
proof -
  have "calculateEpoch r (cs_EpochDuration (cf_Consensus (as_config s))) = Ret (r div word_of_nat k)" for r
    using assms(1-3) by (rule calculateEpoch_seconds)
  then show ?thesis
    using assms(4)
    by (auto simp: ctl_status_def GetNodeStatus_def Let_def unary_call_def rateLimitInterceptor_def recoveryInterceptor_def
        split: prod.splits)
qed

text \<open>The genesis file is no valid genesis, whatever the network.\<close>

lemma ctl_genesis_invalid:
  "ValidateGenesis (ctl_genesis networkType nano nano_tx) = Some ''genesis missing validator set''"
  by (simp add: ValidateGenesis_def ctl_genesis_def zero_event_def zero_transaction_def)

end
