(* ===== verification/Spec2Isabelle.thy ===== *)
theory Spec2Isabelle
  imports LogSpec Progress PoolSpec StateMachine Keystore Storage ExecutorProps Config Genesis Sync Peers Wallet Gateway
    EventLoop History Programs Ctl
begin

text \<open>
  A verification library for dagnet, a blockchain node in Go whose ledger is a graph of events.

  \<^bold>\<open>The program.\<close> An event carries transactions and names parent events. The graph and the
  engine (\<open>pkg/consensus\<close>) keep the events, the witnesses of each round and the verdicts of fame and
  finality; the mempool (\<open>pkg/mempool\<close>) keeps pending transactions by fee per gas; the network
  (\<open>pkg/network\<close>) gossips events and transactions, synchronises rounds between peers and scores
  peers; two ledgers execute transactions, the state machine in memory (\<open>pkg/state/state.go\<close>) and the
  executor over the database (\<open>executor.go\<close>, \<open>pkg/storage\<close>); the API (\<open>pkg/api\<close>) serves clients, with
  a wallet over encrypted key files (\<open>pkg/crypto\<close>). Three programs build a node from these parts
  (\<open>main.go\<close> and the two files of \<open>cmd/ndagd\<close>), as do the two nodes of \<open>pkg/node\<close>; \<open>cmd/ndagctl\<close> is the
  client. A tick of a node takes pending transactions from the pool, puts them into an event, adds
  it to the graph, broadcasts it, checks all rounds for finality and executes what is final.

  \<^bold>\<open>Where what is modelled.\<close> Every operation is a function on explicit states. Structs are records
  whose fields carry a short prefix, maps of Go are association lists (their order matters to
  \<open>range\<close>, which gets the order as an argument) or HOL maps, \<open>uint64\<close> and \<open>int64\<close> are 64-bit words.
  Errors are values; a panic is the case \<open>Panic\<close> of \<open>outcome\<close>. The executor's state holds the database
  and the engine, and the engine the graph, as the code's objects share them by pointers.

  \<^item> \<open>Prelude\<close>: Go's types, pieces of its standard library, maps, sums over finite maps, and the
    interfaces of the library: \<open>keeping_steps\<close> (a step relation keeps a predicate, so its runs do),
    \<open>refinement\<close> (steps simulate those of a specification), \<open>round_loop\<close> (the loops over 64-bit
    rounds). \<open>Proto\<close>: the messages of \<open>proto/\<close> as records. \<open>GoHeap\<close>: \<open>container/heap\<close> against an
    interface of queues. \<open>Float64\<close>: the part of IEEE arithmetic the priorities use.
  \<^item> \<open>Dag\<close>, \<open>Consensus\<close>: \<open>pkg/consensus/types.go\<close>. \<open>engine_step\<close> are the steps of an engine,
    \<open>engine_reachable\<close> its states; their invariant gives the theorems on finality. \<open>LogSpec\<close> is the
    specification the engine refines, \<open>Progress\<close> shows that finality is reached.
  \<^item> \<open>Mempool\<close>: \<open>pkg/mempool/mempool.go\<close> over a store of shared queue entries; \<open>MempoolProps\<close> what
    \<open>GetPending\<close> picks; \<open>PoolSpec\<close> the bounded map the pool refines.
  \<^item> \<open>StateMachine\<close>: \<open>state.go\<close>, with conservation of the native supply and of token supplies.
    \<open>Executor\<close>: \<open>executor.go\<close>; \<open>ExecutorLedger\<close> its ledger and frame lemmas; \<open>ExecutorProps\<close> its
    refinement of an abstract transfer, nonces, types and wrap-around.
  \<^item> \<open>Crypto\<close> and \<open>Keystore\<close>: \<open>pkg/crypto\<close>. \<open>Storage\<close>: \<open>pkg/storage\<close>. \<open>Codec\<close>: what the stored
    bytes are assumed to decode to. \<open>Config\<close>, \<open>Genesis\<close>: \<open>internal/config\<close>, \<open>internal/genesis\<close>, and
    the one function of \<open>internal/utils\<close>.
  \<^item> \<open>Network\<close>, \<open>Sync\<close>, \<open>Peers\<close>: \<open>p2p.go\<close>, \<open>sync.go\<close>, \<open>p2p_production.go\<close> of \<open>pkg/network\<close>.
    \<open>net_step\<close> are the steps of the network and its handlers.
  \<^item> \<open>Api\<close>, \<open>Gateway\<close>, \<open>Wallet\<close>: the handlers of \<open>pkg/api\<close>, the server's life and HTTP side, the wallet
    service. \<open>Ctl\<close>: \<open>cmd/ndagctl/main.go\<close>.
  \<^item> \<open>Node\<close>, \<open>NodeProps\<close>, \<open>EventLoop\<close>, \<open>History\<close>: \<open>pkg/node\<close>. \<open>Daemon\<close>: \<open>cmd/ndagd/main.go\<close>
    with its shutdown (\<open>process_step\<close>). \<open>Standalone\<close>:
    \<open>main.go\<close>. \<open>Startup\<close>: configuration and directories of all programs. \<open>Programs\<close>: the three programs
    from their start to their end.

  \<^bold>\<open>What the lemmas show.\<close> For each component an invariant kept by all its operations and lifted
  to runs by an interpretation of \<open>keeping_steps\<close> (\<open>reachable_engines\<close>, \<open>gated_networks\<close>,
  \<open>scored_peers\<close>, \<open>idle_nodes\<close>, \<open>doomed_processes\<close>, \<open>no_accounts\<close>, \<open>sound_logs\<close>, \<open>sound_pools\<close>); the refinements \<open>engine_log\<close>
  and \<open>pools\<close>; frame lemmas for what an operation leaves alone; functional lemmas for each branch,
  errors included; and across components, that nothing is lost between pool and graph, that a
  transaction succeeds at most once, that a network delivers what its peers accept, and where the
  program does not do what it means to do: without a call of \<open>DetermineFame\<close> nothing is ever
  executed, and with one every check of finality executes the whole history again; a non-witness
  bars its descendants from finality, whatever the README says; synchronisation stops at the first
  event of a second round, every peer is removed, the daemon's shutdown closes a channel twice.

  \<^bold>\<open>Termination and bounds.\<close> No definition uses fuel. Structural loops are \<open>fun\<close>; heap, ancestor
  search and \<open>GetPending\<close> have measures; the loops over rounds, which need not end when an event claims
  the greatest 64-bit round, are \<open>partial_function (option)\<close> with \<open>None\<close> for not returning, and
  \<open>checkFinality_returns\<close> and \<open>sync_server_termination\<close> say when they return. Goroutines are
  steps: a theorem over runs holds for every interleaving of whole operations, as the code's locks
  make them.

  \<^bold>\<open>Parameters and hypotheses.\<close> Hashes and signatures are \<open>crypto_lib\<close>, of which \<open>lib_ok\<close> states that
  signing is verified by the key made for it; LevelDB is \<open>leveldb\<close> with \<open>ldb_ok\<close>, that what is put
  is read back; protobuf, JSON and TOML are functions to and from bytes that read back what they
  wrote (\<open>env_ok\<close>, \<open>json_reads_back\<close>, \<open>toml_reads_back\<close>); libp2p's host and topics, the file system,
  the clock, randomness and the order of map iteration are arguments. \<open>Sign\<close> of an event,
  \<open>processNetworkEvents\<close>, \<open>executeBurnToken\<close>, \<open>executeTransferNFT\<close> and the node of \<open>ndagd.go\<close> are called
  by the code and defined nowhere: they are parameters. Of the first two the theorems on the
  production node assume nothing: their statements name, as the alternative, what these methods
  would have to do to break the conclusion. Protobuf encodes only messages with UTF-8 strings, so
  the theorems on the synchronisation ask it of the events sent (\<open>wire_ok\<close>); gossip may lose, repeat
  and reorder, and only what was published is delivered. Each hypothesis has a witness with a
  concrete instance.

  \<^bold>\<open>Not modelled.\<close> Logging, printing apart from the client's answers, metrics output, flags, signals
  beyond the cancelled context, the tickers of loops (the theorems take any sequence of ticks), the
  registration of services and streams with gRPC and libp2p, the generated code of \<open>pkg/pb\<close>, tests,
  scripts and containers. Data races within one operation are not modelled, as locks exclude them
  save where the findings of the manifest say otherwise; nor is waiting for a lock or a group of
  goroutines: \<open>CheckFinality\<close> takes the graph's read lock a second time in \<open>GetAncestors\<close>, which blocks
  for ever if a writer came to wait in between, and the network's \<open>Stop\<close> waits for its handlers.
\<close>

end
